theory Spec2Isabelle
  imports Main "HOL-Library.Log_Nat" "HOL-Library.Multiset"
begin

section \<open>Python values used by the benchmark harness\<close>

subsection \<open>Floats\<close>

text \<open>
  A Python \<open>float\<close> is an IEEE 754 binary64 value. The finite ones are carried by the
  rational they denote (the two zeros are one value: every operation of the harness treats
  them alike, and division by either raises). Arithmetic rounds the exact result to the
  nearest binary64 value, ties to even, with gradual underflow and overflow to infinity.
\<close>

datatype pyfloat = Finite rat | PInf | NInf | NaN

datatype py_error =
    ValueError
  | ZeroDivisionError
  | OverflowError
  | AttributeError
  | RuntimeError string
  | CalledProcessError
  | OSError

definition pow2 :: "int \<Rightarrow> rat" where
  "pow2 e = (if 0 \<le> e then 2 ^ nat e else 1 / 2 ^ nat (- e))"

definition floor_log2 :: "rat \<Rightarrow> int" where
  "floor_log2 q =
     (if 1 \<le> q then bitlen \<lfloor>q\<rfloor> - 1
      else (let k = bitlen \<lfloor>1 / q\<rfloor> - 1 in if pow2 (- k) \<le> q then - k else - k - 1))"

definition round_half_even :: "rat \<Rightarrow> int" where
  "round_half_even s =
     (let f = \<lfloor>s\<rfloor>; d = s - of_int f
      in if d < 1 / 2 then f else if 1 / 2 < d then f + 1 else if even f then f else f + 1)"

definition round64 :: "rat \<Rightarrow> pyfloat" where
  "round64 q =
     (if q = 0 then Finite 0
      else (let a = \<bar>q\<bar>;
                e = max (floor_log2 a - 52) (- 1074);
                m = round_half_even (a / pow2 e)
            in if 971 < e \<or> (e = 971 \<and> 2 ^ 53 \<le> m) then (if 0 < q then PInf else NInf)
               else Finite (if 0 < q then of_int m * pow2 e else - (of_int m * pow2 e))))"

fun py_add :: "pyfloat \<Rightarrow> pyfloat \<Rightarrow> pyfloat" where
  "py_add (Finite a) (Finite b) = round64 (a + b)"
| "py_add NaN _ = NaN"
| "py_add _ NaN = NaN"
| "py_add PInf NInf = NaN"
| "py_add NInf PInf = NaN"
| "py_add PInf _ = PInf"
| "py_add _ PInf = PInf"
| "py_add NInf _ = NInf"
| "py_add _ NInf = NInf"

text \<open>\<open>-x\<close>, \<open>x - y\<close> (the sum of \<open>x\<close> and \<open>-y\<close>) and \<open>abs(x)\<close>.\<close>

fun py_neg :: "pyfloat \<Rightarrow> pyfloat" where
  "py_neg (Finite a) = Finite (- a)"
| "py_neg PInf = NInf"
| "py_neg NInf = PInf"
| "py_neg NaN = NaN"

definition py_sub :: "pyfloat \<Rightarrow> pyfloat \<Rightarrow> pyfloat" where
  "py_sub x y = py_add x (py_neg y)"

fun py_abs :: "pyfloat \<Rightarrow> pyfloat" where
  "py_abs (Finite a) = Finite \<bar>a\<bar>"
| "py_abs PInf = PInf"
| "py_abs NInf = PInf"
| "py_abs NaN = NaN"

text \<open>\<open>x < y\<close> on floats: every comparison with a NaN is false.\<close>

fun py_lt :: "pyfloat \<Rightarrow> pyfloat \<Rightarrow> bool" where
  "py_lt NaN _ = False"
| "py_lt _ NaN = False"
| "py_lt (Finite a) (Finite b) = (a < b)"
| "py_lt NInf NInf = False"
| "py_lt NInf _ = True"
| "py_lt _ NInf = False"
| "py_lt PInf _ = False"
| "py_lt _ PInf = True"

definition py_gt :: "pyfloat \<Rightarrow> pyfloat \<Rightarrow> bool" where
  "py_gt x y = py_lt y x"

definition py_le :: "pyfloat \<Rightarrow> pyfloat \<Rightarrow> bool" where
  "py_le x y = (x \<noteq> NaN \<and> y \<noteq> NaN \<and> \<not> py_lt y x)"

definition py_ge :: "pyfloat \<Rightarrow> pyfloat \<Rightarrow> bool" where
  "py_ge x y = py_le y x"

text \<open>
  Converting an \<open>int\<close> operand of a float operation: the nearest float, and
  \<open>OverflowError\<close> when the integer is too large for one.
\<close>

definition py_float_of_int :: "int \<Rightarrow> py_error + pyfloat" where
  "py_float_of_int i =
     (case round64 (of_int i) of Finite q \<Rightarrow> Inr (Finite q) | _ \<Rightarrow> Inl OverflowError)"

text \<open>\<open>x / y\<close> on floats: a zero divisor raises, whatever the dividend.\<close>

fun py_truediv :: "pyfloat \<Rightarrow> pyfloat \<Rightarrow> py_error + pyfloat" where
  "py_truediv x (Finite b) =
     (if b = 0 then Inl ZeroDivisionError
      else Inr (case x of
                  Finite a \<Rightarrow> round64 (a / b)
                | PInf \<Rightarrow> (if 0 < b then PInf else NInf)
                | NInf \<Rightarrow> (if 0 < b then NInf else PInf)
                | NaN \<Rightarrow> NaN))"
| "py_truediv x NaN = Inr NaN"
| "py_truediv x y =
     Inr (case x of Finite a \<Rightarrow> Finite 0 | _ \<Rightarrow> NaN)"

definition py_truediv_float_int :: "pyfloat \<Rightarrow> int \<Rightarrow> py_error + pyfloat" where
  "py_truediv_float_int x i =
     (case py_float_of_int i of Inl e \<Rightarrow> Inl e | Inr y \<Rightarrow> py_truediv x y)"

definition py_truediv_int_float :: "int \<Rightarrow> pyfloat \<Rightarrow> py_error + pyfloat" where
  "py_truediv_int_float i y =
     (case py_float_of_int i of Inl e \<Rightarrow> Inl e | Inr x \<Rightarrow> py_truediv x y)"

subsection \<open>Built-ins over lists of floats\<close>

text \<open>
  \<open>sum(times)\<close> starts from \<open>0\<close> and adds the items from left to right. How it
  adds floats depends on the interpreter. CPython up to 3.11 adds each item to the running
  total (\<open>Sequential\<close>). CPython from 3.12 on keeps, beside the running total \<open>f\<close>, a
  compensation \<open>c\<close> that collects the rounding error of every addition (Neumaier's
  variant of Kahan's summation), and adds it to the total at the end when it is finite and
  not zero (\<open>Compensated\<close>).
\<close>

datatype float_sum = Sequential | Compensated

fun compensated :: "pyfloat \<Rightarrow> pyfloat \<Rightarrow> pyfloat list \<Rightarrow> pyfloat" where
  "compensated f c [] = (case c of Finite q \<Rightarrow> if q = 0 then f else py_add f c | _ \<Rightarrow> f)"
| "compensated f c (x # xs) =
     (let t = py_add f x;
          d = (if py_ge (py_abs f) (py_abs x) then py_add (py_sub f t) x
               else py_add (py_sub x t) f)
      in compensated t (py_add c d) xs)"

definition py_sum :: "float_sum \<Rightarrow> pyfloat list \<Rightarrow> pyfloat" where
  "py_sum v ts =
     (case v of
        Sequential \<Rightarrow> foldl py_add (Finite 0) ts
      | Compensated \<Rightarrow>
          (case ts of
             [] \<Rightarrow> Finite 0
           | x # xs \<Rightarrow> compensated (py_add (Finite 0) x) (Finite 0) xs))"

text \<open>
  \<open>min\<close> and \<open>max\<close> keep the first item and replace it by a later one that compares
  strictly smaller (larger); on an empty list they raise \<open>ValueError\<close>.
\<close>

fun py_min :: "pyfloat list \<Rightarrow> py_error + pyfloat" where
  "py_min [] = Inl ValueError"
| "py_min (t # ts) = Inr (foldl (\<lambda>m y. if py_lt y m then y else m) t ts)"

fun py_max :: "pyfloat list \<Rightarrow> py_error + pyfloat" where
  "py_max [] = Inl ValueError"
| "py_max (t # ts) = Inr (foldl (\<lambda>m y. if py_gt y m then y else m) t ts)"

section \<open>Data structures\<close>

record BenchResult =
  tool :: string
  operation :: string
  threads :: int
  iteration :: int
  time_s :: pyfloat

record BenchSummary =
  tool :: string
  operation :: string
  threads :: int
  n :: int
  mean_s :: pyfloat
  min_s :: pyfloat
  max_s :: pyfloat
  num_points :: int
  file_size_bytes :: int

definition pts_per_s :: "BenchSummary \<Rightarrow> py_error + pyfloat" where
  "pts_per_s s =
     (if py_gt (mean_s s) (Finite 0) then py_truediv_int_float (num_points s) (mean_s s)
      else Inr (Finite 0))"

definition mb_per_s :: "BenchSummary \<Rightarrow> py_error + pyfloat" where
  "mb_per_s s =
     (if py_gt (mean_s s) (Finite 0)
      then (case py_truediv_int_float (file_size_bytes s) (Finite 1000000) of
              Inl e \<Rightarrow> Inl e
            | Inr mb \<Rightarrow> py_truediv mb (mean_s s))
      else Inr (Finite 0))"

section \<open>Aggregation\<close>

type_synonym group_key = "string \<times> string \<times> int"

definition key_of :: "BenchResult \<Rightarrow> group_key" where
  "key_of r = (BenchResult.tool r, BenchResult.operation r, BenchResult.threads r)"

definition summary_key :: "BenchSummary \<Rightarrow> group_key" where
  "summary_key s = (BenchSummary.tool s, BenchSummary.operation s, BenchSummary.threads s)"

text \<open>
  The dictionary \<open>groups\<close> keeps its keys in the order of their first insertion, and
  that order is the order of the returned list: an association list, with
  \<open>groups.setdefault(key, []).append(t)\<close> as its one operation.
\<close>

fun setdefault_append :: "'k \<Rightarrow> 'v \<Rightarrow> ('k \<times> 'v list) list \<Rightarrow> ('k \<times> 'v list) list" where
  "setdefault_append k t [] = [(k, [t])]"
| "setdefault_append k t ((k', ts) # g) =
     (if k' = k then (k', ts @ [t]) # g else (k', ts) # setdefault_append k t g)"

definition group_samples :: "BenchResult list \<Rightarrow> (group_key \<times> pyfloat list) list" where
  "group_samples raw = foldl (\<lambda>g r. setdefault_append (key_of r) (time_s r) g) [] raw"

definition summarise ::
  "float_sum \<Rightarrow> int \<Rightarrow> int \<Rightarrow> group_key \<times> pyfloat list \<Rightarrow> py_error + BenchSummary" where
  "summarise v np fs g =
     (case g of ((tn, opn, th), ts) \<Rightarrow>
        (case py_truediv_float_int (py_sum v ts) (int (length ts)) of
           Inl e \<Rightarrow> Inl e
         | Inr mean \<Rightarrow>
            (case py_min ts of
               Inl e \<Rightarrow> Inl e
             | Inr lo \<Rightarrow>
                (case py_max ts of
                   Inl e \<Rightarrow> Inl e
                 | Inr hi \<Rightarrow>
                    Inr \<lparr>BenchSummary.tool = tn, operation = opn, threads = th,
                         n = int (length ts), mean_s = mean, min_s = lo, max_s = hi,
                         num_points = np, file_size_bytes = fs\<rparr>))))"

fun collect :: "('a \<Rightarrow> py_error + 'b) \<Rightarrow> 'a list \<Rightarrow> py_error + 'b list" where
  "collect f [] = Inr []"
| "collect f (x # xs) =
     (case f x of
        Inl e \<Rightarrow> Inl e
      | Inr y \<Rightarrow> (case collect f xs of Inl e \<Rightarrow> Inl e | Inr ys \<Rightarrow> Inr (y # ys)))"

definition aggregate ::
  "float_sum \<Rightarrow> BenchResult list \<Rightarrow> int \<Rightarrow> int \<Rightarrow> py_error + BenchSummary list" where
  "aggregate v raw np fs = collect (summarise v np fs) (group_samples raw)"

section \<open>Grouping: what the dictionary holds\<close>

definition times_of :: "group_key \<Rightarrow> BenchResult list \<Rightarrow> pyfloat list" where
  "times_of k raw = map time_s (filter (\<lambda>r. key_of r = k) raw)"

lemma setdefault_append_keys:
  "fst ` set (setdefault_append k t g) = insert k (fst ` set g)"
proof (induction g)
  case Nil
  show ?case by simp
next
  case (Cons p g)
  obtain k' ts where p: "p = (k', ts)" by (cases p)
  show ?case
  proof (cases "k' = k")
    case True
    then show ?thesis by (simp add: p)
  next
    case False
    then show ?thesis by (simp add: p Cons insert_commute)
  qed
qed

lemma setdefault_append_distinct:
  "distinct (map fst g) \<Longrightarrow> distinct (map fst (setdefault_append k t g))"
proof (induction g)
  case Nil
  show ?case by simp
next
  case (Cons p g)
  obtain k' ts where p: "p = (k', ts)" by (cases p)
  from Cons show ?case
    by (cases "k' = k") (auto simp: p setdefault_append_keys)
qed

lemma setdefault_append_lookup:
  "map_of (setdefault_append k t g) k' =
     (if k' = k then Some ((case map_of g k of None \<Rightarrow> [] | Some ts \<Rightarrow> ts) @ [t])
      else map_of g k')"
proof (induction g arbitrary: k')
  case Nil
  show ?case by simp
next
  case (Cons p g)
  obtain k0 ts where p: "p = (k0, ts)" by (cases p)
  show ?case
    by (cases "k0 = k") (auto simp: p Cons)
qed

lemma group_samples_snoc:
  "group_samples (raw @ [r]) = setdefault_append (key_of r) (time_s r) (group_samples raw)"
  by (simp add: group_samples_def)

lemma group_samples_keys: "fst ` set (group_samples raw) = key_of ` set raw"
proof (induction raw rule: rev_induct)
  case Nil
  show ?case by (simp add: group_samples_def)
next
  case (snoc r raw)
  have "fst ` set (group_samples (raw @ [r])) = insert (key_of r) (fst ` set (group_samples raw))"
    by (simp only: group_samples_snoc setdefault_append_keys)
  also have "\<dots> = key_of ` set (raw @ [r])"
    by (simp only: snoc) simp
  finally show ?case .
qed

lemma group_samples_distinct: "distinct (map fst (group_samples raw))"
proof (induction raw rule: rev_induct)
  case Nil
  show ?case by (simp add: group_samples_def)
next
  case (snoc r raw)
  then show ?case
    by (simp only: group_samples_snoc setdefault_append_distinct)
qed

lemma group_samples_lookup:
  "map_of (group_samples raw) k =
     (if k \<in> key_of ` set raw then Some (times_of k raw) else None)"
proof (induction raw arbitrary: k rule: rev_induct)
  case Nil
  show ?case by (simp add: group_samples_def)
next
  case (snoc r raw)
  have step: "map_of (group_samples (raw @ [r])) k =
      (if k = key_of r
       then Some ((case map_of (group_samples raw) (key_of r) of None \<Rightarrow> [] | Some ts \<Rightarrow> ts) @ [time_s r])
       else map_of (group_samples raw) k)"
    by (simp only: group_samples_snoc setdefault_append_lookup)
  show ?case
  proof (cases "k = key_of r")
    case True
    have "map_of (group_samples (raw @ [r])) (key_of r) = Some (times_of (key_of r) (raw @ [r]))"
      by (auto simp: step [unfolded True] snoc [of "key_of r"] times_of_def filter_empty_conv)
         (metis imageI)
    then show ?thesis
      by (simp add: True)
  next
    case False
    then show ?thesis
      by (auto simp add: step snoc [of k] times_of_def)
  qed
qed

lemma group_samples_member:
  assumes "(k, ts) \<in> set (group_samples raw)"
  shows "ts = times_of k raw" and "k \<in> key_of ` set raw" and "ts \<noteq> []"
proof -
  from assms have "map_of (group_samples raw) k = Some ts"
    using group_samples_distinct by simp
  then show a: "ts = times_of k raw" and b: "k \<in> key_of ` set raw"
    by (auto simp: group_samples_lookup split: if_splits)
  from b show "ts \<noteq> []"
    by (auto simp: a times_of_def filter_empty_conv)
qed

lemma group_samples_total_length:
  "sum_list (map (\<lambda>g. length (snd g)) (group_samples raw)) = length raw"
proof -
  have step: "sum_list (map (\<lambda>g. length (snd g)) (setdefault_append k t g)) =
      Suc (sum_list (map (\<lambda>g. length (snd g)) g))" for k :: group_key and t :: pyfloat and g
    by (induction g) auto
  show ?thesis
    by (induction raw rule: rev_induct)
       (simp_all add: group_samples_snoc step, simp add: group_samples_def)
qed

section \<open>Conversions that cannot fail on a list length\<close>

lemma round_half_even_of_int: "round_half_even (of_int j) = j"
  by (simp add: round_half_even_def)

lemma round64_of_int:
  assumes "0 < i" and "i < 2 ^ 53"
  shows "round64 (of_int i) = Finite (of_int i)"
proof -
  define b where "b = bitlen i"
  define k where "k = nat (53 - b)"
  have b1: "1 \<le> b"
    using assms(1) bitlen_ge_iff_power [of 1 i] by (simp add: b_def)
  have b53: "b \<le> 53"
    using assms(2) bitlen_le_iff_power [of i 53] by (simp add: b_def)
  have fl: "floor_log2 (rat_of_int i) = b - 1"
    using assms(1) by (simp add: floor_log2_def b_def)
  have e: "max (b - 53) (- 1074) = b - 53"
    using b1 by simp
  have p: "pow2 (b - 53) = 1 / 2 ^ k"
    using b53 by (cases "b = 53") (simp_all add: pow2_def k_def)
  have sc: "rat_of_int i / pow2 (b - 53) = of_int (i * 2 ^ k)"
    by (simp add: p)
  have m: "round_half_even (rat_of_int i / pow2 (b - 53)) = i * 2 ^ k"
    by (simp only: sc round_half_even_of_int)
  have "round64 (of_int i) = Finite (of_int (i * 2 ^ k) * pow2 (b - 53))"
    using b53 assms(1) by (simp add: round64_def Let_def fl e m del: of_int_mult)
  also have "of_int (i * 2 ^ k) * pow2 (b - 53) = rat_of_int i"
    by (simp add: p)
  finally show ?thesis .
qed

lemma py_float_of_length:
  assumes "0 < m" and "m < 2 ^ 53"
  shows "py_float_of_int (int m) = Inr (Finite (of_nat m))"
proof -
  have "int m < 2 ^ 53"
    using assms(2) by (metis of_nat_less_iff of_nat_numeral of_nat_power)
  then have "round64 (of_int (int m)) = Finite (of_int (int m))"
    using assms(1) by (intro round64_of_int) simp_all
  then show ?thesis
    by (simp add: py_float_of_int_def)
qed

lemma mean_defined:
  assumes "ts \<noteq> []" and "length ts < 2 ^ 53"
  shows "\<exists>m. py_truediv_float_int x (int (length ts)) = Inr m"
proof -
  have "0 < length ts" using assms(1) by simp
  then show ?thesis
    using py_float_of_length [OF _ assms(2)]
    by (simp add: py_truediv_float_int_def)
qed

lemma summarise_ok:
  assumes "ts \<noteq> []" and "length ts < 2 ^ 53"
  shows "\<exists>s. summarise v np fs (k, ts) = Inr s \<and> summary_key s = k \<and> n s = int (length ts) \<and>
           py_truediv_float_int (py_sum v ts) (int (length ts)) = Inr (mean_s s) \<and>
           py_min ts = Inr (min_s s) \<and> py_max ts = Inr (max_s s) \<and>
           num_points s = np \<and> file_size_bytes s = fs"
proof -
  obtain m where m: "py_truediv_float_int (py_sum v ts) (int (length ts)) = Inr m"
    using mean_defined [OF assms] by blast
  obtain t ts' where ts: "ts = t # ts'"
    using assms(1) by (cases ts) auto
  obtain tn opn th where k: "k = (tn, opn, th)"
    by (cases k)
  show ?thesis
    using m by (simp add: summarise_def k summary_key_def) (simp add: ts)
qed

lemma collect_ok:
  assumes "\<And>x. x \<in> set xs \<Longrightarrow> \<exists>y. f x = Inr y \<and> P x y"
  shows "\<exists>ys. collect f xs = Inr ys \<and> list_all2 P xs ys"
  using assms
proof (induction xs)
  case Nil
  show ?case by simp
next
  case (Cons x xs)
  obtain y where y: "f x = Inr y" "P x y"
    using Cons.prems [of x] by auto
  obtain ys where ys: "collect f xs = Inr ys" "list_all2 P xs ys"
    using Cons.IH Cons.prems by auto
  show ?case
    by (simp add: y ys)
qed

definition summary_of_group ::
  "float_sum \<Rightarrow> int \<Rightarrow> int \<Rightarrow> group_key \<times> pyfloat list \<Rightarrow> BenchSummary \<Rightarrow> bool" where
  "summary_of_group v np fs g s =
     (summary_key s = fst g \<and> n s = int (length (snd g)) \<and>
      py_truediv_float_int (py_sum v (snd g)) (int (length (snd g))) = Inr (mean_s s) \<and>
      py_min (snd g) = Inr (min_s s) \<and> py_max (snd g) = Inr (max_s s) \<and>
      num_points s = np \<and> file_size_bytes s = fs)"

lemma aggregate_ok:
  assumes "length raw < 2 ^ 53"
  shows "\<exists>ss. aggregate v raw np fs = Inr ss \<and>
           list_all2 (summary_of_group v np fs) (group_samples raw) ss"
  unfolding aggregate_def
proof (rule collect_ok)
  fix g assume g: "g \<in> set (group_samples raw)"
  obtain k ts where kt: "g = (k, ts)" by (cases g)
  have ts: "ts = times_of k raw" "ts \<noteq> []"
    using group_samples_member [of k ts raw] g by (simp_all add: kt)
  have "length ts \<le> length raw"
    by (simp add: ts(1) times_of_def)
  then have "length ts < 2 ^ 53"
    using assms by simp
  from summarise_ok [OF ts(2) this, where v = v and np = np and fs = fs and k = k]
  show "\<exists>y. summarise v np fs g = Inr y \<and> summary_of_group v np fs g y"
    by (auto simp: kt summary_of_group_def)
qed

lemma list_all2_rightD:
  "list_all2 P xs ys \<Longrightarrow> y \<in> set ys \<Longrightarrow> \<exists>x. x \<in> set xs \<and> P x y"
  by (induction rule: list_all2_induct) auto

lemma sum_list_int_map: "sum_list (map (\<lambda>g. int (f g)) gs) = int (sum_list (map f gs))"
  by (induction gs) simp_all

lemma distinct_key_once:
  "distinct (map f xs) \<Longrightarrow> k \<in> f ` set xs \<Longrightarrow> length (filter (\<lambda>y. f y = k) xs) = 1"
proof (induction xs)
  case Nil
  then show ?case by simp
next
  case (Cons a xs)
  show ?case
  proof (cases "f a = k")
    case True
    with Cons.prems(1) have "filter (\<lambda>y. f y = k) xs = []"
      by (auto simp: filter_empty_conv) (metis imageI)
    with True show ?thesis by simp
  next
    case False
    with Cons show ?thesis by auto
  qed
qed

lemma summaries_keys:
  "list_all2 (summary_of_group v np fs) gs ss \<Longrightarrow> map summary_key ss = map fst gs"
  by (induction rule: list_all2_induct) (simp_all add: summary_of_group_def)

lemma summaries_counts:
  "list_all2 (summary_of_group v np fs) gs ss \<Longrightarrow>
   map n ss = map (\<lambda>g. int (length (snd g))) gs"
  by (induction rule: list_all2_induct) (simp_all add: summary_of_group_def)

lemma summary_group:
  assumes "list_all2 (summary_of_group v np fs) (group_samples raw) ss" and "s \<in> set ss"
  shows "summary_of_group v np fs (summary_key s, times_of (summary_key s) raw) s"
    and "summary_key s \<in> key_of ` set raw"
proof -
  obtain g where g: "g \<in> set (group_samples raw)" "summary_of_group v np fs g s"
    using list_all2_rightD [OF assms] by blast
  obtain k ts where kt: "g = (k, ts)" by (cases g)
  have k: "summary_key s = k"
    using g(2) by (simp add: summary_of_group_def kt)
  have "ts = times_of k raw" and "k \<in> key_of ` set raw"
    using group_samples_member [of k ts raw] g(1) by (simp_all add: kt)
  then show "summary_of_group v np fs (summary_key s, times_of (summary_key s) raw) s"
    and "summary_key s \<in> key_of ` set raw"
    using g(2) by (simp_all add: k kt)
qed

definition sample :: "string \<Rightarrow> string \<Rightarrow> int \<Rightarrow> int \<Rightarrow> pyfloat \<Rightarrow> BenchResult" where
  "sample tn opn th it t =
     \<lparr>BenchResult.tool = tn, BenchResult.operation = opn, BenchResult.threads = th,
      iteration = it, time_s = t\<rparr>"

section \<open>Properties of the aggregation\<close>

text \<open>
  C9. The keys \<open>(tool, operation, threads)\<close> of the summaries that \<open>aggregate\<close>
  returns are pairwise distinct: no key appears in two summaries. (A list has fewer than
  \<open>2 ^ 53\<close> items, so its length converts to a float exactly and \<open>aggregate\<close> returns.)
\<close>

theorem aggregate_keys_distinct:
  assumes "length raw < 2 ^ 53"
  shows "\<exists>ss. aggregate v raw np fs = Inr ss \<and> distinct (map summary_key ss)"
proof -
  obtain ss where ss: "aggregate v raw np fs = Inr ss"
      "list_all2 (summary_of_group v np fs) (group_samples raw) ss"
    using aggregate_ok [OF assms] by blast
  have "distinct (map summary_key ss)"
    by (simp only: summaries_keys [OF ss(2)] group_samples_distinct)
  with ss(1) show ?thesis by blast
qed

theorem aggregate_keys_distinct_witness:
  "length [sample ''laspp'' ''read'' 1 0 (Finite (1 / 2)),
           sample ''laspp'' ''read'' 1 1 (Finite (1 / 4)),
           sample ''pdal'' ''read'' 0 0 (Finite 2)] < 2 ^ 53 \<and>
   (\<exists>ss. aggregate Compensated [sample ''laspp'' ''read'' 1 0 (Finite (1 / 2)),
                     sample ''laspp'' ''read'' 1 1 (Finite (1 / 4)),
                     sample ''pdal'' ''read'' 0 0 (Finite 2)] 0 0 = Inr ss \<and>
         distinct (map summary_key ss))"
  using aggregate_keys_distinct
    [where raw = "[sample ''laspp'' ''read'' 1 0 (Finite (1 / 2)),
          sample ''laspp'' ''read'' 1 1 (Finite (1 / 4)),
          sample ''pdal'' ''read'' 0 0 (Finite 2)]" and v = Compensated and np = 0 and fs = 0]
  by simp

text \<open>
  C10. Aggregation conserves samples: the \<open>n\<close> fields of the summaries add up to the
  length of the input, each summary counts exactly the samples that carry its key, and
  every sample's key is the key of exactly one summary.
\<close>

theorem aggregate_conserves_samples:
  assumes "length raw < 2 ^ 53"
  shows "\<exists>ss. aggregate v raw np fs = Inr ss \<and>
           sum_list (map n ss) = int (length raw) \<and>
           (\<forall>s \<in> set ss. n s = int (length (filter (\<lambda>r. key_of r = summary_key s) raw))) \<and>
           (\<forall>r \<in> set raw. length (filter (\<lambda>s. summary_key s = key_of r) ss) = 1)"
proof -
  obtain ss where ss: "aggregate v raw np fs = Inr ss"
      "list_all2 (summary_of_group v np fs) (group_samples raw) ss"
    using aggregate_ok [OF assms] by blast
  have keys: "map summary_key ss = map fst (group_samples raw)"
    by (rule summaries_keys [OF ss(2)])
  have "sum_list (map n ss) = int (sum_list (map (\<lambda>g. length (snd g)) (group_samples raw)))"
    by (simp only: summaries_counts [OF ss(2)] sum_list_int_map)
  then have total: "sum_list (map n ss) = int (length raw)"
    by (simp only: group_samples_total_length)
  have each: "n s = int (length (filter (\<lambda>r. key_of r = summary_key s) raw))"
    if "s \<in> set ss" for s
    using summary_group(1) [OF ss(2) that] by (simp add: summary_of_group_def times_of_def)
  have dist: "distinct (map summary_key ss)"
    by (simp only: keys group_samples_distinct)
  have once: "length (filter (\<lambda>s. summary_key s = key_of r) ss) = 1" if "r \<in> set raw" for r
  proof -
    have "key_of r \<in> set (map summary_key ss)"
      using that by (simp only: keys) (simp add: group_samples_keys)
    then have "key_of r \<in> summary_key ` set ss"
      by simp
    from distinct_key_once [OF dist this] show ?thesis .
  qed
  from ss(1) total each once show ?thesis by blast
qed

theorem aggregate_conserves_samples_witness:
  "length [sample ''laspp'' ''read'' 4 0 (Finite (1 / 2)),
           sample ''lazrs'' ''read'' 0 0 (Finite 1),
           sample ''laspp'' ''read'' 4 1 (Finite (1 / 4))] < 2 ^ 53 \<and>
   (\<exists>ss. aggregate Sequential [sample ''laspp'' ''read'' 4 0 (Finite (1 / 2)),
                     sample ''lazrs'' ''read'' 0 0 (Finite 1),
                     sample ''laspp'' ''read'' 4 1 (Finite (1 / 4))] 7 9 = Inr ss \<and>
         sum_list (map n ss) = 3)"
  using aggregate_conserves_samples
    [where raw = "[sample ''laspp'' ''read'' 4 0 (Finite (1 / 2)),
          sample ''lazrs'' ''read'' 0 0 (Finite 1),
          sample ''laspp'' ''read'' 4 1 (Finite (1 / 4))]" and v = Sequential and np = 7 and fs = 9]
  by auto

section \<open>Derived throughput\<close>

lemma py_float_of_int_not_zerodiv: "py_float_of_int i \<noteq> Inl ZeroDivisionError"
  by (simp add: py_float_of_int_def split: pyfloat.splits)

lemma py_float_of_int_zero: "py_float_of_int 0 = Inr (Finite 0)"
  by (simp add: py_float_of_int_def round64_def)

lemma py_truediv_positive:
  "py_gt y (Finite 0) \<Longrightarrow> py_truediv x y \<noteq> Inl ZeroDivisionError"
  by (cases y) (auto simp: py_gt_def)

lemma py_truediv_zero_positive:
  "py_gt y (Finite 0) \<Longrightarrow> py_truediv (Finite 0) y = Inr (Finite 0)"
  by (cases y) (auto simp: py_gt_def round64_def)

lemma py_le_not_gt: "py_le x y \<Longrightarrow> \<not> py_gt x y"
  by (simp add: py_le_def py_gt_def)

definition summary0 :: "pyfloat \<Rightarrow> int \<Rightarrow> int \<Rightarrow> BenchSummary" where
  "summary0 m np fs =
     \<lparr>BenchSummary.tool = ''laspp'', operation = ''read'', threads = 1, n = 1,
      mean_s = m, min_s = m, max_s = m, num_points = np, file_size_bytes = fs\<rparr>"

lemma summary0_sel [simp]:
  "mean_s (summary0 m np fs) = m"
  "num_points (summary0 m np fs) = np"
  "file_size_bytes (summary0 m np fs) = fs"
  by (simp_all add: summary0_def)

text \<open>
  C4. \<open>pts_per_s\<close> is \<open>num_points / mean_s\<close> and \<open>mb_per_s\<close> is
  \<open>(file_size_bytes / 1e6) / mean_s\<close> when \<open>mean_s > 0\<close>; both are \<open>0\<close> when
  \<open>mean_s \<le> 0\<close> (or \<open>mean_s\<close> is not a number) and when their numerator is \<open>0\<close>;
  neither ever raises \<open>ZeroDivisionError\<close>, whatever the fields hold.
\<close>

theorem throughput_fields:
  "(py_gt (mean_s s) (Finite 0) \<longrightarrow>
      pts_per_s s = py_truediv_int_float (num_points s) (mean_s s) \<and>
      mb_per_s s =
        (case py_truediv_int_float (file_size_bytes s) (Finite 1000000) of
           Inl e \<Rightarrow> Inl e | Inr mb \<Rightarrow> py_truediv mb (mean_s s))) \<and>
   (py_le (mean_s s) (Finite 0) \<longrightarrow> pts_per_s s = Inr (Finite 0) \<and> mb_per_s s = Inr (Finite 0)) \<and>
   (\<not> py_gt (mean_s s) (Finite 0) \<longrightarrow> pts_per_s s = Inr (Finite 0) \<and> mb_per_s s = Inr (Finite 0)) \<and>
   (num_points s = 0 \<longrightarrow> pts_per_s s = Inr (Finite 0)) \<and>
   (file_size_bytes s = 0 \<longrightarrow> mb_per_s s = Inr (Finite 0)) \<and>
   pts_per_s s \<noteq> Inl ZeroDivisionError \<and> mb_per_s s \<noteq> Inl ZeroDivisionError"
proof -
  have a: "pts_per_s s = py_truediv_int_float (num_points s) (mean_s s) \<and>
      mb_per_s s =
        (case py_truediv_int_float (file_size_bytes s) (Finite 1000000) of
           Inl e \<Rightarrow> Inl e | Inr mb \<Rightarrow> py_truediv mb (mean_s s))"
    if "py_gt (mean_s s) (Finite 0)"
    using that by (simp add: pts_per_s_def mb_per_s_def)
  have b: "pts_per_s s = Inr (Finite 0) \<and> mb_per_s s = Inr (Finite 0)"
    if "\<not> py_gt (mean_s s) (Finite 0)"
    using that by (simp add: pts_per_s_def mb_per_s_def)
  have c: "pts_per_s s = Inr (Finite 0)" if "num_points s = 0"
    using that
    by (simp add: pts_per_s_def py_truediv_int_float_def py_float_of_int_zero
        py_truediv_zero_positive)
  have mb0: "py_truediv_int_float 0 (Finite 1000000) = Inr (Finite 0)"
    by (simp add: py_truediv_int_float_def py_float_of_int_zero round64_def)
  have d: "mb_per_s s = Inr (Finite 0)" if "file_size_bytes s = 0"
    using that by (simp add: mb_per_s_def mb0 py_truediv_zero_positive)
  have e: "pts_per_s s \<noteq> Inl ZeroDivisionError"
    using py_float_of_int_not_zerodiv [of "num_points s"]
      py_truediv_positive [of "mean_s s"]
    by (auto simp: pts_per_s_def py_truediv_int_float_def split: sum.splits)
  have f: "mb_per_s s \<noteq> Inl ZeroDivisionError"
    using py_float_of_int_not_zerodiv [of "file_size_bytes s"]
      py_truediv_positive [of "mean_s s"]
    by (auto simp: mb_per_s_def py_truediv_int_float_def split: sum.splits if_splits)
  from a b c d e f py_le_not_gt [of "mean_s s" "Finite 0"] show ?thesis
    by blast
qed

theorem throughput_fields_witness:
  "py_gt (mean_s (summary0 (Finite (1 / 2)) 0 0)) (Finite 0) \<and>
   pts_per_s (summary0 (Finite (1 / 2)) 0 0) = Inr (Finite 0) \<and>
   mb_per_s (summary0 (Finite (1 / 2)) 0 0) = Inr (Finite 0) \<and>
   py_le (mean_s (summary0 (Finite (- 1)) 5 7)) (Finite 0) \<and>
   pts_per_s (summary0 (Finite (- 1)) 5 7) = Inr (Finite 0) \<and>
   mb_per_s (summary0 (Finite (- 1)) 5 7) = Inr (Finite 0) \<and>
   pts_per_s (summary0 NaN 5 7) = Inr (Finite 0)"
proof -
  have h1: "py_gt (mean_s (summary0 (Finite (1 / 2)) 0 0)) (Finite 0)"
    by (simp add: py_gt_def)
  have h2: "py_le (mean_s (summary0 (Finite (- 1)) 5 7)) (Finite 0)"
    by (simp add: py_le_def)
  have h3: "\<not> py_gt (mean_s (summary0 NaN 5 7)) (Finite 0)"
    by (simp add: py_gt_def)
  have h4: "num_points (summary0 (Finite (1 / 2)) 0 0) = 0"
    "file_size_bytes (summary0 (Finite (1 / 2)) 0 0) = 0"
    by simp_all
  from h1 h2 h3 h4 throughput_fields [of "summary0 (Finite (1 / 2)) 0 0"]
    throughput_fields [of "summary0 (Finite (- 1)) 5 7"]
    throughput_fields [of "summary0 NaN 5 7"]
  show ?thesis by blast
qed

section \<open>Evaluating float arithmetic\<close>

lemma floor_rat_numeral: "\<lfloor>(numeral a / numeral b :: rat)\<rfloor> = numeral a div numeral b"
  using floor_divide_of_int_eq [of "numeral a" "numeral b", where ?'a = rat] by simp

lemma round64_evalI:
  assumes "floor_log2 q = k" and "round_half_even (q / pow2 e) = m"
    and "0 < q" and "e = max (k - 52) (- 1074)" and "e < 971" and "r = of_int m * pow2 e"
  shows "round64 q = Finite r"
  using assms by (auto simp: round64_def Let_def)

lemma round64_zero: "round64 0 = Finite 0"
  by (simp add: round64_def)

lemma round64_minus: "round64 (- q) = py_neg (round64 q)"
  by (cases "q = 0"; cases "0 < q") (auto simp: round64_def Let_def)

lemma round64_1: "round64 1 = Finite 1"
  using round64_of_int [of 1] by simp

lemma round64_2: "round64 2 = Finite 2"
  using round64_of_int [of 2] by simp

lemma round64_3: "round64 3 = Finite 3"
  using round64_of_int [of 3] by simp

lemma round64_4: "round64 4 = Finite 4"
  using round64_of_int [of 4] by simp

text \<open>
  The float \<open>0.1\<close> is \<open>3602879701896397 / 2^55\<close>; adding it three times gives
  \<open>0.30000000000000004\<close>, and a third of that is \<open>0.10000000000000002\<close>.
\<close>

lemma round64_tenth: "round64 (1 / 10) = Finite (3602879701896397 / 36028797018963968)"
proof (rule round64_evalI [where k = "- 4" and e = "- 56" and m = "7205759403792794"])
  have b: "bitlen 10 = 4"
    by code_simp
  show "floor_log2 (1 / 10) = - 4"
    by (simp add: floor_log2_def floor_rat_numeral b pow2_def Let_def)
  show "round_half_even (1 / 10 / pow2 (- 56)) = 7205759403792794"
    by (simp add: round_half_even_def pow2_def floor_rat_numeral Let_def)
qed (simp_all add: pow2_def)

lemma round64_0_1: "round64 (3602879701896397 / 36028797018963968) = Finite (3602879701896397 / 36028797018963968)"
proof (rule round64_evalI [where k = "- 4" and e = "- 56" and m = "7205759403792794"])
  have b: "bitlen 9 = 4"
    by code_simp
  show "floor_log2 (3602879701896397 / 36028797018963968) = - 4"
    by (simp add: floor_log2_def floor_rat_numeral b pow2_def Let_def)
  show "round_half_even (3602879701896397 / 36028797018963968 / pow2 (- 56)) = 7205759403792794"
    by (simp add: round_half_even_def pow2_def floor_rat_numeral Let_def)
qed (simp_all add: pow2_def)

lemma round64_0_2: "round64 (3602879701896397 / 18014398509481984) = Finite (3602879701896397 / 18014398509481984)"
proof (rule round64_evalI [where k = "- 3" and e = "- 55" and m = "7205759403792794"])
  have b: "bitlen 4 = 3"
    by code_simp
  show "floor_log2 (3602879701896397 / 18014398509481984) = - 3"
    by (simp add: floor_log2_def floor_rat_numeral b pow2_def Let_def)
  show "round_half_even (3602879701896397 / 18014398509481984 / pow2 (- 55)) = 7205759403792794"
    by (simp add: round_half_even_def pow2_def floor_rat_numeral Let_def)
qed (simp_all add: pow2_def)

lemma round64_0_3: "round64 (10808639105689191 / 36028797018963968) = Finite (1351079888211149 / 4503599627370496)"
proof (rule round64_evalI [where k = "- 2" and e = "- 54" and m = "5404319552844596"])
  have b: "bitlen 3 = 2"
    by code_simp
  show "floor_log2 (10808639105689191 / 36028797018963968) = - 2"
    by (simp add: floor_log2_def floor_rat_numeral b pow2_def Let_def)
  show "round_half_even (10808639105689191 / 36028797018963968 / pow2 (- 54)) = 5404319552844596"
    by (simp add: round_half_even_def pow2_def floor_rat_numeral Let_def)
qed (simp_all add: pow2_def)

lemma round64_mean_0_1: "round64 (1351079888211149 / 13510798882111488) = Finite (7205759403792795 / 72057594037927936)"
proof (rule round64_evalI [where k = "- 4" and e = "- 56" and m = "7205759403792795"])
  have b: "bitlen 9 = 4"
    by code_simp
  show "floor_log2 (1351079888211149 / 13510798882111488) = - 4"
    by (simp add: floor_log2_def floor_rat_numeral b pow2_def Let_def)
  show "round_half_even (1351079888211149 / 13510798882111488 / pow2 (- 56)) = 7205759403792795"
    by (simp add: round_half_even_def pow2_def floor_rat_numeral Let_def)
qed (simp_all add: pow2_def)

section \<open>Order of floats, \<open>min\<close> and \<open>max\<close>\<close>

lemma py_lt_irrefl: "\<not> py_lt x x"
  by (cases x) auto

lemma py_lt_trans: "py_lt x y \<Longrightarrow> py_lt y z \<Longrightarrow> py_lt x z"
  by (cases x; cases y; cases z) auto

lemma py_lt_total: "x \<noteq> NaN \<Longrightarrow> y \<noteq> NaN \<Longrightarrow> py_lt x y \<or> x = y \<or> py_lt y x"
  by (cases x; cases y) auto

lemma foldl_min:
  "foldl (\<lambda>m y. if py_lt y m then y else m) t ts \<in> set (t # ts) \<and>
   (\<forall>x \<in> set (t # ts). \<not> py_lt x (foldl (\<lambda>m y. if py_lt y m then y else m) t ts))"
proof (induction ts rule: rev_induct)
  case Nil
  show ?case by (simp add: py_lt_irrefl)
next
  case (snoc y ts)
  then show ?case
    by (auto simp: py_lt_irrefl dest: py_lt_trans)
qed

lemma foldl_max:
  "foldl (\<lambda>m y. if py_gt y m then y else m) t ts \<in> set (t # ts) \<and>
   (\<forall>x \<in> set (t # ts). \<not> py_lt (foldl (\<lambda>m y. if py_gt y m then y else m) t ts) x)"
proof (induction ts rule: rev_induct)
  case Nil
  show ?case by (simp add: py_lt_irrefl)
next
  case (snoc y ts)
  then show ?case
    by (auto simp: py_lt_irrefl py_gt_def dest: py_lt_trans)
qed

lemma py_min_least:
  assumes "py_min ts = Inr m"
  shows "m \<in> set ts" and "\<And>x. x \<in> set ts \<Longrightarrow> \<not> py_lt x m"
proof -
  obtain t ts' where ts: "ts = t # ts'"
    using assms by (cases ts) auto
  from assms foldl_min [of t ts'] show "m \<in> set ts" and "\<And>x. x \<in> set ts \<Longrightarrow> \<not> py_lt x m"
    by (auto simp: ts)
qed

lemma py_max_greatest:
  assumes "py_max ts = Inr m"
  shows "m \<in> set ts" and "\<And>x. x \<in> set ts \<Longrightarrow> \<not> py_lt m x"
proof -
  obtain t ts' where ts: "ts = t # ts'"
    using assms by (cases ts) auto
  from assms foldl_max [of t ts'] show "m \<in> set ts" and "\<And>x. x \<in> set ts \<Longrightarrow> \<not> py_lt m x"
    by (auto simp: ts)
qed

lemma py_min_unique:
  assumes "py_min ts = Inr m" and "py_min ts' = Inr m'" and "set ts' = set ts" and "NaN \<notin> set ts"
  shows "m' = m"
proof -
  have "m \<in> set ts" "m' \<in> set ts"
    using py_min_least(1) [OF assms(1)] py_min_least(1) [OF assms(2)] assms(3) by simp_all
  moreover from this have "\<not> py_lt m' m" "\<not> py_lt m m'"
    using py_min_least(2) [OF assms(1)] py_min_least(2) [OF assms(2)] assms(3) by simp_all
  ultimately show ?thesis
    using py_lt_total [of m m'] assms(4) by metis
qed

lemma py_max_unique:
  assumes "py_max ts = Inr m" and "py_max ts' = Inr m'" and "set ts' = set ts" and "NaN \<notin> set ts"
  shows "m' = m"
proof -
  have "m \<in> set ts" "m' \<in> set ts"
    using py_max_greatest(1) [OF assms(1)] py_max_greatest(1) [OF assms(2)] assms(3) by simp_all
  moreover from this have "\<not> py_lt m' m" "\<not> py_lt m m'"
    using py_max_greatest(2) [OF assms(1)] py_max_greatest(2) [OF assms(2)] assms(3) by simp_all
  ultimately show ?thesis
    using py_lt_total [of m m'] assms(4) by metis
qed

section \<open>What each summary holds\<close>

definition tenth :: pyfloat where
  "tenth = Finite (3602879701896397 / 36028797018963968)"

lemma float_of_one_tenth: "round64 (1 / 10) = tenth"
  by (simp add: tenth_def round64_tenth)

text \<open>
  With the compensation, the error of \<open>0.2 + 0.1\<close> is kept and added at the end: the
  exact sum is half way between \<open>0.3\<close> and \<open>0.30000000000000004\<close>, and rounds to
  the latter.
\<close>

lemma round64_c1_0: "round64 (1801439850948199 / 18014398509481984) = Finite (1801439850948199 / 18014398509481984)"
proof (rule round64_evalI [where k = "- 4" and e = "- 56" and m = "7205759403792796"])
  have b: "bitlen 9 = 4"
    by code_simp
  show "floor_log2 (1801439850948199 / 18014398509481984) = - 4"
    by (simp add: floor_log2_def floor_rat_numeral b pow2_def Let_def)
  show "round_half_even (1801439850948199 / 18014398509481984 / pow2 (- 56)) = 7205759403792796"
    by (simp add: round_half_even_def pow2_def floor_rat_numeral Let_def)
qed (simp_all add: pow2_def)

lemma round64_c1_1: "round64 (1 / 36028797018963968) = Finite (1 / 36028797018963968)"
proof (rule round64_evalI [where k = "- 55" and e = "- 107" and m = "4503599627370496"])
  have b: "bitlen 36028797018963968 = 56"
    by code_simp
  show "floor_log2 (1 / 36028797018963968) = - 55"
    by (simp add: floor_log2_def floor_rat_numeral b pow2_def Let_def)
  show "round_half_even (1 / 36028797018963968 / pow2 (- 107)) = 4503599627370496"
    by (simp add: round_half_even_def pow2_def floor_rat_numeral Let_def)
qed (simp_all add: pow2_def)


text \<open>
  C1 (as the code has it). For a non-empty list, \<open>aggregate\<close> returns one summary per key
  \<open>(tool, operation, threads)\<close> of the input. In each, \<open>n\<close> is the number of samples
  with that key, \<open>min_s\<close> and \<open>max_s\<close> are times of the group that no other time of the
  group is smaller (larger) than, so \<open>min_s \<le> max_s\<close> when no time is a NaN, and
  \<open>mean_s\<close> is the float quotient by \<open>n\<close> of the interpreter's float \<open>sum\<close> of the
  group's times, in arrival order, whichever of the two summations the interpreter has.
  Being rounded, \<open>mean_s\<close> is not always between \<open>min_s\<close> and \<open>max_s\<close>.
\<close>

theorem aggregate_groups:
  assumes "raw \<noteq> []" and "length raw < 2 ^ 53"
  shows "\<exists>ss. aggregate v raw np fs = Inr ss \<and>
           summary_key ` set ss = key_of ` set raw \<and>
           (\<forall>s \<in> set ss.
              n s = int (length (filter (\<lambda>r. key_of r = summary_key s) raw)) \<and>
              0 < n s \<and>
              py_truediv_float_int (py_sum v (times_of (summary_key s) raw)) (n s) = Inr (mean_s s) \<and>
              min_s s \<in> set (times_of (summary_key s) raw) \<and>
              max_s s \<in> set (times_of (summary_key s) raw) \<and>
              (\<forall>t \<in> set (times_of (summary_key s) raw).
                 \<not> py_lt t (min_s s) \<and> \<not> py_lt (max_s s) t) \<and>
              (NaN \<notin> time_s ` set raw \<longrightarrow> py_le (min_s s) (max_s s)))"
proof -
  obtain ss where ss: "aggregate v raw np fs = Inr ss"
      "list_all2 (summary_of_group v np fs) (group_samples raw) ss"
    using aggregate_ok [OF assms(2)] by blast
  have "set (map summary_key ss) = set (map fst (group_samples raw))"
    by (simp only: summaries_keys [OF ss(2)])
  then have keys: "summary_key ` set ss = key_of ` set raw"
    by (simp add: group_samples_keys)
  have each: "n s = int (length (filter (\<lambda>r. key_of r = summary_key s) raw)) \<and>
      0 < n s \<and>
      py_truediv_float_int (py_sum v (times_of (summary_key s) raw)) (n s) = Inr (mean_s s) \<and>
      min_s s \<in> set (times_of (summary_key s) raw) \<and>
      max_s s \<in> set (times_of (summary_key s) raw) \<and>
      (\<forall>t \<in> set (times_of (summary_key s) raw).
         \<not> py_lt t (min_s s) \<and> \<not> py_lt (max_s s) t) \<and>
      (NaN \<notin> time_s ` set raw \<longrightarrow> py_le (min_s s) (max_s s))"
    if s: "s \<in> set ss" for s
  proof -
    let ?ts = "times_of (summary_key s) raw"
    have g: "summary_of_group v np fs (summary_key s, ?ts) s"
      by (rule summary_group(1) [OF ss(2) s])
    have "summary_key s \<in> key_of ` set raw"
      by (rule summary_group(2) [OF ss(2) s])
    then have ne: "?ts \<noteq> []"
      by (auto simp: times_of_def filter_empty_conv)
    have cnt: "n s = int (length ?ts)"
      using g by (simp add: summary_of_group_def)
    have mean: "py_truediv_float_int (py_sum v ?ts) (n s) = Inr (mean_s s)"
      using g by (simp add: summary_of_group_def)
    have lo: "py_min ?ts = Inr (min_s s)" and hi: "py_max ?ts = Inr (max_s s)"
      using g by (simp_all add: summary_of_group_def)
    have sub: "set ?ts \<subseteq> time_s ` set raw"
      by (auto simp: times_of_def)
    have le: "py_le (min_s s) (max_s s)" if "NaN \<notin> time_s ` set raw"
      using that sub py_min_least(1) [OF lo] py_max_greatest(1) [OF hi]
        py_max_greatest(2) [OF hi, of "min_s s"]
      by (auto simp: py_le_def)
    from cnt ne mean py_min_least [OF lo] py_max_greatest [OF hi] le show ?thesis
      by (simp add: times_of_def)
  qed
  from ss(1) keys each show ?thesis by blast
qed

theorem aggregate_groups_witness:
  "[sample ''laspp'' ''read'' 2 0 (Finite 1), sample ''laspp'' ''read'' 2 1 (Finite 3)] \<noteq> [] \<and>
   length [sample ''laspp'' ''read'' 2 0 (Finite 1), sample ''laspp'' ''read'' 2 1 (Finite 3)] < 2 ^ 53 \<and>
   NaN \<notin> time_s ` set [sample ''laspp'' ''read'' 2 0 (Finite 1), sample ''laspp'' ''read'' 2 1 (Finite 3)] \<and>
   (\<exists>ss. aggregate Compensated
           [sample ''laspp'' ''read'' 2 0 (Finite 1), sample ''laspp'' ''read'' 2 1 (Finite 3)] 0 0 = Inr ss \<and>
         summary_key ` set ss = {(''laspp'', ''read'', 2)})"
  using aggregate_groups
    [where raw = "[sample ''laspp'' ''read'' 2 0 (Finite 1), sample ''laspp'' ''read'' 2 1 (Finite 3)]"
       and v = Compensated and np = 0 and fs = 0]
  by (auto simp: sample_def key_of_def)

text \<open>
  Three samples of \<open>0.1\<close> seconds: their float sum is \<open>0.30000000000000004\<close> under
  either summation, and the mean \<open>0.10000000000000002\<close> is larger than \<open>max_s = 0.1\<close>.
\<close>

theorem mean_above_max_counterexample:
  "aggregate Sequential
     [sample ''laspp'' ''read'' 1 0 tenth, sample ''laspp'' ''read'' 1 1 tenth,
      sample ''laspp'' ''read'' 1 2 tenth] 0 0 =
     Inr [\<lparr>BenchSummary.tool = ''laspp'', operation = ''read'', threads = 1, n = 3,
           mean_s = Finite (7205759403792795 / 72057594037927936),
           min_s = tenth, max_s = tenth, num_points = 0, file_size_bytes = 0\<rparr>] \<and>
   aggregate Compensated
     [sample ''laspp'' ''read'' 1 0 tenth, sample ''laspp'' ''read'' 1 1 tenth,
      sample ''laspp'' ''read'' 1 2 tenth] 0 0 =
     Inr [\<lparr>BenchSummary.tool = ''laspp'', operation = ''read'', threads = 1, n = 3,
           mean_s = Finite (7205759403792795 / 72057594037927936),
           min_s = tenth, max_s = tenth, num_points = 0, file_size_bytes = 0\<rparr>] \<and>
   py_lt tenth (Finite (7205759403792795 / 72057594037927936))"
proof -
  have 1: "aggregate Sequential
     [sample ''laspp'' ''read'' 1 0 tenth, sample ''laspp'' ''read'' 1 1 tenth,
      sample ''laspp'' ''read'' 1 2 tenth] 0 0 =
     Inr [\<lparr>BenchSummary.tool = ''laspp'', operation = ''read'', threads = 1, n = 3,
           mean_s = Finite (7205759403792795 / 72057594037927936),
           min_s = tenth, max_s = tenth, num_points = 0, file_size_bytes = 0\<rparr>]"
    by (simp add: aggregate_def group_samples_def sample_def key_of_def summarise_def
        py_sum_def py_truediv_float_int_def py_float_of_int_def tenth_def py_gt_def
        round64_3 round64_0_1 round64_0_2 round64_0_3 round64_mean_0_1)
  have 2: "aggregate Compensated
     [sample ''laspp'' ''read'' 1 0 tenth, sample ''laspp'' ''read'' 1 1 tenth,
      sample ''laspp'' ''read'' 1 2 tenth] 0 0 =
     Inr [\<lparr>BenchSummary.tool = ''laspp'', operation = ''read'', threads = 1, n = 3,
           mean_s = Finite (7205759403792795 / 72057594037927936),
           min_s = tenth, max_s = tenth, num_points = 0, file_size_bytes = 0\<rparr>]"
    by (simp add: aggregate_def group_samples_def sample_def key_of_def summarise_def
        py_sum_def py_truediv_float_int_def py_float_of_int_def tenth_def py_gt_def
        py_ge_def py_le_def py_sub_def Let_def round64_zero round64_minus
        round64_3 round64_0_1 round64_0_2 round64_0_3 round64_mean_0_1
        round64_c1_0 round64_c1_1)
  have 3: "py_lt tenth (Finite (7205759403792795 / 72057594037927936))"
    by (simp add: tenth_def)
  from 1 2 3 show ?thesis
    by (intro conjI)
qed

section \<open>Permuting the samples\<close>

definition two_tenths :: pyfloat where
  "two_tenths = Finite (3602879701896397 / 18014398509481984)"

definition three_tenths :: pyfloat where
  "three_tenths = Finite (5404319552844595 / 18014398509481984)"

text \<open>
  \<open>(0.1 + 0.2) + 0.3 = 0.6000000000000001\<close> and \<open>(0.3 + 0.2) + 0.1 = 0.6\<close> in
  float arithmetic; their thirds are \<open>0.20000000000000004\<close> and
  \<open>0.19999999999999998\<close>.
\<close>

lemma round64_0_3_plus: "round64 (10808639105689191 / 18014398509481984) = Finite (1351079888211149 / 2251799813685248)"
proof (rule round64_evalI [where k = "- 1" and e = "- 53" and m = "5404319552844596"])
  have b: "bitlen 1 = 1"
    by code_simp
  show "floor_log2 (10808639105689191 / 18014398509481984) = - 1"
    by (simp add: floor_log2_def floor_rat_numeral b pow2_def Let_def)
  show "round_half_even (10808639105689191 / 18014398509481984 / pow2 (- 53)) = 5404319552844596"
    by (simp add: round_half_even_def pow2_def floor_rat_numeral Let_def)
qed (simp_all add: pow2_def)

lemma round64_mean_up: "round64 (1351079888211149 / 6755399441055744) = Finite (7205759403792795 / 36028797018963968)"
proof (rule round64_evalI [where k = "- 3" and e = "- 55" and m = "7205759403792795"])
  have b: "bitlen 4 = 3"
    by code_simp
  show "floor_log2 (1351079888211149 / 6755399441055744) = - 3"
    by (simp add: floor_log2_def floor_rat_numeral b pow2_def Let_def)
  show "round_half_even (1351079888211149 / 6755399441055744 / pow2 (- 55)) = 7205759403792795"
    by (simp add: round_half_even_def pow2_def floor_rat_numeral Let_def)
qed (simp_all add: pow2_def)

lemma round64_three_tenths: "round64 (5404319552844595 / 18014398509481984) = Finite (5404319552844595 / 18014398509481984)"
proof (rule round64_evalI [where k = "- 2" and e = "- 54" and m = "5404319552844595"])
  have b: "bitlen 3 = 2"
    by code_simp
  show "floor_log2 (5404319552844595 / 18014398509481984) = - 2"
    by (simp add: floor_log2_def floor_rat_numeral b pow2_def Let_def)
  show "round_half_even (5404319552844595 / 18014398509481984 / pow2 (- 54)) = 5404319552844595"
    by (simp add: round_half_even_def pow2_def floor_rat_numeral Let_def)
qed (simp_all add: pow2_def)

lemma round64_half: "round64 (1 / 2) = Finite (1 / 2)"
proof (rule round64_evalI [where k = "- 1" and e = "- 53" and m = "4503599627370496"])
  have b: "bitlen 2 = 2"
    by code_simp
  show "floor_log2 (1 / 2) = - 1"
    by (simp add: floor_log2_def floor_rat_numeral b pow2_def Let_def)
  show "round_half_even (1 / 2 / pow2 (- 53)) = 4503599627370496"
    by (simp add: round_half_even_def pow2_def floor_rat_numeral Let_def)
qed (simp_all add: pow2_def)

lemma round64_0_6: "round64 (21617278211378381 / 36028797018963968) = Finite (5404319552844595 / 9007199254740992)"
proof (rule round64_evalI [where k = "- 1" and e = "- 53" and m = "5404319552844595"])
  have b: "bitlen 1 = 1"
    by code_simp
  show "floor_log2 (21617278211378381 / 36028797018963968) = - 1"
    by (simp add: floor_log2_def floor_rat_numeral b pow2_def Let_def)
  show "round_half_even (21617278211378381 / 36028797018963968 / pow2 (- 53)) = 5404319552844595"
    by (simp add: round_half_even_def pow2_def floor_rat_numeral Let_def)
qed (simp_all add: pow2_def)

lemma round64_mean_down: "round64 (5404319552844595 / 27021597764222976) = Finite (7205759403792793 / 36028797018963968)"
proof (rule round64_evalI [where k = "- 3" and e = "- 55" and m = "7205759403792793"])
  have b: "bitlen 5 = 3"
    by code_simp
  show "floor_log2 (5404319552844595 / 27021597764222976) = - 3"
    by (simp add: floor_log2_def floor_rat_numeral b pow2_def Let_def)
  show "round_half_even (5404319552844595 / 27021597764222976 / pow2 (- 55)) = 7205759403792793"
    by (simp add: round_half_even_def pow2_def floor_rat_numeral Let_def)
qed (simp_all add: pow2_def)

lemma summary_of_group_unique:
  fixes s s' :: BenchSummary
  shows "summary_of_group v np fs g s \<Longrightarrow> summary_of_group v np fs g s' \<Longrightarrow> s' = s"
  by (cases s; cases s'; cases g) (auto simp: summary_of_group_def summary_key_def)

lemma times_of_permuted:
  assumes "mset raw' = mset raw"
  shows "length (times_of k raw') = length (times_of k raw)"
    and "set (times_of k raw') = set (times_of k raw)"
proof -
  have "mset (filter (\<lambda>r. key_of r = k) raw') = mset (filter (\<lambda>r. key_of r = k) raw)"
    by (simp only: mset_filter assms)
  then have "mset (map time_s (filter (\<lambda>r. key_of r = k) raw')) =
      mset (map time_s (filter (\<lambda>r. key_of r = k) raw))"
    by (simp only: mset_map)
  then have m: "mset (times_of k raw') = mset (times_of k raw)"
    by (simp only: times_of_def)
  show "length (times_of k raw') = length (times_of k raw)"
    by (rule mset_eq_length [OF m])
  show "set (times_of k raw') = set (times_of k raw)"
    by (rule mset_eq_setD [OF m])
qed

text \<open>
  C3 (as the code has it). Aggregating a permutation of the samples gives the same keys
  and, for each key, the same \<open>n\<close>; the same \<open>min_s\<close> and \<open>max_s\<close> when no time is a
  NaN; and the very same summary, \<open>mean_s\<close> included, when the samples of that key
  arrive in the same relative order. When that holds for every key the two results are
  equal as sets.
\<close>

theorem aggregate_permutation:
  assumes "mset raw' = mset raw" and "length raw < 2 ^ 53"
  shows "\<exists>ss ss'. aggregate v raw np fs = Inr ss \<and> aggregate v raw' np fs = Inr ss' \<and>
           summary_key ` set ss' = summary_key ` set ss \<and>
           (\<forall>s \<in> set ss. \<forall>s' \<in> set ss'. summary_key s' = summary_key s \<longrightarrow>
              n s' = n s \<and>
              (NaN \<notin> time_s ` set raw \<longrightarrow> min_s s' = min_s s \<and> max_s s' = max_s s) \<and>
              (times_of (summary_key s) raw' = times_of (summary_key s) raw \<longrightarrow> s' = s)) \<and>
           ((\<forall>k. times_of k raw' = times_of k raw) \<longrightarrow> set ss' = set ss)"
proof -
  have "length raw' = length raw"
    by (rule mset_eq_length [OF assms(1)])
  then have len: "length raw' < 2 ^ 53"
    using assms(2) by simp
  have sets: "set raw' = set raw"
    using assms(1) by (rule mset_eq_setD)
  obtain ss where ss: "aggregate v raw np fs = Inr ss"
      "list_all2 (summary_of_group v np fs) (group_samples raw) ss"
    using aggregate_ok [OF assms(2)] by blast
  obtain ss' where ss': "aggregate v raw' np fs = Inr ss'"
      "list_all2 (summary_of_group v np fs) (group_samples raw') ss'"
    using aggregate_ok [OF len] by blast
  have "set (map summary_key ss) = set (map fst (group_samples raw))"
    and "set (map summary_key ss') = set (map fst (group_samples raw'))"
    by (simp_all only: summaries_keys [OF ss(2)] summaries_keys [OF ss'(2)])
  then have keys: "summary_key ` set ss' = summary_key ` set ss"
    by (simp add: group_samples_keys sets)
  have pair: "n s' = n s \<and>
      (NaN \<notin> time_s ` set raw \<longrightarrow> min_s s' = min_s s \<and> max_s s' = max_s s) \<and>
      (times_of (summary_key s) raw' = times_of (summary_key s) raw \<longrightarrow> s' = s)"
    if s: "s \<in> set ss" and s': "s' \<in> set ss'" and k: "summary_key s' = summary_key s"
    for s s'
  proof -
    let ?k = "summary_key s"
    have g: "summary_of_group v np fs (?k, times_of ?k raw) s"
      by (rule summary_group(1) [OF ss(2) s])
    have g': "summary_of_group v np fs (?k, times_of ?k raw') s'"
      using summary_group(1) [OF ss'(2) s'] by (simp only: k)
    have cnt: "n s' = n s"
      using g g' times_of_permuted(1) [OF assms(1), of ?k]
      by (simp add: summary_of_group_def)
    have ext: "min_s s' = min_s s \<and> max_s s' = max_s s" if nan: "NaN \<notin> time_s ` set raw"
    proof -
      have nn: "NaN \<notin> set (times_of ?k raw)"
        using nan by (auto simp: times_of_def)
      have st: "set (times_of ?k raw') = set (times_of ?k raw)"
        by (rule times_of_permuted(2) [OF assms(1)])
      have lo: "py_min (times_of ?k raw) = Inr (min_s s)"
        and lo': "py_min (times_of ?k raw') = Inr (min_s s')"
        and hi: "py_max (times_of ?k raw) = Inr (max_s s)"
        and hi': "py_max (times_of ?k raw') = Inr (max_s s')"
        using g g' by (simp_all add: summary_of_group_def)
      have "min_s s' = min_s s"
        by (rule py_min_unique [OF lo lo' st nn])
      moreover have "max_s s' = max_s s"
        by (rule py_max_unique [OF hi hi' st nn])
      ultimately show ?thesis ..
    qed
    have same: "s' = s" if eq: "times_of ?k raw' = times_of ?k raw"
      by (rule summary_of_group_unique [OF g g' [unfolded eq]])
    from cnt ext same show ?thesis by blast
  qed
  have all: "set ss' = set ss" if eq: "\<forall>k. times_of k raw' = times_of k raw"
  proof (intro set_eqI iffI)
    fix x assume x: "x \<in> set ss'"
    then have "summary_key x \<in> summary_key ` set ss"
      using keys by blast
    then obtain s where s: "s \<in> set ss" "summary_key x = summary_key s"
      by blast
    from pair [OF s(1) x s(2)] eq have "x = s" by blast
    with s(1) show "x \<in> set ss" by simp
  next
    fix x assume x: "x \<in> set ss"
    then have "summary_key x \<in> summary_key ` set ss'"
      using keys by blast
    then obtain s' where s': "s' \<in> set ss'" "summary_key s' = summary_key x"
      by force
    from pair [OF x s'(1) s'(2)] eq have "s' = x" by blast
    with s'(1) show "x \<in> set ss'" by simp
  qed
  show ?thesis
  proof (intro exI conjI)
    show "aggregate v raw np fs = Inr ss" by (rule ss(1))
    show "aggregate v raw' np fs = Inr ss'" by (rule ss'(1))
    show "summary_key ` set ss' = summary_key ` set ss" by (rule keys)
    show "\<forall>s \<in> set ss. \<forall>s' \<in> set ss'. summary_key s' = summary_key s \<longrightarrow>
              n s' = n s \<and>
              (NaN \<notin> time_s ` set raw \<longrightarrow> min_s s' = min_s s \<and> max_s s' = max_s s) \<and>
              (times_of (summary_key s) raw' = times_of (summary_key s) raw \<longrightarrow> s' = s)"
      using pair by blast
    show "(\<forall>k. times_of k raw' = times_of k raw) \<longrightarrow> set ss' = set ss"
      using all by blast
  qed
qed

lemma sample_sel:
  "key_of (sample tn opn th it t) = (tn, opn, th)"
  "time_s (sample tn opn th it t) = t"
  by (simp_all add: sample_def key_of_def)

lemma times_of_simps:
  "times_of k [] = []"
  "times_of k (r # rs) = (if key_of r = k then time_s r # times_of k rs else times_of k rs)"
  by (simp_all add: times_of_def)

lemma image_eq_by_key:
  assumes "key ` B = key ` A"
    and "\<And>a b. a \<in> A \<Longrightarrow> b \<in> B \<Longrightarrow> key b = key a \<Longrightarrow> f b = f a"
  shows "f ` B = f ` A"
proof (intro set_eqI iffI)
  fix y assume "y \<in> f ` B"
  then obtain b where b: "b \<in> B" "y = f b" by blast
  then have "key b \<in> key ` A" using assms(1) by blast
  then obtain a where a: "a \<in> A" "key b = key a" by blast
  from assms(2) [OF a(1) b(1) a(2)] b(2) a(1) show "y \<in> f ` A" by simp
next
  fix y assume "y \<in> f ` A"
  then obtain a where a: "a \<in> A" "y = f a" by blast
  then have "key a \<in> key ` B" using assms(1) by blast
  then obtain b where b: "b \<in> B" "key b = key a" by force
  have "f b = f a" by (rule assms(2) [OF a(1) b(1) b(2)])
  with a(2) have "y = f b" by simp
  then show "y \<in> f ` B" using b(1) by (rule image_eqI)
qed

theorem aggregate_permutation_witness:
  "mset [sample ''pdal'' ''read'' 0 0 (Finite 2), sample ''laspp'' ''read'' 1 0 (Finite 1),
         sample ''laspp'' ''read'' 1 1 (Finite 3)] =
     mset [sample ''laspp'' ''read'' 1 0 (Finite 1), sample ''pdal'' ''read'' 0 0 (Finite 2),
           sample ''laspp'' ''read'' 1 1 (Finite 3)] \<and>
   length [sample ''laspp'' ''read'' 1 0 (Finite 1), sample ''pdal'' ''read'' 0 0 (Finite 2),
           sample ''laspp'' ''read'' 1 1 (Finite 3)] < 2 ^ 53 \<and>
   (\<forall>k. times_of k [sample ''pdal'' ''read'' 0 0 (Finite 2), sample ''laspp'' ''read'' 1 0 (Finite 1),
                      sample ''laspp'' ''read'' 1 1 (Finite 3)] =
        times_of k [sample ''laspp'' ''read'' 1 0 (Finite 1), sample ''pdal'' ''read'' 0 0 (Finite 2),
                    sample ''laspp'' ''read'' 1 1 (Finite 3)]) \<and>
   (\<exists>ss ss'.
      aggregate Compensated
        [sample ''laspp'' ''read'' 1 0 (Finite 1), sample ''pdal'' ''read'' 0 0 (Finite 2),
         sample ''laspp'' ''read'' 1 1 (Finite 3)] 0 0 = Inr ss \<and>
      aggregate Compensated
        [sample ''pdal'' ''read'' 0 0 (Finite 2), sample ''laspp'' ''read'' 1 0 (Finite 1),
         sample ''laspp'' ''read'' 1 1 (Finite 3)] 0 0 = Inr ss' \<and>
      set ss' = set ss) \<and>
   mset [sample ''laspp'' ''read'' 1 1 (Finite 3), sample ''pdal'' ''read'' 0 0 (Finite 2),
         sample ''laspp'' ''read'' 1 0 (Finite 1)] =
     mset [sample ''laspp'' ''read'' 1 0 (Finite 1), sample ''pdal'' ''read'' 0 0 (Finite 2),
           sample ''laspp'' ''read'' 1 1 (Finite 3)] \<and>
   NaN \<notin> time_s ` set [sample ''laspp'' ''read'' 1 0 (Finite 1), sample ''pdal'' ''read'' 0 0 (Finite 2),
                           sample ''laspp'' ''read'' 1 1 (Finite 3)] \<and>
   times_of (''laspp'', ''read'', 1)
       [sample ''laspp'' ''read'' 1 1 (Finite 3), sample ''pdal'' ''read'' 0 0 (Finite 2),
        sample ''laspp'' ''read'' 1 0 (Finite 1)] \<noteq>
     times_of (''laspp'', ''read'', 1)
       [sample ''laspp'' ''read'' 1 0 (Finite 1), sample ''pdal'' ''read'' 0 0 (Finite 2),
        sample ''laspp'' ''read'' 1 1 (Finite 3)] \<and>
   (\<exists>ss ss'.
      aggregate Sequential
        [sample ''laspp'' ''read'' 1 0 (Finite 1), sample ''pdal'' ''read'' 0 0 (Finite 2),
         sample ''laspp'' ''read'' 1 1 (Finite 3)] 0 0 = Inr ss \<and>
      aggregate Sequential
        [sample ''laspp'' ''read'' 1 1 (Finite 3), sample ''pdal'' ''read'' 0 0 (Finite 2),
         sample ''laspp'' ''read'' 1 0 (Finite 1)] 0 0 = Inr ss' \<and>
      n ` set ss' = n ` set ss \<and> min_s ` set ss' = min_s ` set ss \<and>
      max_s ` set ss' = max_s ` set ss)"
proof -
  let ?a = "sample ''laspp'' ''read'' 1 0 (Finite 1)"
  let ?b = "sample ''pdal'' ''read'' 0 0 (Finite 2)"
  let ?c = "sample ''laspp'' ''read'' 1 1 (Finite 3)"
  have p: "mset [?b, ?a, ?c] = mset [?a, ?b, ?c]"
    by simp
  have l: "length [?a, ?b, ?c] < 2 ^ 53"
    by simp
  have t: "\<forall>k. times_of k [?b, ?a, ?c] = times_of k [?a, ?b, ?c]"
    by (simp add: times_of_simps sample_sel)
  obtain ss ss' where a: "aggregate Compensated [?a, ?b, ?c] 0 0 = Inr ss"
      "aggregate Compensated [?b, ?a, ?c] 0 0 = Inr ss'"
    and b: "(\<forall>k. times_of k [?b, ?a, ?c] = times_of k [?a, ?b, ?c]) \<longrightarrow> set ss' = set ss"
    using aggregate_permutation [OF p l, where v = Compensated and np = 0 and fs = 0] by blast
  from b t have "set ss' = set ss" by (rule mp)
  with a have first: "\<exists>ss ss'. aggregate Compensated [?a, ?b, ?c] 0 0 = Inr ss \<and>
      aggregate Compensated [?b, ?a, ?c] 0 0 = Inr ss' \<and> set ss' = set ss"
    by blast
  have p2: "mset [?c, ?b, ?a] = mset [?a, ?b, ?c]"
    by simp
  have nn: "NaN \<notin> time_s ` set [?a, ?b, ?c]"
    by (simp add: sample_sel)
  have d: "times_of (''laspp'', ''read'', 1) [?c, ?b, ?a] \<noteq> times_of (''laspp'', ''read'', 1) [?a, ?b, ?c]"
    by (simp add: times_of_simps sample_sel)
  obtain us us' where a2: "aggregate Sequential [?a, ?b, ?c] 0 0 = Inr us"
      "aggregate Sequential [?c, ?b, ?a] 0 0 = Inr us'"
    and keys: "summary_key ` set us' = summary_key ` set us"
    and pair: "\<forall>s \<in> set us. \<forall>s' \<in> set us'. summary_key s' = summary_key s \<longrightarrow>
              n s' = n s \<and>
              (NaN \<notin> time_s ` set [?a, ?b, ?c] \<longrightarrow> min_s s' = min_s s \<and> max_s s' = max_s s) \<and>
              (times_of (summary_key s) [?c, ?b, ?a] = times_of (summary_key s) [?a, ?b, ?c] \<longrightarrow> s' = s)"
    using aggregate_permutation [OF p2 l, where v = Sequential and np = 0 and fs = 0] by blast
  have same: "n s' = n s \<and> min_s s' = min_s s \<and> max_s s' = max_s s"
    if "s \<in> set us" "s' \<in> set us'" "summary_key s' = summary_key s" for s s'
    using pair that nn by blast
  have "n ` set us' = n ` set us"
    by (rule image_eq_by_key [OF keys]) (simp add: same)
  moreover have "min_s ` set us' = min_s ` set us"
    by (rule image_eq_by_key [OF keys]) (simp add: same)
  moreover have "max_s ` set us' = max_s ` set us"
    by (rule image_eq_by_key [OF keys]) (simp add: same)
  ultimately have second: "\<exists>ss ss'. aggregate Sequential [?a, ?b, ?c] 0 0 = Inr ss \<and>
      aggregate Sequential [?c, ?b, ?a] 0 0 = Inr ss' \<and>
      n ` set ss' = n ` set ss \<and> min_s ` set ss' = min_s ` set ss \<and>
      max_s ` set ss' = max_s ` set ss"
    using a2 by blast
  from p l t first p2 nn d second show ?thesis
    by (intro conjI)
qed

text \<open>
  Four times of one key, all positive: \<open>134217728.00000006\<close>, \<open>1.490116119384766e-08\<close>,
  \<open>4.470348358154297e-08\<close> and \<open>1.4901161193847656e-08\<close> seconds. The compensation of
  the interpreter's \<open>sum\<close> is itself a rounded sum of rounding errors, and it differs
  when the last two times are exchanged.
\<close>

definition time_a :: pyfloat where
  "time_a = Finite (2251799813685249 / 16777216)"

definition time_b :: pyfloat where
  "time_b = Finite (4503599627370497 / 302231454903657293676544)"

definition time_c :: pyfloat where
  "time_c = Finite (3 / 67108864)"

definition time_d :: pyfloat where
  "time_d = Finite (1 / 67108864)"

lemma round64_c3_0: "round64 (2251799813685249 / 16777216) = Finite (2251799813685249 / 16777216)"
proof (rule round64_evalI [where k = "27" and e = "- 25" and m = "4503599627370498"])
  have b: "bitlen 134217728 = 28"
    by code_simp
  show "floor_log2 (2251799813685249 / 16777216) = 27"
    by (simp add: floor_log2_def floor_rat_numeral b pow2_def Let_def)
  show "round_half_even (2251799813685249 / 16777216 / pow2 (- 25)) = 4503599627370498"
    by (simp add: round_half_even_def pow2_def floor_rat_numeral Let_def)
qed (simp_all add: pow2_def)

lemma round64_c3_1: "round64 (40564819207303363365892639424513 / 302231454903657293676544) = Finite (4503599627370499 / 33554432)"
proof (rule round64_evalI [where k = "27" and e = "- 25" and m = "4503599627370499"])
  have b: "bitlen 134217728 = 28"
    by code_simp
  show "floor_log2 (40564819207303363365892639424513 / 302231454903657293676544) = 27"
    by (simp add: floor_log2_def floor_rat_numeral b pow2_def Let_def)
  show "round_half_even (40564819207303363365892639424513 / 302231454903657293676544 / pow2 (- 25)) = 4503599627370499"
    by (simp add: round_half_even_def pow2_def floor_rat_numeral Let_def)
qed (simp_all add: pow2_def)

lemma round64_c3_2: "round64 (1 / 33554432) = Finite (1 / 33554432)"
proof (rule round64_evalI [where k = "- 25" and e = "- 77" and m = "4503599627370496"])
  have b: "bitlen 33554432 = 26"
    by code_simp
  show "floor_log2 (1 / 33554432) = - 25"
    by (simp add: floor_log2_def floor_rat_numeral b pow2_def Let_def)
  show "round_half_even (1 / 33554432 / pow2 (- 77)) = 4503599627370496"
    by (simp add: round_half_even_def pow2_def floor_rat_numeral Let_def)
qed (simp_all add: pow2_def)

lemma round64_c3_3: "round64 (4503599627370495 / 302231454903657293676544) = Finite (4503599627370495 / 302231454903657293676544)"
proof (rule round64_evalI [where k = "- 27" and e = "- 79" and m = "9007199254740990"])
  have b: "bitlen 67108864 = 27"
    by code_simp
  show "floor_log2 (4503599627370495 / 302231454903657293676544) = - 27"
    by (simp add: floor_log2_def floor_rat_numeral b pow2_def Let_def)
  show "round_half_even (4503599627370495 / 302231454903657293676544 / pow2 (- 79)) = 9007199254740990"
    by (simp add: round_half_even_def pow2_def floor_rat_numeral Let_def)
qed (simp_all add: pow2_def)

lemma round64_c3_4: "round64 (9007199254741001 / 67108864) = Finite (1125899906842625 / 8388608)"
proof (rule round64_evalI [where k = "27" and e = "- 25" and m = "4503599627370500"])
  have b: "bitlen 134217728 = 28"
    by code_simp
  show "floor_log2 (9007199254741001 / 67108864) = 27"
    by (simp add: floor_log2_def floor_rat_numeral b pow2_def Let_def)
  show "round_half_even (9007199254741001 / 67108864 / pow2 (- 25)) = 4503599627370500"
    by (simp add: round_half_even_def pow2_def floor_rat_numeral Let_def)
qed (simp_all add: pow2_def)

lemma round64_c3_5: "round64 (1 / 67108864) = Finite (1 / 67108864)"
proof (rule round64_evalI [where k = "- 26" and e = "- 78" and m = "4503599627370496"])
  have b: "bitlen 67108864 = 27"
    by code_simp
  show "floor_log2 (1 / 67108864) = - 26"
    by (simp add: floor_log2_def floor_rat_numeral b pow2_def Let_def)
  show "round_half_even (1 / 67108864 / pow2 (- 78)) = 4503599627370496"
    by (simp add: round_half_even_def pow2_def floor_rat_numeral Let_def)
qed (simp_all add: pow2_def)

lemma round64_c3_6: "round64 (1 / 302231454903657293676544) = Finite (1 / 302231454903657293676544)"
proof (rule round64_evalI [where k = "- 78" and e = "- 130" and m = "4503599627370496"])
  have b: "bitlen 302231454903657293676544 = 79"
    by code_simp
  show "floor_log2 (1 / 302231454903657293676544) = - 78"
    by (simp add: floor_log2_def floor_rat_numeral b pow2_def Let_def)
  show "round_half_even (1 / 302231454903657293676544 / pow2 (- 130)) = 4503599627370496"
    by (simp add: round_half_even_def pow2_def floor_rat_numeral Let_def)
qed (simp_all add: pow2_def)

lemma round64_c3_7: "round64 (4503599627370497 / 302231454903657293676544) = Finite (4503599627370497 / 302231454903657293676544)"
proof (rule round64_evalI [where k = "- 26" and e = "- 78" and m = "4503599627370497"])
  have b: "bitlen 67108863 = 26"
    by code_simp
  show "floor_log2 (4503599627370497 / 302231454903657293676544) = - 26"
    by (simp add: floor_log2_def floor_rat_numeral b pow2_def Let_def)
  show "round_half_even (4503599627370497 / 302231454903657293676544 / pow2 (- 78)) = 4503599627370497"
    by (simp add: round_half_even_def pow2_def floor_rat_numeral Let_def)
qed (simp_all add: pow2_def)

lemma round64_c3_8: "round64 (40564819207303381380291148906497 / 302231454903657293676544) = Finite (4503599627370501 / 33554432)"
proof (rule round64_evalI [where k = "27" and e = "- 25" and m = "4503599627370501"])
  have b: "bitlen 134217728 = 28"
    by code_simp
  show "floor_log2 (40564819207303381380291148906497 / 302231454903657293676544) = 27"
    by (simp add: floor_log2_def floor_rat_numeral b pow2_def Let_def)
  show "round_half_even (40564819207303381380291148906497 / 302231454903657293676544 / pow2 (- 25)) = 4503599627370501"
    by (simp add: round_half_even_def pow2_def floor_rat_numeral Let_def)
qed (simp_all add: pow2_def)

lemma round64_c3_9: "round64 (4503599627370501 / 134217728) = Finite (4503599627370501 / 134217728)"
proof (rule round64_evalI [where k = "25" and e = "- 27" and m = "4503599627370501"])
  have b: "bitlen 33554432 = 26"
    by code_simp
  show "floor_log2 (4503599627370501 / 134217728) = 25"
    by (simp add: floor_log2_def floor_rat_numeral b pow2_def Let_def)
  show "round_half_even (4503599627370501 / 134217728 / pow2 (- 27)) = 4503599627370501"
    by (simp add: round_half_even_def pow2_def floor_rat_numeral Let_def)
qed (simp_all add: pow2_def)

lemma round64_c3_10: "round64 (9007199254740999 / 67108864) = Finite (1125899906842625 / 8388608)"
proof (rule round64_evalI [where k = "27" and e = "- 25" and m = "4503599627370500"])
  have b: "bitlen 134217728 = 28"
    by code_simp
  show "floor_log2 (9007199254740999 / 67108864) = 27"
    by (simp add: floor_log2_def floor_rat_numeral b pow2_def Let_def)
  show "round_half_even (9007199254740999 / 67108864 / pow2 (- 25)) = 4503599627370500"
    by (simp add: round_half_even_def pow2_def floor_rat_numeral Let_def)
qed (simp_all add: pow2_def)

lemma round64_c3_11: "round64 (9007199254740991 / 302231454903657293676544) = Finite (9007199254740991 / 302231454903657293676544)"
proof (rule round64_evalI [where k = "- 26" and e = "- 78" and m = "9007199254740991"])
  have b: "bitlen 33554432 = 26"
    by code_simp
  show "floor_log2 (9007199254740991 / 302231454903657293676544) = - 26"
    by (simp add: floor_log2_def floor_rat_numeral b pow2_def Let_def)
  show "round_half_even (9007199254740991 / 302231454903657293676544 / pow2 (- 78)) = 9007199254740991"
    by (simp add: round_half_even_def pow2_def floor_rat_numeral Let_def)
qed (simp_all add: pow2_def)

lemma round64_c3_12: "round64 (9007199254741003 / 67108864) = Finite (2251799813685251 / 16777216)"
proof (rule round64_evalI [where k = "27" and e = "- 25" and m = "4503599627370502"])
  have b: "bitlen 134217728 = 28"
    by code_simp
  show "floor_log2 (9007199254741003 / 67108864) = 27"
    by (simp add: floor_log2_def floor_rat_numeral b pow2_def Let_def)
  show "round_half_even (9007199254741003 / 67108864 / pow2 (- 25)) = 4503599627370502"
    by (simp add: round_half_even_def pow2_def floor_rat_numeral Let_def)
qed (simp_all add: pow2_def)

lemma round64_c3_13: "round64 (1 / 16777216) = Finite (1 / 16777216)"
proof (rule round64_evalI [where k = "- 24" and e = "- 76" and m = "4503599627370496"])
  have b: "bitlen 16777216 = 25"
    by code_simp
  show "floor_log2 (1 / 16777216) = - 24"
    by (simp add: floor_log2_def floor_rat_numeral b pow2_def Let_def)
  show "round_half_even (1 / 16777216 / pow2 (- 76)) = 4503599627370496"
    by (simp add: round_half_even_def pow2_def floor_rat_numeral Let_def)
qed (simp_all add: pow2_def)

lemma round64_c3_14: "round64 (13510798882111487 / 302231454903657293676544) = Finite (3 / 67108864)"
proof (rule round64_evalI [where k = "- 25" and e = "- 77" and m = "6755399441055744"])
  have b: "bitlen 22369621 = 25"
    by code_simp
  show "floor_log2 (13510798882111487 / 302231454903657293676544) = - 25"
    by (simp add: floor_log2_def floor_rat_numeral b pow2_def Let_def)
  show "round_half_even (13510798882111487 / 302231454903657293676544 / pow2 (- 77)) = 6755399441055744"
    by (simp add: round_half_even_def pow2_def floor_rat_numeral Let_def)
qed (simp_all add: pow2_def)

lemma round64_c3_15: "round64 (1125899906842625 / 33554432) = Finite (1125899906842625 / 33554432)"
proof (rule round64_evalI [where k = "25" and e = "- 27" and m = "4503599627370500"])
  have b: "bitlen 33554432 = 26"
    by code_simp
  show "floor_log2 (1125899906842625 / 33554432) = 25"
    by (simp add: floor_log2_def floor_rat_numeral b pow2_def Let_def)
  show "round_half_even (1125899906842625 / 33554432 / pow2 (- 27)) = 4503599627370500"
    by (simp add: round_half_even_def pow2_def floor_rat_numeral Let_def)
qed (simp_all add: pow2_def)

text \<open>
  Two inputs on which a permutation changes \<open>mean_s\<close>, one for each summation. With
  the times \<open>0.1\<close>, \<open>0.2\<close>, \<open>0.3\<close>, the sum added from left to right is
  \<open>0.6000000000000001\<close> in one order and \<open>0.6\<close> in the other. With the four times
  above, the compensated sum is \<open>134217728.00000015\<close> in one order and
  \<open>134217728.00000012\<close> in the other.
\<close>

theorem aggregate_permutation_counterexample:
  "mset [sample ''laspp'' ''read'' 1 2 three_tenths, sample ''laspp'' ''read'' 1 1 two_tenths,
         sample ''laspp'' ''read'' 1 0 tenth] =
     mset [sample ''laspp'' ''read'' 1 0 tenth, sample ''laspp'' ''read'' 1 1 two_tenths,
           sample ''laspp'' ''read'' 1 2 three_tenths] \<and>
   aggregate Sequential
     [sample ''laspp'' ''read'' 1 0 tenth, sample ''laspp'' ''read'' 1 1 two_tenths,
      sample ''laspp'' ''read'' 1 2 three_tenths] 0 0 =
     Inr [\<lparr>BenchSummary.tool = ''laspp'', operation = ''read'', threads = 1, n = 3,
           mean_s = Finite (7205759403792795 / 36028797018963968),
           min_s = tenth, max_s = three_tenths, num_points = 0, file_size_bytes = 0\<rparr>] \<and>
   aggregate Sequential
     [sample ''laspp'' ''read'' 1 2 three_tenths, sample ''laspp'' ''read'' 1 1 two_tenths,
      sample ''laspp'' ''read'' 1 0 tenth] 0 0 =
     Inr [\<lparr>BenchSummary.tool = ''laspp'', operation = ''read'', threads = 1, n = 3,
           mean_s = Finite (7205759403792793 / 36028797018963968),
           min_s = tenth, max_s = three_tenths, num_points = 0, file_size_bytes = 0\<rparr>] \<and>
   mset [sample ''laspp'' ''read'' 1 0 time_a, sample ''laspp'' ''read'' 1 1 time_b,
         sample ''laspp'' ''read'' 1 3 time_d, sample ''laspp'' ''read'' 1 2 time_c] =
     mset [sample ''laspp'' ''read'' 1 0 time_a, sample ''laspp'' ''read'' 1 1 time_b,
           sample ''laspp'' ''read'' 1 2 time_c, sample ''laspp'' ''read'' 1 3 time_d] \<and>
   aggregate Compensated
     [sample ''laspp'' ''read'' 1 0 time_a, sample ''laspp'' ''read'' 1 1 time_b,
      sample ''laspp'' ''read'' 1 2 time_c, sample ''laspp'' ''read'' 1 3 time_d] 0 0 =
     Inr [\<lparr>BenchSummary.tool = ''laspp'', operation = ''read'', threads = 1, n = 4,
           mean_s = Finite (4503599627370501 / 134217728),
           min_s = time_d, max_s = time_a, num_points = 0, file_size_bytes = 0\<rparr>] \<and>
   aggregate Compensated
     [sample ''laspp'' ''read'' 1 0 time_a, sample ''laspp'' ''read'' 1 1 time_b,
      sample ''laspp'' ''read'' 1 3 time_d, sample ''laspp'' ''read'' 1 2 time_c] 0 0 =
     Inr [\<lparr>BenchSummary.tool = ''laspp'', operation = ''read'', threads = 1, n = 4,
           mean_s = Finite (1125899906842625 / 33554432),
           min_s = time_d, max_s = time_a, num_points = 0, file_size_bytes = 0\<rparr>]"
proof -
  have 3: "aggregate Sequential
     [sample ''laspp'' ''read'' 1 0 tenth, sample ''laspp'' ''read'' 1 1 two_tenths,
      sample ''laspp'' ''read'' 1 2 three_tenths] 0 0 =
     Inr [\<lparr>BenchSummary.tool = ''laspp'', operation = ''read'', threads = 1, n = 3,
           mean_s = Finite (7205759403792795 / 36028797018963968),
           min_s = tenth, max_s = three_tenths, num_points = 0, file_size_bytes = 0\<rparr>]"
    by (simp add: aggregate_def group_samples_def sample_def key_of_def summarise_def
        py_sum_def py_truediv_float_int_def py_float_of_int_def py_gt_def
        tenth_def two_tenths_def three_tenths_def
        round64_3 round64_0_1 round64_0_3 round64_0_3_plus round64_mean_up)
  have 4: "aggregate Sequential
     [sample ''laspp'' ''read'' 1 2 three_tenths, sample ''laspp'' ''read'' 1 1 two_tenths,
      sample ''laspp'' ''read'' 1 0 tenth] 0 0 =
     Inr [\<lparr>BenchSummary.tool = ''laspp'', operation = ''read'', threads = 1, n = 3,
           mean_s = Finite (7205759403792793 / 36028797018963968),
           min_s = tenth, max_s = three_tenths, num_points = 0, file_size_bytes = 0\<rparr>]"
    by (simp add: aggregate_def group_samples_def sample_def key_of_def summarise_def
        py_sum_def py_truediv_float_int_def py_float_of_int_def py_gt_def
        tenth_def two_tenths_def three_tenths_def
        round64_3 round64_three_tenths round64_half round64_0_6 round64_mean_down)
  have 6: "mset [sample ''laspp'' ''read'' 1 2 three_tenths, sample ''laspp'' ''read'' 1 1 two_tenths,
         sample ''laspp'' ''read'' 1 0 tenth] =
     mset [sample ''laspp'' ''read'' 1 0 tenth, sample ''laspp'' ''read'' 1 1 two_tenths,
           sample ''laspp'' ''read'' 1 2 three_tenths]"
    by simp
  have 7: "mset [sample ''laspp'' ''read'' 1 0 time_a, sample ''laspp'' ''read'' 1 1 time_b,
         sample ''laspp'' ''read'' 1 3 time_d, sample ''laspp'' ''read'' 1 2 time_c] =
     mset [sample ''laspp'' ''read'' 1 0 time_a, sample ''laspp'' ''read'' 1 1 time_b,
           sample ''laspp'' ''read'' 1 2 time_c, sample ''laspp'' ''read'' 1 3 time_d]"
    by simp
  have 8: "aggregate Compensated
     [sample ''laspp'' ''read'' 1 0 time_a, sample ''laspp'' ''read'' 1 1 time_b,
      sample ''laspp'' ''read'' 1 2 time_c, sample ''laspp'' ''read'' 1 3 time_d] 0 0 =
     Inr [\<lparr>BenchSummary.tool = ''laspp'', operation = ''read'', threads = 1, n = 4,
           mean_s = Finite (4503599627370501 / 134217728),
           min_s = time_d, max_s = time_a, num_points = 0, file_size_bytes = 0\<rparr>]"
    by (simp add: aggregate_def group_samples_def sample_def key_of_def summarise_def
        py_sum_def py_truediv_float_int_def py_float_of_int_def py_gt_def
        py_ge_def py_le_def py_sub_def Let_def round64_zero round64_minus round64_4
        time_a_def time_b_def time_c_def time_d_def
        round64_c3_0 round64_c3_1 round64_c3_2 round64_c3_3 round64_c3_4 round64_c3_5
        round64_c3_6 round64_c3_7 round64_c3_8 round64_c3_9 round64_c3_10 round64_c3_11
        round64_c3_12 round64_c3_13 round64_c3_14 round64_c3_15)
  have 9: "aggregate Compensated
     [sample ''laspp'' ''read'' 1 0 time_a, sample ''laspp'' ''read'' 1 1 time_b,
      sample ''laspp'' ''read'' 1 3 time_d, sample ''laspp'' ''read'' 1 2 time_c] 0 0 =
     Inr [\<lparr>BenchSummary.tool = ''laspp'', operation = ''read'', threads = 1, n = 4,
           mean_s = Finite (1125899906842625 / 33554432),
           min_s = time_d, max_s = time_a, num_points = 0, file_size_bytes = 0\<rparr>]"
    by (simp add: aggregate_def group_samples_def sample_def key_of_def summarise_def
        py_sum_def py_truediv_float_int_def py_float_of_int_def py_gt_def
        py_ge_def py_le_def py_sub_def Let_def round64_zero round64_minus round64_4
        time_a_def time_b_def time_c_def time_d_def
        round64_c3_0 round64_c3_1 round64_c3_2 round64_c3_3 round64_c3_4 round64_c3_5
        round64_c3_6 round64_c3_7 round64_c3_8 round64_c3_9 round64_c3_10 round64_c3_11
        round64_c3_12 round64_c3_13 round64_c3_14 round64_c3_15)
  from 6 3 4 7 8 9 show ?thesis
    by (intro conjI)
qed

section \<open>Strings\<close>

text \<open>
  Strings are sequences of characters with code points below 256; the text the harness
  handles (numbers, tool names, output lines of the child) is ASCII. \<open>s.strip()\<close>
  removes the leading and trailing characters for which \<open>str.isspace\<close> holds,
  \<open>s.split(c)\<close> cuts at every occurrence of the character \<open>c\<close>.
\<close>

definition is_space :: "char \<Rightarrow> bool" where
  "is_space c =
     (c \<in> set [CHR 0x09, CHR 0x0A, CHR 0x0B, CHR 0x0C, CHR 0x0D,
                CHR 0x1C, CHR 0x1D, CHR 0x1E, CHR 0x1F, CHR 0x20, CHR 0x85, CHR 0xA0])"

definition py_strip :: "string \<Rightarrow> string" where
  "py_strip s = rev (dropWhile is_space (rev (dropWhile is_space s)))"

fun py_split :: "char \<Rightarrow> string \<Rightarrow> string list" where
  "py_split sep [] = [[]]"
| "py_split sep (c # cs) =
     (if c = sep then [] # py_split sep cs
      else (case py_split sep cs of [] \<Rightarrow> [[c]] | p # ps \<Rightarrow> (c # p) # ps))"

definition digit_val :: "char \<Rightarrow> nat option" where
  "digit_val c =
     (let k = (of_char c :: nat) in if 48 \<le> k \<and> k \<le> 57 then Some (k - 48) else None)"

text \<open>
  A run of decimal digits in which single underscores may separate digits, as
  \<open>int\<close> and \<open>float\<close> accept it; \<open>None\<close> when the text is not such a run.
\<close>

fun digitpart :: "nat \<Rightarrow> string \<Rightarrow> nat option" where
  "digitpart acc [] = None"
| "digitpart acc (c # cs) =
     (case digit_val c of
        None \<Rightarrow> None
      | Some d \<Rightarrow>
         (case cs of
            [] \<Rightarrow> Some (10 * acc + d)
          | c' # cs' \<Rightarrow>
             if c' = CHR ''_'' then digitpart (10 * acc + d) cs'
             else digitpart (10 * acc + d) cs))"

definition signed_digits :: "string \<Rightarrow> int option" where
  "signed_digits s =
     (case s of
        [] \<Rightarrow> None
      | c # cs \<Rightarrow>
         if c = CHR ''-'' then map_option (\<lambda>v. - int v) (digitpart 0 cs)
         else if c = CHR ''+'' then map_option int (digitpart 0 cs)
         else map_option int (digitpart 0 s))"

text \<open>
  \<open>int(s)\<close> and \<open>float(s)\<close> skip fewer characters around the literal than
  \<open>strip\<close> removes: the separators \<open>0x1C\<close> to \<open>0x1F\<close> make them raise.
\<close>

definition is_numeric_space :: "char \<Rightarrow> bool" where
  "is_numeric_space c =
     (c \<in> set [CHR 0x09, CHR 0x0A, CHR 0x0B, CHR 0x0C, CHR 0x0D, CHR 0x20, CHR 0x85, CHR 0xA0])"

definition strip_numeric :: "string \<Rightarrow> string" where
  "strip_numeric s = rev (dropWhile is_numeric_space (rev (dropWhile is_numeric_space s)))"

text \<open>
  \<open>int(s)\<close> on a decimal literal: \<open>ValueError\<close> on anything else, and on a literal of
  more than 4300 digits (the interpreter's limit on the conversion of decimal strings).
\<close>

definition max_str_digits :: nat where
  "max_str_digits = 4300"

definition py_int :: "string \<Rightarrow> py_error + int" where
  "py_int s =
     (let t = strip_numeric s
      in if max_str_digits < length (filter (\<lambda>c. digit_val c \<noteq> None) t) then Inl ValueError
         else (case signed_digits t of None \<Rightarrow> Inl ValueError | Some v \<Rightarrow> Inr v))"

definition lower :: "char \<Rightarrow> char" where
  "lower c =
     (let k = (of_char c :: nat) in if 65 \<le> k \<and> k \<le> 90 then char_of (k + 32) else c)"

definition cut_at :: "(char \<Rightarrow> bool) \<Rightarrow> string \<Rightarrow> string \<times> string option" where
  "cut_at P s =
     (takeWhile (\<lambda>c. \<not> P c) s,
      case dropWhile (\<lambda>c. \<not> P c) s of [] \<Rightarrow> None | _ # r \<Rightarrow> Some r)"

text \<open>
  The mantissa \<open>digits\<close>, \<open>digits.\<close>, \<open>.digits\<close> or \<open>digits.digits\<close> of a decimal
  float literal, as the rational it denotes.
\<close>

definition mantissa :: "string \<Rightarrow> rat option" where
  "mantissa s =
     (case cut_at (\<lambda>c. c = CHR ''.'') s of
        (ip, None) \<Rightarrow> map_option of_nat (digitpart 0 ip)
      | (ip, Some fp) \<Rightarrow>
         (if fp = [] then map_option of_nat (digitpart 0 ip)
          else (case digitpart 0 fp of
                  None \<Rightarrow> None
                | Some f \<Rightarrow>
                   (let scale = 10 ^ length (filter (\<lambda>c. c \<noteq> CHR ''_'') fp)
                    in if ip = [] then Some (of_nat f / scale)
                       else map_option (\<lambda>i. of_nat i + of_nat f / scale) (digitpart 0 ip)))))"

definition pow10 :: "int \<Rightarrow> rat" where
  "pow10 e = (if 0 \<le> e then 10 ^ nat e else 1 / 10 ^ nat (- e))"

definition decimal :: "string \<Rightarrow> rat option" where
  "decimal s =
     (case cut_at (\<lambda>c. c = CHR ''e'' \<or> c = CHR ''E'') s of
        (m, None) \<Rightarrow> mantissa m
      | (m, Some ex) \<Rightarrow>
         (case (mantissa m, signed_digits ex) of
            (Some q, Some e) \<Rightarrow> Some (q * pow10 e)
          | _ \<Rightarrow> None))"

text \<open>
  \<open>float(s)\<close>: an optional sign, then \<open>inf\<close>, \<open>infinity\<close> or \<open>nan\<close> in any case, or
  a decimal literal, which is rounded to the nearest float.
\<close>

definition py_float :: "string \<Rightarrow> py_error + pyfloat" where
  "py_float s =
     (let t = strip_numeric s;
          neg = (t \<noteq> [] \<and> hd t = CHR ''-'');
          u = (if t \<noteq> [] \<and> (hd t = CHR ''-'' \<or> hd t = CHR ''+'') then tl t else t);
          l = map lower u
      in if l = ''inf'' \<or> l = ''infinity'' then Inr (if neg then NInf else PInf)
         else if l = ''nan'' then Inr NaN
         else (case decimal u of
                 None \<Rightarrow> Inl ValueError
               | Some q \<Rightarrow> Inr (round64 (if neg then - q else q))))"

text \<open>
  \<open>str(i)\<close> of an integer: its decimal digits. (Every integer the harness prints was
  read by \<open>int\<close> or counts the turns of a loop, and has fewer digits than the limit.)
\<close>

fun digits_of :: "nat \<Rightarrow> string" where
  "digits_of k = (if k < 10 then [char_of (48 + k)] else digits_of (k div 10) @ [char_of (48 + k mod 10)])"

declare digits_of.simps [simp del]

definition py_str_int :: "int \<Rightarrow> string" where
  "py_str_int i = (if i < 0 then CHR ''-'' # digits_of (nat (- i)) else digits_of (nat i))"

section \<open>The world outside the harness\<close>

text \<open>
  What a driver does to its surroundings is threaded through a record. The outcomes of
  the codec calls are not computed by the harness: a workload call either raises or returns
  after some seconds (\<open>op_results\<close>, indexed by the number of calls made so far, in the
  harness's process or in a child running the harness's script), and it may write text on
  the standard output of the process it runs in (\<open>op_output\<close>; a codec normally writes
  nothing). A child process that is not the harness's own script (the native benchmark, or
  the interpreter given a script that the file name has broken) ends with an exit code and
  its two output streams (\<open>proc_results\<close>, indexed by the number of processes spawned so
  far). \<open>float_repr\<close> is the interpreter's \<open>repr\<close> of a float and \<open>traceback\<close> what it
  prints on the standard error stream for an exception that nothing catches.
  \<open>spawned\<close> keeps, for every child, the command and the environment passed to it
  (\<open>None\<close>: the parent's). \<open>environ_writes\<close> counts the assignments and deletions made
  on \<open>os.environ\<close> of the harness's own process.
\<close>

datatype LazBackend = LazrsParallel | Lazrs | Laszip

record completed_process =
  returncode :: int
  stdout :: string
  stderr :: string

datatype command =
    LaspyReadScript int string int int
  | CppBenchmark "string list"

datatype message =
    Warning string py_error
  | Printed string

record world =
  environ :: "string \<Rightarrow> string option"
  environ_writes :: nat
  op_results :: "nat \<Rightarrow> py_error + pyfloat"
  op_output :: "nat \<Rightarrow> string"
  op_calls :: nat
  float_repr :: "pyfloat \<Rightarrow> string"
  traceback :: "py_error \<Rightarrow> string"
  proc_results :: "nat \<Rightarrow> completed_process"
  spawned :: "(command \<times> (string \<Rightarrow> string option) option) list"
  tmp_made :: nat
  tmp_live :: "nat list"
  stderr_log :: "message list"
  stdout_log :: "message list"
  written :: "(string \<times> BenchSummary list \<times> BenchResult list) list"
  plots :: nat

definition call_op :: "world \<Rightarrow> (py_error + pyfloat) \<times> world" where
  "call_op w = (op_results w (op_calls w), w\<lparr>op_calls := Suc (op_calls w)\<rparr>)"

definition exited :: "int \<Rightarrow> string \<Rightarrow> string \<Rightarrow> completed_process" where
  "exited rc out err = \<lparr>returncode = rc, stdout = out, stderr = err\<rparr>"

text \<open>
  The script that \<open>benchmark_laspy_read\<close> hands to a fresh interpreter: after its
  imports, \<open>warmup\<close> reads, then \<open>iterations\<close> timed reads, each followed by
  \<open>print(f"{it},{elapsed}", flush=True)\<close>. Its standard output is what the reads wrote
  and those lines. An exception of a read is caught by nothing: the interpreter prints the
  traceback and exits with code 1.
\<close>

fun script_warmup :: "nat \<Rightarrow> string \<Rightarrow> world \<Rightarrow> (py_error option \<times> string) \<times> world" where
  "script_warmup 0 out w = ((None, out), w)"
| "script_warmup (Suc k) out w =
     (case call_op w of
        (Inl e, w') \<Rightarrow> ((Some e, out @ op_output w (op_calls w)), w')
      | (Inr t, w') \<Rightarrow> script_warmup k (out @ op_output w (op_calls w)) w')"

fun script_timed :: "nat \<Rightarrow> int \<Rightarrow> string \<Rightarrow> world \<Rightarrow> (py_error option \<times> string) \<times> world" where
  "script_timed 0 it out w = ((None, out), w)"
| "script_timed (Suc k) it out w =
     (case call_op w of
        (Inl e, w') \<Rightarrow> ((Some e, out @ op_output w (op_calls w)), w')
      | (Inr t, w') \<Rightarrow>
          script_timed k (it + 1)
            (out @ op_output w (op_calls w) @ py_str_int it @ '','' @ float_repr w t @ [CHR 0x0A]) w')"

definition laspy_read_script :: "int \<Rightarrow> int \<Rightarrow> world \<Rightarrow> completed_process \<times> world" where
  "laspy_read_script warmup iterations w =
     (case script_warmup (nat warmup) [] w of
        ((Some e, out), w') \<Rightarrow> (exited 1 out (traceback w e), w')
      | ((None, out), w') \<Rightarrow>
          (case script_timed (nat iterations) 0 out w' of
             ((Some e, out'), w'') \<Rightarrow> (exited 1 out' (traceback w e), w'')
           | ((None, out'), w'') \<Rightarrow> (exited 0 out' [], w'')))"

text \<open>
  The script is made by pasting the file name between the quotes of \<open>r'...'\<close>. It is
  the program above when the name holds no quote, backslash, line break or null
  character; with another name it is some other text, and what the interpreter does with
  it is not the harness's.
\<close>

definition plain_path :: "string \<Rightarrow> bool" where
  "plain_path file =
     (set file \<inter> {CHR 0x27, CHR 0x5C, CHR 0x0A, CHR 0x0D, CHR 0x00} = {})"

definition run_process ::
  "command \<Rightarrow> (string \<Rightarrow> string option) option \<Rightarrow> world \<Rightarrow> completed_process \<times> world" where
  "run_process cmd env w =
     (let w0 = w\<lparr>spawned := spawned w @ [(cmd, env)]\<rparr>
      in (case cmd of
            LaspyReadScript num_threads file warmup iterations \<Rightarrow>
              if plain_path file then laspy_read_script warmup iterations w0
              else (proc_results w (length (spawned w)), w0)
          | CppBenchmark argv \<Rightarrow> (proc_results w (length (spawned w)), w0)))"

definition RAYON_NUM_THREADS :: string where
  "RAYON_NUM_THREADS = ''RAYON_NUM_THREADS''"

definition environ_set :: "string \<Rightarrow> string \<Rightarrow> world \<Rightarrow> world" where
  "environ_set k v w =
     w\<lparr>environ := (environ w)(k \<mapsto> v), environ_writes := Suc (environ_writes w)\<rparr>"

definition environ_pop :: "string \<Rightarrow> world \<Rightarrow> world" where
  "environ_pop k w =
     w\<lparr>environ := (environ w)(k := None), environ_writes := Suc (environ_writes w)\<rparr>"

text \<open>The \<open>finally\<close> block of the in-process laspy drivers.\<close>

definition restore_rayon :: "string option \<Rightarrow> world \<Rightarrow> world" where
  "restore_rayon old w =
     (case old of
        None \<Rightarrow> environ_pop RAYON_NUM_THREADS w
      | Some v \<Rightarrow> environ_set RAYON_NUM_THREADS v w)"

definition make_tmp :: "world \<Rightarrow> nat \<times> world" where
  "make_tmp w = (tmp_made w, w\<lparr>tmp_made := Suc (tmp_made w), tmp_live := tmp_made w # tmp_live w\<rparr>)"

definition unlink :: "nat \<Rightarrow> world \<Rightarrow> world" where
  "unlink t w = w\<lparr>tmp_live := removeAll t (tmp_live w)\<rparr>"

section \<open>Drivers\<close>

text \<open>
  \<open>for _ in range(warmup): f()\<close> and
  \<open>for it in range(iterations): t = timed(f); results.append(BenchResult(..., it, t))\<close>.
  An exception of \<open>f\<close> leaves the loop and the driver.
\<close>

fun warmup_loop :: "nat \<Rightarrow> world \<Rightarrow> (py_error + unit) \<times> world" where
  "warmup_loop 0 w = (Inr (), w)"
| "warmup_loop (Suc k) w =
     (case call_op w of
        (Inl e, w') \<Rightarrow> (Inl e, w')
      | (Inr t, w') \<Rightarrow> warmup_loop k w')"

fun timed_loop ::
  "(int \<Rightarrow> pyfloat \<Rightarrow> BenchResult) \<Rightarrow> nat \<Rightarrow> int \<Rightarrow> BenchResult list \<Rightarrow> world \<Rightarrow>
   (py_error + BenchResult list) \<times> world" where
  "timed_loop mk 0 it results w = (Inr results, w)"
| "timed_loop mk (Suc k) it results w =
     (case call_op w of
        (Inl e, w') \<Rightarrow> (Inl e, w')
      | (Inr t, w') \<Rightarrow> timed_loop mk k (it + 1) (results @ [mk it t]) w')"

definition run_loops ::
  "(int \<Rightarrow> pyfloat \<Rightarrow> BenchResult) \<Rightarrow> int \<Rightarrow> int \<Rightarrow> world \<Rightarrow>
   (py_error + BenchResult list) \<times> world" where
  "run_loops mk warmup iterations w =
     (case warmup_loop (nat warmup) w of
        (Inl e, w') \<Rightarrow> (Inl e, w')
      | (Inr u, w') \<Rightarrow> timed_loop mk (nat iterations) 0 [] w')"

text \<open>
  The parent's reading of the child's standard output: a line with a comma must be
  \<open>iteration,seconds\<close>; a line without one is passed over.
\<close>

definition parse_line :: "string \<Rightarrow> py_error + int \<times> pyfloat" where
  "parse_line line =
     (case py_split CHR '','' line of
        [it_str, time_str] \<Rightarrow>
          (case py_int it_str of
             Inl e \<Rightarrow> Inl e
           | Inr it \<Rightarrow> (case py_float time_str of Inl e \<Rightarrow> Inl e | Inr t \<Rightarrow> Inr (it, t)))
      | _ \<Rightarrow> Inl ValueError)"

fun parse_lines :: "string \<Rightarrow> int \<Rightarrow> string list \<Rightarrow> py_error + BenchResult list" where
  "parse_lines backend_name num_threads [] = Inr []"
| "parse_lines backend_name num_threads (line # ls) =
     (if CHR '','' \<in> set line then
        (case parse_line line of
           Inl e \<Rightarrow> Inl e
         | Inr (it, t) \<Rightarrow>
            (case parse_lines backend_name num_threads ls of
               Inl e \<Rightarrow> Inl e
             | Inr rs \<Rightarrow> Inr (sample backend_name ''read'' num_threads it t # rs)))
      else parse_lines backend_name num_threads ls)"

definition laspy_read_subprocess ::
  "string \<Rightarrow> string \<Rightarrow> int \<Rightarrow> int \<Rightarrow> int \<Rightarrow> world \<Rightarrow> (py_error + BenchResult list) \<times> world" where
  "laspy_read_subprocess file backend_name warmup iterations num_threads w =
     (let env = (environ w)(RAYON_NUM_THREADS \<mapsto> py_str_int num_threads);
          (proc, w') = run_process (LaspyReadScript num_threads file warmup iterations) (Some env) w
      in if returncode proc \<noteq> 0
         then (Inl (RuntimeError (''laspy subprocess failed: '' @ stderr proc)), w')
         else (parse_lines backend_name num_threads
                 (py_split CHR 0x0A (py_strip (stdout proc))), w'))"

definition laspy_read_inprocess ::
  "string \<Rightarrow> LazBackend \<Rightarrow> string \<Rightarrow> int \<Rightarrow> int \<Rightarrow> int option \<Rightarrow> world \<Rightarrow>
   (py_error + BenchResult list) \<times> world" where
  "laspy_read_inprocess file backend backend_name warmup iterations num_threads w =
     (let old_rayon_threads = environ w RAYON_NUM_THREADS;
          w1 = (case num_threads of
                  Some nt \<Rightarrow>
                    if backend = LazrsParallel then environ_set RAYON_NUM_THREADS (py_str_int nt) w
                    else w
                | None \<Rightarrow> w);
          (r, w2) = run_loops
                      (sample backend_name ''read'' (case num_threads of None \<Rightarrow> 0 | Some nt \<Rightarrow> nt))
                      warmup iterations w1
      in (r, restore_rayon old_rayon_threads w2))"

definition benchmark_laspy_read ::
  "string \<Rightarrow> LazBackend \<Rightarrow> string \<Rightarrow> int \<Rightarrow> int \<Rightarrow> int option \<Rightarrow> world \<Rightarrow>
   (py_error + BenchResult list) \<times> world" where
  "benchmark_laspy_read file backend backend_name warmup iterations num_threads w =
     (case num_threads of
        Some nt \<Rightarrow>
          if backend = LazrsParallel
          then laspy_read_subprocess file backend_name warmup iterations nt w
          else laspy_read_inprocess file backend backend_name warmup iterations num_threads w
      | None \<Rightarrow> laspy_read_inprocess file backend backend_name warmup iterations num_threads w)"

text \<open>
  \<open>benchmark_laspy_write\<close> reads the points once (a codec call that is not timed), makes
  a temporary file, and sets the variable in its own process around the two loops.
\<close>

definition benchmark_laspy_write ::
  "string \<Rightarrow> LazBackend \<Rightarrow> string \<Rightarrow> int \<Rightarrow> int \<Rightarrow> int \<Rightarrow> int option \<Rightarrow> world \<Rightarrow>
   (py_error + BenchResult list) \<times> world" where
  "benchmark_laspy_write file backend backend_name warmup iterations chunk_size num_threads w =
     (case call_op w of
        (Inl e, w0) \<Rightarrow> (Inl e, w0)
      | (Inr points, w0) \<Rightarrow>
         (let (tmp_path, w1) = make_tmp w0;
              old_rayon_threads = environ w1 RAYON_NUM_THREADS;
              w2 = (case num_threads of
                      Some nt \<Rightarrow> environ_set RAYON_NUM_THREADS (py_str_int nt) w1
                    | None \<Rightarrow> w1);
              (r, w3) = run_loops
                          (sample backend_name ''write'' (case num_threads of None \<Rightarrow> 0 | Some nt \<Rightarrow> nt))
                          warmup iterations w2
          in (r, unlink tmp_path (restore_rayon old_rayon_threads w3))))"

text \<open>
  \<open>benchmark_lazrs_read\<close> first tries the read once: on \<open>AttributeError\<close> it tries the
  fallback, and on any other failure of either it returns no samples.
\<close>

definition benchmark_lazrs_read ::
  "bool \<Rightarrow> string \<Rightarrow> int \<Rightarrow> int \<Rightarrow> world \<Rightarrow> (py_error + BenchResult list) \<times> world" where
  "benchmark_lazrs_read has_lazrs file warmup iterations w =
     (if \<not> has_lazrs then (Inr [], w)
      else (case call_op w of
              (Inl e, w1) \<Rightarrow>
                (if e = AttributeError
                 then (case call_op w1 of
                         (Inl e', w2) \<Rightarrow> (Inr [], w2)
                       | (Inr t, w2) \<Rightarrow> run_loops (sample ''lazrs'' ''read'' 0) warmup iterations w2)
                 else (Inr [], w1))
            | (Inr t, w1) \<Rightarrow> run_loops (sample ''lazrs'' ''read'' 0) warmup iterations w1))"

definition benchmark_pdal ::
  "string \<Rightarrow> bool \<Rightarrow> string \<Rightarrow> int \<Rightarrow> int \<Rightarrow> world \<Rightarrow> (py_error + BenchResult list) \<times> world" where
  "benchmark_pdal opn has_pdal file warmup iterations w =
     (if \<not> has_pdal then (Inr [], w)
      else (let (out_path, w1) = make_tmp w;
                (r, w2) = run_loops (sample ''pdal'' opn 0) warmup iterations w1
            in (r, unlink out_path w2)))"

definition benchmark_pdal_read ::
  "bool \<Rightarrow> string \<Rightarrow> int \<Rightarrow> int \<Rightarrow> world \<Rightarrow> (py_error + BenchResult list) \<times> world" where
  "benchmark_pdal_read = benchmark_pdal ''read''"

definition benchmark_pdal_write ::
  "bool \<Rightarrow> string \<Rightarrow> int \<Rightarrow> int \<Rightarrow> world \<Rightarrow> (py_error + BenchResult list) \<times> world" where
  "benchmark_pdal_write = benchmark_pdal ''write''"

section \<open>The two loops\<close>

definition elapsed :: "world \<Rightarrow> nat \<Rightarrow> pyfloat" where
  "elapsed w k = (case op_results w k of Inl e \<Rightarrow> NaN | Inr t \<Rightarrow> t)"

definition succeed :: "world \<Rightarrow> nat \<Rightarrow> nat \<Rightarrow> bool" where
  "succeed w c k = (\<forall>j<k. \<exists>t. op_results w (c + j) = Inr t)"

definition never_fails :: "world \<Rightarrow> bool" where
  "never_fails w = (\<forall>k. \<exists>t. op_results w k = Inr t)"

definition fails_at :: "world \<Rightarrow> nat \<Rightarrow> nat \<Rightarrow> py_error \<Rightarrow> bool" where
  "fails_at w c i e = (succeed w c i \<and> op_results w (c + i) = Inl e)"


lemma succeed_Suc:
  "succeed w c (Suc k) \<longleftrightarrow> (\<exists>t. op_results w c = Inr t) \<and> succeed w (Suc c) k"
proof
  assume a: "succeed w c (Suc k)"
  have "\<exists>t. op_results w c = Inr t"
    using a [unfolded succeed_def, rule_format, of 0] by simp
  moreover have "succeed w (Suc c) k"
    unfolding succeed_def
  proof (intro allI impI)
    fix j assume "j < k"
    then show "\<exists>t. op_results w (Suc c + j) = Inr t"
      using a [unfolded succeed_def, rule_format, of "Suc j"] by simp
  qed
  ultimately show "(\<exists>t. op_results w c = Inr t) \<and> succeed w (Suc c) k" ..
next
  assume a: "(\<exists>t. op_results w c = Inr t) \<and> succeed w (Suc c) k"
  show "succeed w c (Suc k)"
    unfolding succeed_def
  proof (intro allI impI)
    fix j assume j: "j < Suc k"
    show "\<exists>t. op_results w (c + j) = Inr t"
    proof (cases j)
      case 0
      with a show ?thesis by simp
    next
      case (Suc j')
      with j a [unfolded succeed_def] show ?thesis by simp
    qed
  qed
qed


lemma succeed_frame [simp]: "succeed (w\<lparr>op_calls := c'\<rparr>) c k = succeed w c k"
  by (simp add: succeed_def)

lemma elapsed_frame [simp]: "elapsed (w\<lparr>op_calls := c'\<rparr>) k = elapsed w k"
  by (simp add: elapsed_def)


lemma warmup_loop_fail:
  "fails_at w (op_calls w) i e \<Longrightarrow> i < k \<Longrightarrow>
   warmup_loop k w = (Inl e, w\<lparr>op_calls := op_calls w + Suc i\<rparr>)"
proof (induction k arbitrary: w i)
  case 0
  then show ?case by simp
next
  case (Suc k)
  show ?case
  proof (cases i)
    case 0
    with Suc.prems show ?thesis
      by (simp add: fails_at_def call_op_def)
  next
    case (Suc i')
    from Suc.prems(1) obtain t where t: "op_results w (op_calls w) = Inr t"
      and rest: "fails_at w (Suc (op_calls w)) i' e"
      by (auto simp: fails_at_def Suc succeed_Suc)
    have "fails_at (w\<lparr>op_calls := Suc (op_calls w)\<rparr>) (op_calls (w\<lparr>op_calls := Suc (op_calls w)\<rparr>)) i' e"
      using rest by (simp add: fails_at_def)
    from Suc.IH [OF this] Suc.prems(2) show ?thesis
      by (simp add: call_op_def t Suc)
  qed
qed



lemma run_loops_warmup_fail:
  assumes "fails_at w (op_calls w) i e" and "i < nat warmup"
  shows "run_loops mk warmup iterations w = (Inl e, w\<lparr>op_calls := op_calls w + Suc i\<rparr>)"
  by (simp add: run_loops_def warmup_loop_fail [OF assms])

lemma warmup_loop_frame: "\<exists>c. snd (warmup_loop k w) = w\<lparr>op_calls := c\<rparr>"
proof (induction k arbitrary: w)
  case 0
  show ?case by (simp, rule exI [of _ "op_calls w"], simp)
next
  case (Suc k)
  show ?case
  proof (cases "op_results w (op_calls w)")
    case (Inl e)
    then show ?thesis by (simp add: call_op_def) (rule exI, rule refl)
  next
    case (Inr t)
    with Suc [of "w\<lparr>op_calls := Suc (op_calls w)\<rparr>"] show ?thesis
      by (simp add: call_op_def)
  qed
qed

lemma timed_loop_frame: "\<exists>c. snd (timed_loop mk k it results w) = w\<lparr>op_calls := c\<rparr>"
proof (induction k arbitrary: w it results)
  case 0
  show ?case by (simp, rule exI [of _ "op_calls w"], simp)
next
  case (Suc k)
  show ?case
  proof (cases "op_results w (op_calls w)")
    case (Inl e)
    then show ?thesis by (simp add: call_op_def) (rule exI, rule refl)
  next
    case (Inr t)
    with Suc [where w = "w\<lparr>op_calls := Suc (op_calls w)\<rparr>"] show ?thesis
      by (simp add: call_op_def)
  qed
qed

lemma run_loops_frame: "\<exists>c. snd (run_loops mk warmup iterations w) = w\<lparr>op_calls := c\<rparr>"
proof (cases "warmup_loop (nat warmup) w")
  case (Pair r w1)
  obtain c1 where c1: "w1 = w\<lparr>op_calls := c1\<rparr>"
    using warmup_loop_frame [of "nat warmup" w] Pair by auto
  show ?thesis
  proof (cases r)
    case (Inl e)
    with Pair c1 show ?thesis by (auto simp: run_loops_def)
  next
    case (Inr u)
    obtain c2 where "snd (timed_loop mk (nat iterations) 0 [] w1) = w1\<lparr>op_calls := c2\<rparr>"
      using timed_loop_frame by blast
    with Pair Inr c1 show ?thesis by (auto simp: run_loops_def)
  qed
qed

section \<open>The child's script and the parent's reading of it\<close>

text \<open>
  The script runs the same two loops as the in-process drivers: it ends as they do, with
  exit code 1 where they raise, and it leaves the same world.
\<close>

lemma script_warmup_loop:
  "fst (fst (script_warmup k out w)) = (case fst (warmup_loop k w) of Inl e \<Rightarrow> Some e | Inr u \<Rightarrow> None) \<and>
   snd (script_warmup k out w) = snd (warmup_loop k w)"
proof (induction k arbitrary: out w)
  case 0
  show ?case by simp
next
  case (Suc k)
  show ?case
  proof (cases "op_results w (op_calls w)")
    case (Inl e)
    then show ?thesis by (simp add: call_op_def)
  next
    case (Inr t)
    with Suc [of "out @ op_output w (op_calls w)" "w\<lparr>op_calls := Suc (op_calls w)\<rparr>"]
    show ?thesis by (simp add: call_op_def)
  qed
qed

lemma script_timed_loop:
  "fst (fst (script_timed k it out w)) =
     (case fst (timed_loop mk k it rs w) of Inl e \<Rightarrow> Some e | Inr u \<Rightarrow> None) \<and>
   snd (script_timed k it out w) = snd (timed_loop mk k it rs w)"
proof (induction k arbitrary: it out rs w)
  case 0
  show ?case by simp
next
  case (Suc k)
  show ?case
  proof (cases "op_results w (op_calls w)")
    case (Inl e)
    then show ?thesis by (simp add: call_op_def)
  next
    case (Inr t)
    with Suc [where w = "w\<lparr>op_calls := Suc (op_calls w)\<rparr>" and it = "it + 1"
        and rs = "rs @ [mk it t]"
        and out = "out @ op_output w (op_calls w) @ py_str_int it @ '','' @ float_repr w t @ [CHR 0x0A]"]
    show ?thesis by (simp add: call_op_def)
  qed
qed

lemma laspy_read_script_run_loops:
  "\<exists>out. laspy_read_script warmup iterations w =
      (case fst (run_loops mk warmup iterations w) of
         Inl e \<Rightarrow> exited 1 out (traceback w e)
       | Inr rs \<Rightarrow> exited 0 out [],
       snd (run_loops mk warmup iterations w))"
proof -
  obtain p1 w1 where a: "script_warmup (nat warmup) [] w = (p1, w1)"
    by (cases "script_warmup (nat warmup) [] w") auto
  obtain x1 o1 where p1: "p1 = (x1, o1)"
    by (cases p1)
  obtain r1 v1 where b: "warmup_loop (nat warmup) w = (r1, v1)"
    by (cases "warmup_loop (nat warmup) w") auto
  have x1: "x1 = (case r1 of Inl e \<Rightarrow> Some e | Inr u \<Rightarrow> None)" and w1: "w1 = v1"
    using script_warmup_loop [of "nat warmup" "[]" w] by (simp_all add: a b p1)
  show ?thesis
  proof (cases r1)
    case (Inl e)
    then show ?thesis
      by (intro exI [of _ o1]) (simp add: laspy_read_script_def run_loops_def a b p1 x1 w1)
  next
    case (Inr u)
    obtain p2 w2 where c: "script_timed (nat iterations) 0 o1 v1 = (p2, w2)"
      by (cases "script_timed (nat iterations) 0 o1 v1") auto
    obtain x2 o2 where p2: "p2 = (x2, o2)"
      by (cases p2)
    obtain r2 v2 where d: "timed_loop mk (nat iterations) 0 [] v1 = (r2, v2)"
      by (cases "timed_loop mk (nat iterations) 0 [] v1") auto
    have x2: "x2 = (case r2 of Inl e \<Rightarrow> Some e | Inr u \<Rightarrow> None)" and w2: "w2 = v2"
      using script_timed_loop [of "nat iterations" 0 o1 v1 mk "[]"] by (simp_all add: c d p2)
    show ?thesis
      by (intro exI [of _ o2], cases r2)
         (simp_all add: laspy_read_script_def run_loops_def a b p1 x1 w1 Inr c d p2 x2 w2)
  qed
qed

lemma laspy_read_script_frame:
  "\<exists>c. snd (laspy_read_script warmup iterations w) = w\<lparr>op_calls := c\<rparr>"
proof -
  obtain out where "laspy_read_script warmup iterations w =
      (case fst (run_loops (sample [] [] 0) warmup iterations w) of
         Inl e \<Rightarrow> exited 1 out (traceback w e)
       | Inr rs \<Rightarrow> exited 0 out [],
       snd (run_loops (sample [] [] 0) warmup iterations w))"
    using laspy_read_script_run_loops by blast
  then have "snd (laspy_read_script warmup iterations w) =
      snd (run_loops (sample [] [] 0) warmup iterations w)"
    by simp
  then show ?thesis
    using run_loops_frame [of "sample [] [] 0" warmup iterations w] by simp
qed

lemma laspy_read_script_warmup_fail:
  assumes "fails_at w (op_calls w) i e" and "i < nat warmup"
  shows "\<exists>out. fst (laspy_read_script warmup iterations w) = exited 1 out (traceback w e)"
proof -
  obtain out where "laspy_read_script warmup iterations w =
      (case fst (run_loops (sample [] [] 0) warmup iterations w) of
         Inl e \<Rightarrow> exited 1 out (traceback w e)
       | Inr rs \<Rightarrow> exited 0 out [],
       snd (run_loops (sample [] [] 0) warmup iterations w))"
    using laspy_read_script_run_loops by blast
  then have "fst (laspy_read_script warmup iterations w) = exited 1 out (traceback w e)"
    by (simp add: run_loops_warmup_fail [OF assms])
  then show ?thesis ..
qed

text \<open>When the codec writes nothing, the output of the script is its timing lines.\<close>

definition quiet_codec :: "world \<Rightarrow> bool" where
  "quiet_codec w = (\<forall>k. op_output w k = [])"

definition timing_line :: "world \<Rightarrow> int \<Rightarrow> pyfloat \<Rightarrow> string" where
  "timing_line w it t = py_str_int it @ '','' @ float_repr w t"

lemma quiet_codec_frame [simp]: "quiet_codec (w\<lparr>op_calls := c\<rparr>) = quiet_codec w"
  by (simp add: quiet_codec_def)

lemma timing_line_frame [simp]: "timing_line (w\<lparr>op_calls := c\<rparr>) = timing_line w"
  by (rule ext)+ (simp add: timing_line_def)




section \<open>Cutting text into lines and fields\<close>










section \<open>Integers and floats read back\<close>










text \<open>
  What the statements below assume of the interpreter's \<open>repr\<close> of a float: it holds no
  whitespace and no comma, and \<open>float\<close> reads it back as the same float.
\<close>

definition reads_back :: "world \<Rightarrow> pyfloat \<Rightarrow> bool" where
  "reads_back w t =
     (py_float (float_repr w t) = Inr t \<and> float_repr w t \<noteq> [] \<and>
      filter (\<lambda>c. is_space c \<or> c = CHR '','') (float_repr w t) = [])"




section \<open>What the drivers return\<close>

text \<open>
  A world to run the drivers in: nothing printed yet, no child started, an empty
  environment, a codec that writes nothing. \<open>repr_few\<close> is the interpreter's \<open>repr\<close> at
  the few floats the examples use.
\<close>

definition repr_few :: "pyfloat \<Rightarrow> string" where
  "repr_few t =
     (if t = Finite (1 / 2) then ''0.5'' else if t = Finite 1 then ''1.0''
      else if t = Finite 2 then ''2.0'' else ''nan'')"

definition world0 :: "(nat \<Rightarrow> py_error + pyfloat) \<Rightarrow> (nat \<Rightarrow> completed_process) \<Rightarrow> world" where
  "world0 ops procs =
     \<lparr>environ = Map.empty, environ_writes = 0, op_results = ops, op_output = (\<lambda>k. []),
      op_calls = 0, float_repr = repr_few,
      traceback = (\<lambda>e. ''Traceback (most recent call last):''),
      proc_results = procs, spawned = [], tmp_made = 0, tmp_live = [],
      stderr_log = [], stdout_log = [], written = [], plots = 0\<rparr>"

definition one_second :: "nat \<Rightarrow> py_error + pyfloat" where
  "one_second k = Inr (Finite 1)"

definition always_raises :: "nat \<Rightarrow> py_error + pyfloat" where
  "always_raises k = Inl OSError"

definition no_process :: "nat \<Rightarrow> completed_process" where
  "no_process k = exited 0 [] []"

lemma never_fails_frame [simp]:
  "never_fails (w\<lparr>op_calls := c\<rparr>) = never_fails w"
  "never_fails (w\<lparr>spawned := sp\<rparr>) = never_fails w"
  "never_fails (environ_set k v w) = never_fails w"
  "never_fails (snd (make_tmp w)) = never_fails w"
  by (simp_all add: never_fails_def environ_set_def make_tmp_def)

lemma iteration_samples:
  "map iteration (map (\<lambda>j. sample tn opn th (int j) (f j)) [0..<k]) = map int [0..<k]"
  by (simp add: sample_def comp_def)


lemma fst_case_prod: "fst (case p of (r, w) \<Rightarrow> (r, f w)) = fst p"
  by (cases p) simp







text \<open>The child that the subprocess-isolated driver starts, and what the driver makes of it.\<close>

definition laspy_child :: "string \<Rightarrow> int \<Rightarrow> int \<Rightarrow> int \<Rightarrow> world \<Rightarrow> completed_process" where
  "laspy_child file warmup iterations nt w =
     fst (run_process (LaspyReadScript nt file warmup iterations)
            (Some ((environ w)(RAYON_NUM_THREADS \<mapsto> py_str_int nt))) w)"

lemma laspy_read_subprocess_result:
  "fst (laspy_read_subprocess file backend_name warmup iterations nt w) =
     (if returncode (laspy_child file warmup iterations nt w) \<noteq> 0
      then Inl (RuntimeError (''laspy subprocess failed: '' @ stderr (laspy_child file warmup iterations nt w)))
      else parse_lines backend_name nt
             (py_split CHR 0x0A (py_strip (stdout (laspy_child file warmup iterations nt w)))))"
  by (simp add: laspy_read_subprocess_def laspy_child_def Let_def split_beta)

lemma laspy_child_plain:
  "plain_path file \<Longrightarrow>
   laspy_child file warmup iterations nt w =
     fst (laspy_read_script warmup iterations
            (w\<lparr>spawned := spawned w @ [(LaspyReadScript nt file warmup iterations,
                   Some ((environ w)(RAYON_NUM_THREADS \<mapsto> py_str_int nt)))]\<rparr>))"
  by (simp add: laspy_child_def run_process_def Let_def)

lemma spawned_frame [simp]:
  "succeed (w\<lparr>spawned := sp\<rparr>) c k = succeed w c k"
  "fails_at (w\<lparr>spawned := sp\<rparr>) c i e = fails_at w c i e"
  "elapsed (w\<lparr>spawned := sp\<rparr>) k = elapsed w k"
  "quiet_codec (w\<lparr>spawned := sp\<rparr>) = quiet_codec w"
  "timing_line (w\<lparr>spawned := sp\<rparr>) = timing_line w"
  "reads_back (w\<lparr>spawned := sp\<rparr>) t = reads_back w t"
  by (simp_all add: succeed_def fails_at_def elapsed_def quiet_codec_def timing_line_def
      reads_back_def fun_eq_iff)


lemma subprocess_warmup_fail:
  assumes "plain_path file" and "fails_at w (op_calls w) i e" and "i < nat warmup"
  shows "fst (benchmark_laspy_read file LazrsParallel backend_name warmup iterations (Some nt) w) =
      Inl (RuntimeError (''laspy subprocess failed: '' @ traceback w e))"
proof -
  let ?w0 = "w\<lparr>spawned := spawned w @ [(LaspyReadScript nt file warmup iterations,
                   Some ((environ w)(RAYON_NUM_THREADS \<mapsto> py_str_int nt)))]\<rparr>"
  have "fails_at ?w0 (op_calls ?w0) i e"
    using assms(2) by simp
  from laspy_read_script_warmup_fail [OF this assms(3)]
  obtain out where "laspy_child file warmup iterations nt w = exited 1 out (traceback w e)"
    by (auto simp: laspy_child_plain [OF assms(1)])
  then show ?thesis
    by (simp add: benchmark_laspy_read_def laspy_read_subprocess_result exited_def)
qed










section \<open>The environment of the harness's own process\<close>

lemma snd_case_prod: "snd (case p of (r, w) \<Rightarrow> (r, f w)) = f (snd p)"
  by (cases p) simp

lemma environ_set_fields [simp]:
  "op_results (environ_set k v w) = op_results w"
  "op_output (environ_set k v w) = op_output w"
  "op_calls (environ_set k v w) = op_calls w"
  "spawned (environ_set k v w) = spawned w"
  "proc_results (environ_set k v w) = proc_results w"
  by (simp_all add: environ_set_def)

lemma make_tmp_fields [simp]:
  "op_results (snd (make_tmp w)) = op_results w"
  "op_calls (snd (make_tmp w)) = op_calls w"
  "environ (snd (make_tmp w)) = environ w"
  "environ_writes (snd (make_tmp w)) = environ_writes w"
  "spawned (snd (make_tmp w)) = spawned w"
  by (simp_all add: make_tmp_def)

lemma restore_rayon_environ:
  assumes "\<And>k. k \<noteq> RAYON_NUM_THREADS \<Longrightarrow> environ w1 k = environ w k"
  shows "environ (restore_rayon (environ w RAYON_NUM_THREADS) w1) = environ w"
proof (rule ext)
  fix k
  show "environ (restore_rayon (environ w RAYON_NUM_THREADS) w1) k = environ w k"
    using assms [of k]
    by (cases "environ w RAYON_NUM_THREADS")
       (auto simp: restore_rayon_def environ_pop_def environ_set_def)
qed

lemma laspy_read_inprocess_environ:
  "environ (snd (laspy_read_inprocess file backend backend_name warmup iterations num_threads w)) = environ w"
proof -
  let ?w1 = "case num_threads of
               Some nt \<Rightarrow>
                 if backend = LazrsParallel then environ_set RAYON_NUM_THREADS (py_str_int nt) w
                 else w
             | None \<Rightarrow> w"
  let ?mk = "sample backend_name ''read'' (case num_threads of None \<Rightarrow> 0 | Some nt \<Rightarrow> nt)"
  obtain c where c: "snd (run_loops ?mk warmup iterations ?w1) = ?w1\<lparr>op_calls := c\<rparr>"
    using run_loops_frame by blast
  have "snd (laspy_read_inprocess file backend backend_name warmup iterations num_threads w) =
      restore_rayon (environ w RAYON_NUM_THREADS) (?w1\<lparr>op_calls := c\<rparr>)"
    by (simp add: laspy_read_inprocess_def Let_def snd_case_prod c)
  moreover have "environ (?w1\<lparr>op_calls := c\<rparr>) k = environ w k" if "k \<noteq> RAYON_NUM_THREADS" for k
    using that by (simp add: environ_set_def split: option.splits)
  ultimately show ?thesis
    by (simp add: restore_rayon_environ)
qed

lemma laspy_write_environ:
  "environ (snd (benchmark_laspy_write file backend backend_name warmup iterations chunk_size num_threads w)) = environ w"
proof (cases "op_results w (op_calls w)")
  case (Inl e)
  then show ?thesis
    by (simp add: benchmark_laspy_write_def call_op_def)
next
  case (Inr t)
  let ?w0 = "w\<lparr>op_calls := Suc (op_calls w)\<rparr>"
  let ?w1 = "snd (make_tmp ?w0)"
  let ?w2 = "case num_threads of
               Some nt \<Rightarrow> environ_set RAYON_NUM_THREADS (py_str_int nt) ?w1
             | None \<Rightarrow> ?w1"
  let ?mk = "sample backend_name ''write'' (case num_threads of None \<Rightarrow> 0 | Some nt \<Rightarrow> nt)"
  obtain c where c: "snd (run_loops ?mk warmup iterations ?w2) = ?w2\<lparr>op_calls := c\<rparr>"
    using run_loops_frame by blast
  have "snd (benchmark_laspy_write file backend backend_name warmup iterations chunk_size num_threads w) =
      unlink (fst (make_tmp ?w0)) (restore_rayon (environ ?w1 RAYON_NUM_THREADS) (?w2\<lparr>op_calls := c\<rparr>))"
    by (simp add: benchmark_laspy_write_def call_op_def Inr Let_def split_beta c)
  moreover have "environ (?w2\<lparr>op_calls := c\<rparr>) k = environ ?w1 k" if "k \<noteq> RAYON_NUM_THREADS" for k
    using that by (simp add: environ_set_def split: option.splits)
  ultimately show ?thesis
    by (simp add: unlink_def restore_rayon_environ)
qed

text \<open>
  The subprocess-isolated read driver (\<open>benchmark_laspy_read\<close> with the lazrs-parallel
  backend and a thread count) passes \<open>RAYON_NUM_THREADS\<close> in the environment of the one
  child it spawns: it makes no assignment to the environment of its own process, which is
  the same mapping after the call as before. The mapping is also the same after any call
  of \<open>benchmark_laspy_read\<close> and of \<open>benchmark_laspy_write\<close> as before it.
\<close>

lemma laspy_read_subprocess_world:
  "\<exists>c. snd (laspy_read_subprocess file backend_name warmup iterations nt w) =
      w\<lparr>spawned := spawned w @ [(LaspyReadScript nt file warmup iterations,
                   Some ((environ w)(RAYON_NUM_THREADS \<mapsto> py_str_int nt)))],
        op_calls := c\<rparr>"
proof (cases "plain_path file")
  case True
  let ?w0 = "w\<lparr>spawned := spawned w @ [(LaspyReadScript nt file warmup iterations,
                   Some ((environ w)(RAYON_NUM_THREADS \<mapsto> py_str_int nt)))]\<rparr>"
  obtain c where "snd (laspy_read_script warmup iterations ?w0) = ?w0\<lparr>op_calls := c\<rparr>"
    using laspy_read_script_frame by blast
  with True show ?thesis
    by (intro exI [of _ c]) (simp add: laspy_read_subprocess_def run_process_def Let_def split_beta)
next
  case False
  then show ?thesis
    by (intro exI [of _ "op_calls w"]) (simp add: laspy_read_subprocess_def run_process_def Let_def)
qed

lemma subprocess_driver_environment:
  "environ (snd (benchmark_laspy_read file LazrsParallel backend_name warmup iterations (Some nt) w)) = environ w \<and>
   environ_writes (snd (benchmark_laspy_read file LazrsParallel backend_name warmup iterations (Some nt) w)) =
     environ_writes w \<and>
   spawned (snd (benchmark_laspy_read file LazrsParallel backend_name warmup iterations (Some nt) w)) =
     spawned w @ [(LaspyReadScript nt file warmup iterations,
                   Some ((environ w)(RAYON_NUM_THREADS \<mapsto> py_str_int nt)))] \<and>
   environ (snd (benchmark_laspy_read file backend backend_name warmup iterations num_threads w)) = environ w \<and>
   environ (snd (benchmark_laspy_write file backend backend_name warmup iterations chunk_size num_threads w)) =
     environ w"
proof -
  have sub: "environ (snd (laspy_read_subprocess file backend_name warmup iterations nt w)) = environ w \<and>
      environ_writes (snd (laspy_read_subprocess file backend_name warmup iterations nt w)) = environ_writes w \<and>
      spawned (snd (laspy_read_subprocess file backend_name warmup iterations nt w)) =
        spawned w @ [(LaspyReadScript nt file warmup iterations,
                      Some ((environ w)(RAYON_NUM_THREADS \<mapsto> py_str_int nt)))]" for nt
  proof -
    obtain c where "snd (laspy_read_subprocess file backend_name warmup iterations nt w) =
        w\<lparr>spawned := spawned w @ [(LaspyReadScript nt file warmup iterations,
                     Some ((environ w)(RAYON_NUM_THREADS \<mapsto> py_str_int nt)))],
          op_calls := c\<rparr>"
      using laspy_read_subprocess_world by blast
    then show ?thesis by simp
  qed
  have any: "environ (snd (benchmark_laspy_read file backend backend_name warmup iterations num_threads w)) = environ w"
    by (simp add: benchmark_laspy_read_def sub laspy_read_inprocess_environ split: option.splits)
  show ?thesis
    by (simp add: any laspy_write_environ) (simp add: benchmark_laspy_read_def sub)
qed

text \<open>
  The write driver runs the codec in the harness's own process: it sets the variable
  there before its loops and puts the old value back after them.
\<close>

lemma laspy_write_sets_own_environment:
  assumes "op_results w (op_calls w) = Inr t"
  shows "environ_writes (snd (benchmark_laspy_write file backend backend_name warmup iterations chunk_size (Some nt) w)) =
      environ_writes w + 2"
    and "spawned (snd (benchmark_laspy_write file backend backend_name warmup iterations chunk_size (Some nt) w)) =
      spawned w"
proof -
  let ?w0 = "w\<lparr>op_calls := Suc (op_calls w)\<rparr>"
  let ?w1 = "snd (make_tmp ?w0)"
  let ?w2 = "environ_set RAYON_NUM_THREADS (py_str_int nt) ?w1"
  let ?mk = "sample backend_name ''write'' nt"
  obtain c where c: "snd (run_loops ?mk warmup iterations ?w2) = ?w2\<lparr>op_calls := c\<rparr>"
    using run_loops_frame by blast
  have "snd (benchmark_laspy_write file backend backend_name warmup iterations chunk_size (Some nt) w) =
      unlink (fst (make_tmp ?w0)) (restore_rayon (environ ?w1 RAYON_NUM_THREADS) (?w2\<lparr>op_calls := c\<rparr>))"
    by (simp add: benchmark_laspy_write_def call_op_def assms Let_def split_beta c)
  then show "environ_writes (snd (benchmark_laspy_write file backend backend_name warmup iterations chunk_size (Some nt) w)) =
      environ_writes w + 2"
    and "spawned (snd (benchmark_laspy_write file backend backend_name warmup iterations chunk_size (Some nt) w)) =
      spawned w"
    by (simp_all add: unlink_def restore_rayon_def environ_set_def environ_pop_def split: option.splits)
qed

text \<open>
  C6, at the input where the code departs from it. \<open>main\<close> calls
  \<open>benchmark_laspy_write\<close> for the lazrs-parallel backend with every requested thread
  count. With four threads asked for, the write driver starts no child: it assigns the
  variable in the harness's own environment and, after its loops, deletes it again (two
  writes). The read driver, for the same backend and thread count, makes no write to its
  own environment and starts one child, whose environment holds the variable.
\<close>

theorem laspy_write_mutates_own_environment:
  "environ_writes (snd (benchmark_laspy_write ''cloud.laz'' LazrsParallel ''laspy (lazrs-parallel)'' 1 3 50000
                          (Some 4) (world0 one_second no_process))) = 2 \<and>
   length (spawned (snd (benchmark_laspy_write ''cloud.laz'' LazrsParallel ''laspy (lazrs-parallel)'' 1 3 50000
                           (Some 4) (world0 one_second no_process)))) = 0 \<and>
   environ_writes (snd (benchmark_laspy_read ''cloud.laz'' LazrsParallel ''laspy (lazrs-parallel)'' 1 3
                          (Some 4) (world0 one_second no_process))) = 0 \<and>
   spawned (snd (benchmark_laspy_read ''cloud.laz'' LazrsParallel ''laspy (lazrs-parallel)'' 1 3
                   (Some 4) (world0 one_second no_process))) =
     [(LaspyReadScript 4 ''cloud.laz'' 1 3, Some [RAYON_NUM_THREADS \<mapsto> ''4''])]"
proof -
  let ?w = "world0 one_second no_process"
  have s: "py_str_int 4 = ''4''"
    by code_simp
  have w: "environ ?w = Map.empty" "environ_writes ?w = 0" "spawned ?w = []"
    "op_results ?w (op_calls ?w) = Inr (Finite 1)"
    by (simp_all add: world0_def one_second_def)
  from laspy_write_sets_own_environment [OF w(4), of "''cloud.laz''" LazrsParallel
      "''laspy (lazrs-parallel)''" 1 3 50000 4]
  have 1: "environ_writes (snd (benchmark_laspy_write ''cloud.laz'' LazrsParallel ''laspy (lazrs-parallel)'' 1 3
      50000 (Some 4) ?w)) = 2"
    and 2: "length (spawned (snd (benchmark_laspy_write ''cloud.laz'' LazrsParallel ''laspy (lazrs-parallel)'' 1 3
      50000 (Some 4) ?w))) = 0"
    by (simp_all add: w)
  from subprocess_driver_environment [of "''cloud.laz''" "''laspy (lazrs-parallel)''" 1 3 4 ?w
      LazrsParallel "Some 4" 50000]
  have 3: "environ_writes (snd (benchmark_laspy_read ''cloud.laz'' LazrsParallel ''laspy (lazrs-parallel)'' 1 3
      (Some 4) ?w)) = 0"
    and 4: "spawned (snd (benchmark_laspy_read ''cloud.laz'' LazrsParallel ''laspy (lazrs-parallel)'' 1 3
      (Some 4) ?w)) = [(LaspyReadScript 4 ''cloud.laz'' 1 3, Some [RAYON_NUM_THREADS \<mapsto> ''4''])]"
    by (simp_all add: w s)
  from 1 2 3 4 show ?thesis
    by (intro conjI)
qed

section \<open>A failing warmup\<close>

lemma fails_at_fields:
  "op_results w' = op_results w \<Longrightarrow> fails_at w' c i e = fails_at w c i e"
  by (simp add: fails_at_def succeed_def)

lemma lazrs_probe_failure_returns_nothing:
  assumes "op_results w (op_calls w) = Inl e" and "e \<noteq> AttributeError"
  shows "fst (benchmark_lazrs_read True file warmup iterations w) = Inr []"
  using assms by (simp add: benchmark_lazrs_read_def call_op_def)

definition fails_after_first :: "nat \<Rightarrow> py_error + pyfloat" where
  "fails_after_first k = (if k = 0 then Inr (Finite 1) else Inl OSError)"

definition old_api_then_fails :: "nat \<Rightarrow> py_error + pyfloat" where
  "old_api_then_fails k =
     (if k = 0 then Inl AttributeError else if k = 1 then Inr (Finite 1) else Inl OSError)"

definition old_api_broken :: "nat \<Rightarrow> py_error + pyfloat" where
  "old_api_broken k = (if k = 0 then Inl AttributeError else Inl OSError)"

text \<open>
  C7 (as the code has it). In every driver a codec call that raises during the warmup loop
  ends the call with an exception: no list of samples is returned. The in-process drivers
  let the codec's exception through; the subprocess-isolated driver, whose loops run in the
  child, raises \<open>RuntimeError\<close> with the child's traceback. A tool that is not available
  makes its driver return the empty list, which is a different outcome. The lazrs driver,
  however, calls the codec once before its warmup loop, to choose between two entry points
  of the library: when that call fails (or the older entry point is missing and the other
  one fails), it returns the empty list, as it does for a library that is not installed.
\<close>

theorem warmup_failure_raises:
  assumes "i < nat warmup"
  shows
    "(fails_at w (op_calls w) i e \<and> (backend \<noteq> LazrsParallel \<or> num_threads = None) \<longrightarrow>
        fst (benchmark_laspy_read file backend backend_name warmup iterations num_threads w) = Inl e) \<and>
     ((\<exists>t. op_results w (op_calls w) = Inr t) \<and> fails_at w (Suc (op_calls w)) i e \<longrightarrow>
        fst (benchmark_laspy_write file backend backend_name warmup iterations chunk_size num_threads w) = Inl e) \<and>
     ((\<exists>t. op_results w (op_calls w) = Inr t) \<and> fails_at w (Suc (op_calls w)) i e \<longrightarrow>
        fst (benchmark_lazrs_read True file warmup iterations w) = Inl e) \<and>
     (op_results w (op_calls w) = Inl AttributeError \<and> (\<exists>t. op_results w (Suc (op_calls w)) = Inr t) \<and>
      fails_at w (Suc (Suc (op_calls w))) i e \<longrightarrow>
        fst (benchmark_lazrs_read True file warmup iterations w) = Inl e) \<and>
     (fails_at w (op_calls w) i e \<longrightarrow>
        fst (benchmark_pdal_read True file warmup iterations w) = Inl e \<and>
        fst (benchmark_pdal_write True file warmup iterations w) = Inl e) \<and>
     (plain_path file \<and> fails_at w (op_calls w) i e \<longrightarrow>
        fst (benchmark_laspy_read file LazrsParallel backend_name warmup iterations (Some nt) w) =
          Inl (RuntimeError (''laspy subprocess failed: '' @ traceback w e))) \<and>
     (op_results w (op_calls w) = Inl e \<and> e \<noteq> AttributeError \<longrightarrow>
        fst (benchmark_lazrs_read True file warmup iterations w) = Inr []) \<and>
     (op_results w (op_calls w) = Inl AttributeError \<and> op_results w (Suc (op_calls w)) = Inl e \<longrightarrow>
        fst (benchmark_lazrs_read True file warmup iterations w) = Inr []) \<and>
     fst (benchmark_lazrs_read False file warmup iterations w) = Inr [] \<and>
     fst (benchmark_pdal_read False file warmup iterations w) = Inr [] \<and>
     fst (benchmark_pdal_write False file warmup iterations w) = Inr []"
proof (intro conjI impI)
  assume a: "fails_at w (op_calls w) i e \<and> (backend \<noteq> LazrsParallel \<or> num_threads = None)"
  let ?w1 = "case num_threads of
               Some nt \<Rightarrow>
                 if backend = LazrsParallel then environ_set RAYON_NUM_THREADS (py_str_int nt) w
                 else w
             | None \<Rightarrow> w"
  from a have w1: "?w1 = w"
    by (auto split: option.splits)
  from a have "benchmark_laspy_read file backend backend_name warmup iterations num_threads w =
      laspy_read_inprocess file backend backend_name warmup iterations num_threads w"
    by (auto simp: benchmark_laspy_read_def split: option.splits)
  moreover have "fst (laspy_read_inprocess file backend backend_name warmup iterations num_threads w) =
      fst (run_loops (sample backend_name ''read'' (case num_threads of None \<Rightarrow> 0 | Some nt \<Rightarrow> nt))
             warmup iterations ?w1)"
    by (simp add: laspy_read_inprocess_def Let_def fst_case_prod)
  moreover from a have fa: "fails_at w (op_calls w) i e" ..
  ultimately show "fst (benchmark_laspy_read file backend backend_name warmup iterations num_threads w) = Inl e"
    by (simp only: w1 run_loops_warmup_fail [OF fa assms]) simp
next
  assume a: "(\<exists>t. op_results w (op_calls w) = Inr t) \<and> fails_at w (Suc (op_calls w)) i e"
  then obtain t where t: "op_results w (op_calls w) = Inr t" by blast
  let ?w1 = "snd (make_tmp (w\<lparr>op_calls := Suc (op_calls w)\<rparr>))"
  let ?w2 = "case num_threads of
               Some nt \<Rightarrow> environ_set RAYON_NUM_THREADS (py_str_int nt) ?w1
             | None \<Rightarrow> ?w1"
  have c: "op_calls ?w2 = Suc (op_calls w)" and r: "op_results ?w2 = op_results w"
    by (simp_all split: option.splits)
  have f: "fails_at ?w2 (op_calls ?w2) i e"
    using a by (simp only: c fails_at_fields [OF r])
  have "fst (benchmark_laspy_write file backend backend_name warmup iterations chunk_size num_threads w) =
      fst (run_loops (sample backend_name ''write'' (case num_threads of None \<Rightarrow> 0 | Some nt \<Rightarrow> nt))
             warmup iterations ?w2)"
    by (simp add: benchmark_laspy_write_def call_op_def t Let_def fst_case_prod split_beta)
  then show "fst (benchmark_laspy_write file backend backend_name warmup iterations chunk_size num_threads w) = Inl e"
    by (simp only: run_loops_warmup_fail [OF f assms]) simp
next
  assume a: "(\<exists>t. op_results w (op_calls w) = Inr t) \<and> fails_at w (Suc (op_calls w)) i e"
  then obtain t where t: "op_results w (op_calls w) = Inr t" by blast
  let ?w1 = "w\<lparr>op_calls := Suc (op_calls w)\<rparr>"
  have f: "fails_at ?w1 (op_calls ?w1) i e"
    using a by (simp add: fails_at_def)
  have "fst (benchmark_lazrs_read True file warmup iterations w) =
      fst (run_loops (sample ''lazrs'' ''read'' 0) warmup iterations ?w1)"
    by (simp add: benchmark_lazrs_read_def call_op_def t)
  then show "fst (benchmark_lazrs_read True file warmup iterations w) = Inl e"
    by (simp only: run_loops_warmup_fail [OF f assms]) simp
next
  assume a: "op_results w (op_calls w) = Inl AttributeError \<and> (\<exists>t. op_results w (Suc (op_calls w)) = Inr t) \<and>
      fails_at w (Suc (Suc (op_calls w))) i e"
  then obtain t where t: "op_results w (Suc (op_calls w)) = Inr t" by blast
  let ?w2 = "w\<lparr>op_calls := Suc (Suc (op_calls w))\<rparr>"
  have f: "fails_at ?w2 (op_calls ?w2) i e"
    using a by (simp add: fails_at_def)
  have "fst (benchmark_lazrs_read True file warmup iterations w) =
      fst (run_loops (sample ''lazrs'' ''read'' 0) warmup iterations ?w2)"
    using a by (simp add: benchmark_lazrs_read_def call_op_def t)
  then show "fst (benchmark_lazrs_read True file warmup iterations w) = Inl e"
    by (simp only: run_loops_warmup_fail [OF f assms]) simp
next
  assume a: "fails_at w (op_calls w) i e"
  have f: "fails_at (snd (make_tmp w)) (op_calls (snd (make_tmp w))) i e"
    using a by (simp add: fails_at_def succeed_def)
  have p: "fst (benchmark_pdal opn True file warmup iterations w) = Inl e" for opn
  proof -
    have "fst (benchmark_pdal opn True file warmup iterations w) =
        fst (run_loops (sample ''pdal'' opn 0) warmup iterations (snd (make_tmp w)))"
      by (simp add: benchmark_pdal_def Let_def fst_case_prod split_beta)
    then show ?thesis
      by (simp only: run_loops_warmup_fail [OF f assms]) simp
  qed
  show "fst (benchmark_pdal_read True file warmup iterations w) = Inl e"
    by (simp add: benchmark_pdal_read_def p)
  show "fst (benchmark_pdal_write True file warmup iterations w) = Inl e"
    by (simp add: benchmark_pdal_write_def p)
next
  assume a: "plain_path file \<and> fails_at w (op_calls w) i e"
  then have "plain_path file" and "fails_at w (op_calls w) i e"
    by simp_all
  then show "fst (benchmark_laspy_read file LazrsParallel backend_name warmup iterations (Some nt) w) =
      Inl (RuntimeError (''laspy subprocess failed: '' @ traceback w e))"
    using assms by (rule subprocess_warmup_fail)
next
  assume "op_results w (op_calls w) = Inl e \<and> e \<noteq> AttributeError"
  then show "fst (benchmark_lazrs_read True file warmup iterations w) = Inr []"
    by (simp add: benchmark_lazrs_read_def call_op_def)
next
  assume "op_results w (op_calls w) = Inl AttributeError \<and> op_results w (Suc (op_calls w)) = Inl e"
  then show "fst (benchmark_lazrs_read True file warmup iterations w) = Inr []"
    by (simp add: benchmark_lazrs_read_def call_op_def)
next
  show "fst (benchmark_lazrs_read False file warmup iterations w) = Inr []"
    by (simp add: benchmark_lazrs_read_def)
  show "fst (benchmark_pdal_read False file warmup iterations w) = Inr []"
    by (simp add: benchmark_pdal_read_def benchmark_pdal_def)
  show "fst (benchmark_pdal_write False file warmup iterations w) = Inr []"
    by (simp add: benchmark_pdal_write_def benchmark_pdal_def)
qed

theorem warmup_failure_raises_witness:
  "(0::nat) < nat 1 \<and> plain_path ''cloud.laz'' \<and>
   fails_at (world0 always_raises no_process) 0 0 OSError \<and>
   fst (benchmark_laspy_read ''cloud.laz'' Laszip ''laspy (laszip)'' 1 3 (Some 1)
          (world0 always_raises no_process)) = Inl OSError \<and>
   fst (benchmark_pdal_read True ''cloud.laz'' 1 3 (world0 always_raises no_process)) = Inl OSError \<and>
   fst (benchmark_laspy_read ''cloud.laz'' LazrsParallel ''laspy (lazrs-parallel)'' 1 3 (Some 4)
          (world0 always_raises no_process)) =
     Inl (RuntimeError ''laspy subprocess failed: Traceback (most recent call last):'') \<and>
   fst (benchmark_lazrs_read True ''cloud.laz'' 1 3 (world0 always_raises no_process)) = Inr [] \<and>
   fails_at (world0 fails_after_first no_process) (Suc 0) 0 OSError \<and>
   fst (benchmark_laspy_write ''cloud.laz'' Laszip ''laspy (laszip)'' 1 3 50000 (Some 1)
          (world0 fails_after_first no_process)) = Inl OSError \<and>
   fst (benchmark_lazrs_read True ''cloud.laz'' 1 3 (world0 fails_after_first no_process)) = Inl OSError \<and>
   fails_at (world0 old_api_then_fails no_process) (Suc (Suc 0)) 0 OSError \<and>
   fst (benchmark_lazrs_read True ''cloud.laz'' 1 3 (world0 old_api_then_fails no_process)) = Inl OSError \<and>
   fst (benchmark_lazrs_read True ''cloud.laz'' 1 3 (world0 old_api_broken no_process)) = Inr []"
proof -
  let ?w = "world0 always_raises no_process"
  let ?v = "world0 fails_after_first no_process"
  let ?u = "world0 old_api_then_fails no_process"
  let ?x = "world0 old_api_broken no_process"
  have i: "(0::nat) < nat 1"
    by simp
  have pl: "plain_path ''cloud.laz''"
    by code_simp
  have f: "fails_at ?w (op_calls ?w) 0 OSError" and c: "op_calls ?w = 0"
    and probe: "op_results ?w (op_calls ?w) = Inl OSError \<and> OSError \<noteq> AttributeError"
    and tb: "traceback ?w OSError = ''Traceback (most recent call last):''"
    by (simp_all add: fails_at_def succeed_def world0_def always_raises_def)
  have g: "(\<exists>t. op_results ?v (op_calls ?v) = Inr t) \<and> fails_at ?v (Suc (op_calls ?v)) 0 OSError"
    and d: "op_calls ?v = 0"
    by (simp_all add: fails_at_def succeed_def world0_def fails_after_first_def)
  have h: "op_results ?u (op_calls ?u) = Inl AttributeError \<and> (\<exists>t. op_results ?u (Suc (op_calls ?u)) = Inr t) \<and>
      fails_at ?u (Suc (Suc (op_calls ?u))) 0 OSError"
    and b: "op_calls ?u = 0"
    by (simp_all add: fails_at_def succeed_def world0_def old_api_then_fails_def)
  have k: "op_results ?x (op_calls ?x) = Inl AttributeError \<and> op_results ?x (Suc (op_calls ?x)) = Inl OSError"
    by (simp add: world0_def old_api_broken_def)
  note t = warmup_failure_raises [OF i, where w = ?w and e = OSError and backend = Laszip
      and num_threads = "Some 1" and ?file = "''cloud.laz''" and backend_name = "''laspy (laszip)''"
      and iterations = 3 and chunk_size = 50000 and nt = 4]
  note t' = warmup_failure_raises [OF i, where w = ?w and e = OSError and backend = Laszip
      and num_threads = "Some 1" and ?file = "''cloud.laz''" and backend_name = "''laspy (lazrs-parallel)''"
      and iterations = 3 and chunk_size = 50000 and nt = 4]
  note u = warmup_failure_raises [OF i, where w = ?v and e = OSError and backend = Laszip
      and num_threads = "Some 1" and ?file = "''cloud.laz''" and backend_name = "''laspy (laszip)''"
      and iterations = 3 and chunk_size = 50000 and nt = 4]
  note v = warmup_failure_raises [OF i, where w = ?u and e = OSError and backend = Laszip
      and num_threads = "Some 1" and ?file = "''cloud.laz''" and backend_name = "''laspy (laszip)''"
      and iterations = 3 and chunk_size = 50000 and nt = 4]
  note x = warmup_failure_raises [OF i, where w = ?x and e = OSError and backend = Laszip
      and num_threads = "Some 1" and ?file = "''cloud.laz''" and backend_name = "''laspy (laszip)''"
      and iterations = 3 and chunk_size = 50000 and nt = 4]
  from t f have 1: "fst (benchmark_laspy_read ''cloud.laz'' Laszip ''laspy (laszip)'' 1 3 (Some 1) ?w) = Inl OSError"
    by simp
  from t f have 2: "fst (benchmark_pdal_read True ''cloud.laz'' 1 3 ?w) = Inl OSError"
    by simp
  from t' f pl tb
  have 3: "fst (benchmark_laspy_read ''cloud.laz'' LazrsParallel ''laspy (lazrs-parallel)'' 1 3 (Some 4) ?w) =
      Inl (RuntimeError ''laspy subprocess failed: Traceback (most recent call last):'')"
    by simp
  from t probe have 4: "fst (benchmark_lazrs_read True ''cloud.laz'' 1 3 ?w) = Inr []"
    by blast
  from u g have 5: "fst (benchmark_laspy_write ''cloud.laz'' Laszip ''laspy (laszip)'' 1 3 50000 (Some 1) ?v) = Inl OSError"
    by blast
  from u g have 6: "fst (benchmark_lazrs_read True ''cloud.laz'' 1 3 ?v) = Inl OSError"
    by blast
  from v h have 7: "fst (benchmark_lazrs_read True ''cloud.laz'' 1 3 ?u) = Inl OSError"
    by blast
  from x k have 8: "fst (benchmark_lazrs_read True ''cloud.laz'' 1 3 ?x) = Inr []"
    by blast
  from f have f': "fails_at ?w 0 0 OSError"
    by (simp only: c)
  from g have g': "fails_at ?v (Suc 0) 0 OSError"
    by (simp only: d)
  from h have h': "fails_at ?u (Suc (Suc 0)) 0 OSError"
    by (simp only: b)
  from i pl f' 1 2 3 4 g' 5 6 h' 7 8 show ?thesis
    by (intro conjI)
qed

text \<open>
  A codec whose every call raises, one warmup asked for: the lazrs driver returns the
  empty list, exactly as it does when the library is not installed.
\<close>

theorem lazrs_probe_counterexample:
  "op_results (world0 always_raises no_process) 0 = Inl OSError \<and>
   fst (benchmark_lazrs_read True ''cloud.laz'' 1 3 (world0 always_raises no_process)) = Inr [] \<and>
   fst (benchmark_lazrs_read False ''cloud.laz'' 1 3 (world0 always_raises no_process)) = Inr []"
  by (simp add: benchmark_lazrs_read_def call_op_def world0_def always_raises_def)

section \<open>The host and the command line\<close>

text \<open>
  What the harness finds on the machine, fixed during a run: which optional packages
  import, what is on the search path and on the disk, what laspy reports as available,
  how its interpreter sums floats,
  and the reading of the native benchmark's JSON document (\<open>json.loads\<close> and the
  extraction of the metadata keys and of the \<open>results\<close> array, for a document whose values
  have the types of the protocol). Rendering the charts is the chart library's: whether it
  raises is part of the host.
\<close>

record cpp_metadata =
  cm_platform :: "string option"
  cm_has_thread_control :: "bool option"
  cm_hardware_threads :: "int option"
  cm_file :: "string option"
  cm_num_points :: "int option"
  cm_file_size_bytes :: "int option"
  cm_point_format :: "int option"
  cm_is_compressed :: "bool option"

record host =
  has_laspy :: bool
  has_lazrs :: bool
  has_pdal :: bool
  has_matplotlib :: bool
  path_exists :: "string \<Rightarrow> bool"
  st_size :: "string \<Rightarrow> int"
  is_executable :: "string \<Rightarrow> bool"
  which :: "string \<Rightarrow> string option"
  build_root :: string
  detect_available :: "py_error + LazBackend list"
  read_cpp_output :: "string \<Rightarrow> py_error + cpp_metadata \<times> BenchResult list"
  cpu_count :: int
  platform :: string
  float_summation :: float_sum
  write_text_error :: "string \<Rightarrow> py_error option"
  plot_error :: "py_error option"

record args =
  args_file :: string
  args_threads :: string
  args_iterations :: int
  args_warmup :: int
  args_operation :: string
  args_chunk_size :: int
  args_benchmark_binary :: "string option"
  args_tools :: string
  args_plot :: bool
  args_plot_output :: "string option"
  args_output :: "string option"

record metadata =
  md_file :: string
  md_num_points :: int
  md_file_size_bytes :: int
  md_hardware_threads :: int
  md_platform :: string
  md_has_thread_control :: bool
  md_point_format :: "int option"
  md_is_compressed :: "bool option"

definition update_metadata :: "cpp_metadata \<Rightarrow> metadata \<Rightarrow> metadata" where
  "update_metadata m md =
     \<lparr>md_file = (case cm_file m of None \<Rightarrow> md_file md | Some v \<Rightarrow> v),
      md_num_points = (case cm_num_points m of None \<Rightarrow> md_num_points md | Some v \<Rightarrow> v),
      md_file_size_bytes = (case cm_file_size_bytes m of None \<Rightarrow> md_file_size_bytes md | Some v \<Rightarrow> v),
      md_hardware_threads = (case cm_hardware_threads m of None \<Rightarrow> md_hardware_threads md | Some v \<Rightarrow> v),
      md_platform = (case cm_platform m of None \<Rightarrow> md_platform md | Some v \<Rightarrow> v),
      md_has_thread_control =
        (case cm_has_thread_control m of None \<Rightarrow> md_has_thread_control md | Some v \<Rightarrow> v),
      md_point_format = (case cm_point_format m of None \<Rightarrow> md_point_format md | Some v \<Rightarrow> Some v),
      md_is_compressed = (case cm_is_compressed m of None \<Rightarrow> md_is_compressed md | Some v \<Rightarrow> Some v)\<rparr>"

text \<open>A value used as a condition: \<open>None\<close> and the empty string are false.\<close>

definition truthy :: "string option \<Rightarrow> bool" where
  "truthy v = (case v of None \<Rightarrow> False | Some s \<Rightarrow> s \<noteq> [])"

section \<open>Paths\<close>

text \<open>
  The harness holds file names as \<open>pathlib.Path\<close> objects and turns them back into
  strings for messages and command lines. On a POSIX system \<open>str(Path(s))\<close> drops empty
  and \<open>.\<close> components and a trailing slash, keeps a leading slash (two leading slashes
  when there are exactly two), and is \<open>.\<close> when nothing is left; \<open>p / name\<close> appends
  a component.
\<close>

fun join :: "string \<Rightarrow> string list \<Rightarrow> string" where
  "join sep [] = []"
| "join sep [x] = x"
| "join sep (x # y # ys) = x @ sep @ join sep (y # ys)"

definition py_path :: "string \<Rightarrow> string" where
  "py_path s =
     (let root = (if take 2 s = ''//'' \<and> take 3 s \<noteq> ''///'' then ''//''
                  else if take 1 s = ''/'' then ''/'' else []);
          parts = filter (\<lambda>x. x \<noteq> [] \<and> x \<noteq> ''.'') (py_split CHR ''/'' s);
          r = root @ join ''/'' parts
      in if r = [] then ''.'' else r)"

definition path_join :: "string \<Rightarrow> string \<Rightarrow> string" where
  "path_join p name =
     py_path (if p \<noteq> [] \<and> last p = CHR ''/'' then p @ name else p @ ''/'' @ name)"

text \<open>\<open>file = Path(args.file)\<close>, as the string the harness prints and passes on.\<close>

definition input_file :: "args \<Rightarrow> string" where
  "input_file a = py_path (args_file a)"

section \<open>Tool discovery\<close>

definition build_dirs :: "string list" where
  "build_dirs = [''build'', ''linux-build'', ''build_release'', ''cmake-build-release'']"

definition find_benchmark_binary :: "host \<Rightarrow> string option \<Rightarrow> string option" where
  "find_benchmark_binary h hint =
     (let candidates =
            (case hint of None \<Rightarrow> [] | Some p \<Rightarrow> if p = [] then [] else [py_path p]) @
            concat (map (\<lambda>d. [path_join (path_join (path_join (build_root h) d) ''apps'') ''benchmark'',
                              path_join (path_join (path_join (build_root h) d) ''apps'') ''benchmark.exe'',
                              path_join (path_join (build_root h) d) ''benchmark'',
                              path_join (path_join (build_root h) d) ''benchmark.exe'']) build_dirs) @
            (case which h ''benchmark'' of None \<Rightarrow> [] | Some p \<Rightarrow> if p = [] then [] else [py_path p])
      in find (\<lambda>p. path_exists h p \<and> is_executable h p) candidates)"

definition backend_key :: "LazBackend \<Rightarrow> string" where
  "backend_key b =
     (case b of LazrsParallel \<Rightarrow> ''laspy_lazrs_parallel'' | Lazrs \<Rightarrow> ''laspy_lazrs''
      | Laszip \<Rightarrow> ''laspy_laszip'')"

definition detect_laspy_backends :: "host \<Rightarrow> (string \<times> bool) list" where
  "detect_laspy_backends h =
     (if \<not> has_laspy h then []
      else map (\<lambda>b. (backend_key b,
                      (case detect_available h of Inl e \<Rightarrow> False | Inr avail \<Rightarrow> b \<in> set avail)))
             [LazrsParallel, Lazrs, Laszip])"

section \<open>The native benchmark adapter\<close>

definition run_cpp_benchmark ::
  "host \<Rightarrow> string \<Rightarrow> string \<Rightarrow> int list \<Rightarrow> int \<Rightarrow> int \<Rightarrow> string \<Rightarrow> int option \<Rightarrow> bool \<Rightarrow> bool \<Rightarrow>
   world \<Rightarrow> (py_error + cpp_metadata \<times> BenchResult list) \<times> world" where
  "run_cpp_benchmark h binary file thread_counts iterations warmup opn chunk_size
       include_laszip include_lazperf w =
     (let cmd = [binary, ''--file'', file,
                 ''--threads'', join '','' (map py_str_int thread_counts),
                 ''--iterations'', py_str_int iterations,
                 ''--warmup'', py_str_int warmup,
                 ''--operation'', opn] @
                (case chunk_size of None \<Rightarrow> [] | Some c \<Rightarrow> [''--chunk-size'', py_str_int c]) @
                (if \<not> include_laszip then [''--no-laszip''] else []) @
                (if \<not> include_lazperf then [''--no-lazperf''] else []);
          (proc, w') = run_process (CppBenchmark cmd) None w
      in if returncode proc \<noteq> 0
         then (Inl (RuntimeError (''benchmark binary failed (exit '' @ py_str_int (returncode proc) @
                                  ''):'' @ [CHR 0x0A] @ stderr proc)), w')
         else (read_cpp_output h (stdout proc), w'))"

section \<open>The orchestrator\<close>

text \<open>
  The statements of a \<open>try\<close> block run in sequence on the list \<open>all_results\<close>; the
  first one that raises ends the block, and what was appended before stays in the list.
  A block returns the exception, if any, with the list.
\<close>

type_synonym cells =
  "BenchResult list \<Rightarrow> world \<Rightarrow> (py_error option \<times> BenchResult list) \<times> world"

text \<open>\<open>if enabled: res = driver(...); all_results.extend(res)\<close>\<close>

definition cell ::
  "bool \<Rightarrow> (world \<Rightarrow> (py_error + BenchResult list) \<times> world) \<Rightarrow> cells" where
  "cell enabled driver all_results w =
     (if \<not> enabled then ((None, all_results), w)
      else (case driver w of
              (Inl e, w') \<Rightarrow> ((Some e, all_results), w')
            | (Inr res, w') \<Rightarrow> ((None, all_results @ res), w')))"

definition then_cell :: "cells \<Rightarrow> cells \<Rightarrow> cells" where
  "then_cell c1 c2 all_results w =
     (case c1 all_results w of
        ((Some e, rs), w') \<Rightarrow> ((Some e, rs), w')
      | ((None, rs), w') \<Rightarrow> c2 rs w')"

fun for_cells :: "('a \<Rightarrow> cells) \<Rightarrow> 'a list \<Rightarrow> cells" where
  "for_cells body [] all_results w = ((None, all_results), w)"
| "for_cells body (x # xs) all_results w =
     (case body x all_results w of
        ((Some e, rs), w') \<Rightarrow> ((Some e, rs), w')
      | ((None, rs), w') \<Rightarrow> for_cells body xs rs w')"

definition print_out :: "string \<Rightarrow> world \<Rightarrow> world" where
  "print_out s w = w\<lparr>stdout_log := stdout_log w @ [Printed s]\<rparr>"

definition print_err :: "string \<Rightarrow> world \<Rightarrow> world" where
  "print_err s w = w\<lparr>stderr_log := stderr_log w @ [Printed s]\<rparr>"

text \<open>\<open>print(f"WARNING: {label} benchmark failed: {e}", file=sys.stderr)\<close>\<close>

definition warn :: "string \<Rightarrow> py_error \<Rightarrow> world \<Rightarrow> world" where
  "warn label e w = w\<lparr>stderr_log := stderr_log w @ [Warning label e]\<rparr>"

text \<open>\<open>try: block except Exception as e: print(WARNING ...)\<close>\<close>

definition guarded :: "string \<Rightarrow> cells \<Rightarrow> BenchResult list \<Rightarrow> world \<Rightarrow> BenchResult list \<times> world" where
  "guarded label block all_results w =
     (case block all_results w of
        ((None, rs), w') \<Rightarrow> (rs, w')
      | ((Some e, rs), w') \<Rightarrow> (rs, warn label e w'))"

definition cpp_block ::
  "host \<Rightarrow> args \<Rightarrow> string set \<Rightarrow> int list \<Rightarrow> metadata \<Rightarrow> BenchResult list \<Rightarrow> world \<Rightarrow>
   (metadata \<times> BenchResult list) \<times> world" where
  "cpp_block h a tools thread_counts md all_results w =
     (if tools \<inter> {''laspp'', ''laszip''} = {} then ((md, all_results), w)
      else (case find_benchmark_binary h (args_benchmark_binary a) of
              None \<Rightarrow> ((md, all_results), print_err ''WARNING: C++ benchmark binary not found.'' w)
            | Some binary \<Rightarrow>
               (let w0 = print_out (''Using C++ benchmark binary: '' @ binary) w
                in (case run_cpp_benchmark h binary (input_file a)
                           (if ''laspp'' \<in> tools then thread_counts else [1])
                           (args_iterations a) (args_warmup a) (args_operation a)
                           (if args_operation a \<in> {''write'', ''both''} then Some (args_chunk_size a)
                            else None)
                           (''laszip'' \<in> tools) True w0 of
                      (Inl e, w') \<Rightarrow> ((md, all_results), warn ''C++'' e w')
                    | (Inr (meta, cpp_results), w') \<Rightarrow>
                        ((update_metadata meta md, all_results @ cpp_results), w')))))"

definition laspy_cells :: "args \<Rightarrow> LazBackend \<Rightarrow> string \<Rightarrow> int list \<Rightarrow> cells" where
  "laspy_cells a backend label laspy_thread_counts =
     for_cells
       (\<lambda>n_threads.
          then_cell
            (cell (args_operation a \<in> {''read'', ''both''})
               (benchmark_laspy_read (input_file a) backend label (args_warmup a) (args_iterations a)
                  (Some n_threads)))
            (cell (args_operation a \<in> {''write'', ''both''})
               (benchmark_laspy_write (input_file a) backend label (args_warmup a) (args_iterations a)
                  (args_chunk_size a) (Some n_threads))))
       laspy_thread_counts"

definition laspy_backend_block ::
  "host \<Rightarrow> args \<Rightarrow> int list \<Rightarrow> LazBackend \<Rightarrow> string \<Rightarrow> BenchResult list \<Rightarrow> world \<Rightarrow>
   BenchResult list \<times> world" where
  "laspy_backend_block h a thread_counts backend label all_results w =
     (if \<not> (case map_of (detect_laspy_backends h) (backend_key backend) of
               None \<Rightarrow> False | Some v \<Rightarrow> v)
      then (all_results, w)
      else guarded label
             (laspy_cells a backend label (if backend = LazrsParallel then thread_counts else [1]))
             all_results
             (print_out (''Benchmarking '' @ label @ ''...'') w))"

definition laspy_block ::
  "host \<Rightarrow> args \<Rightarrow> string set \<Rightarrow> int list \<Rightarrow> BenchResult list \<Rightarrow> world \<Rightarrow> BenchResult list \<times> world" where
  "laspy_block h a tools thread_counts all_results w =
     (if ''laspy'' \<in> tools \<and> has_laspy h
      then (case laspy_backend_block h a thread_counts LazrsParallel ''laspy (lazrs-parallel)''
                   all_results w of
              (rs, w') \<Rightarrow> laspy_backend_block h a thread_counts Laszip ''laspy (laszip)'' rs w')
      else if ''laspy'' \<in> tools
      then (all_results, print_out ''laspy not installed - skipping laspy benchmarks.'' w)
      else (all_results, w))"

definition lazrs_block ::
  "host \<Rightarrow> args \<Rightarrow> string set \<Rightarrow> BenchResult list \<Rightarrow> world \<Rightarrow> BenchResult list \<times> world" where
  "lazrs_block h a tools all_results w =
     (if ''lazrs'' \<in> tools \<and> has_lazrs h
      then guarded ''lazrs''
             (cell (args_operation a \<in> {''read'', ''both''})
                (benchmark_lazrs_read (has_lazrs h) (input_file a) (args_warmup a) (args_iterations a)))
             all_results (print_out ''Benchmarking lazrs (direct)...'' w)
      else if ''lazrs'' \<in> tools \<and> \<not> has_laspy h
      then (all_results, print_out ''lazrs not installed - skipping lazrs benchmarks.'' w)
      else (all_results, w))"

definition pdal_block ::
  "host \<Rightarrow> args \<Rightarrow> string set \<Rightarrow> BenchResult list \<Rightarrow> world \<Rightarrow> BenchResult list \<times> world" where
  "pdal_block h a tools all_results w =
     (if ''pdal'' \<in> tools \<and> has_pdal h
      then guarded ''PDAL''
             (then_cell
                (cell (args_operation a \<in> {''read'', ''both''})
                   (benchmark_pdal_read (has_pdal h) (input_file a) (args_warmup a) (args_iterations a)))
                (cell (args_operation a \<in> {''write'', ''both''})
                   (benchmark_pdal_write (has_pdal h) (input_file a) (args_warmup a) (args_iterations a))))
             all_results (print_out ''Benchmarking pdal...'' w)
      else if ''pdal'' \<in> tools
      then (all_results, print_out ''pdal not found on PATH - skipping PDAL benchmarks.'' w)
      else (all_results, w))"

text \<open>
  The measuring part of \<open>main\<close>, from the parsing of the tool and thread lists to the
  last tool: it returns the metadata and \<open>all_results\<close>. The only exception it lets out
  is the \<open>ValueError\<close> of a thread count that is not an integer.
\<close>

definition collect_results ::
  "host \<Rightarrow> args \<Rightarrow> world \<Rightarrow> (py_error + metadata \<times> BenchResult list) \<times> world" where
  "collect_results h a w =
     (let tools = set (map py_strip (py_split CHR '','' (args_tools a)))
      in (case collect py_int (py_split CHR '','' (args_threads a)) of
            Inl e \<Rightarrow> (Inl e, w)
          | Inr thread_counts \<Rightarrow>
             (let md = \<lparr>md_file = input_file a, md_num_points = 0,
                        md_file_size_bytes = st_size h (input_file a),
                        md_hardware_threads = cpu_count h, md_platform = platform h,
                        md_has_thread_control = False, md_point_format = None,
                        md_is_compressed = None\<rparr>;
                  ((md1, rs1), w1) = cpp_block h a tools thread_counts md [] w;
                  (rs2, w2) = laspy_block h a tools thread_counts rs1 w1;
                  (rs3, w3) = lazrs_block h a tools rs2 w2;
                  (rs4, w4) = pdal_block h a tools rs3 w3
              in (Inr (md1, rs4), w4))))"

section \<open>Reporting\<close>

definition throughput :: "BenchSummary \<Rightarrow> py_error + pyfloat \<times> pyfloat" where
  "throughput s =
     (case pts_per_s s of
        Inl e \<Rightarrow> Inl e
      | Inr p \<Rightarrow> (case mb_per_s s of Inl e \<Rightarrow> Inl e | Inr m \<Rightarrow> Inr (p, m)))"

text \<open>
  \<open>print_results\<close> prints one line per summary of a read and then of a write, with both
  throughput values; the JSON payload holds them for every summary.
\<close>

definition print_results :: "BenchSummary list \<Rightarrow> world \<Rightarrow> (py_error + unit) \<times> world" where
  "print_results summaries w =
     (case collect throughput
             (filter (\<lambda>s. BenchSummary.operation s = ''read'') summaries @
              filter (\<lambda>s. BenchSummary.operation s = ''write'') summaries) of
        Inl e \<Rightarrow> (Inl e, w)
      | Inr lines \<Rightarrow> (Inr (), print_out ''LAS/LAZ Performance Benchmark'' w))"

definition write_json ::
  "host \<Rightarrow> string \<Rightarrow> BenchSummary list \<Rightarrow> BenchResult list \<Rightarrow> world \<Rightarrow> (py_error + unit) \<times> world" where
  "write_json h out_path summaries all_results w =
     (case collect throughput summaries of
        Inl e \<Rightarrow> (Inl e, w)
      | Inr values \<Rightarrow>
         (case write_text_error h out_path of
            Some e \<Rightarrow> (Inl e, w)
          | None \<Rightarrow>
             (Inr (), print_out (''Results saved to: '' @ out_path)
                        (w\<lparr>written := written w @ [(out_path, summaries, all_results)]\<rparr>))))"

definition plot_results :: "host \<Rightarrow> world \<Rightarrow> (py_error + unit) \<times> world" where
  "plot_results h w =
     (if \<not> has_matplotlib h then (Inr (), print_out ''matplotlib not available - skipping plot.'' w)
      else (case plot_error h of
              Some e \<Rightarrow> (Inl e, w)
            | None \<Rightarrow> (Inr (), w\<lparr>plots := Suc (plots w)\<rparr>)))"

definition report ::
  "host \<Rightarrow> args \<Rightarrow> metadata \<Rightarrow> BenchResult list \<Rightarrow> world \<Rightarrow> (py_error + int) \<times> world" where
  "report h a md all_results w =
     (case aggregate (float_summation h) all_results (md_num_points md) (md_file_size_bytes md) of
        Inl e \<Rightarrow> (Inl e, w)
      | Inr summaries \<Rightarrow>
         (case print_results summaries w of
            (Inl e, w1) \<Rightarrow> (Inl e, w1)
          | (Inr u, w1) \<Rightarrow>
             (case (if truthy (args_output a)
                    then write_json h (case args_output a of None \<Rightarrow> [] | Some p \<Rightarrow> p)
                           summaries all_results w1
                    else (Inr (), w1)) of
                (Inl e, w2) \<Rightarrow> (Inl e, w2)
              | (Inr u, w2) \<Rightarrow>
                 (case (if args_plot a \<or> truthy (args_plot_output a) then plot_results h w2
                        else (Inr (), w2)) of
                    (Inl e, w3) \<Rightarrow> (Inl e, w3)
                  | (Inr u, w3) \<Rightarrow> (Inr 0, w3)))))"

definition main :: "host \<Rightarrow> args \<Rightarrow> world \<Rightarrow> (py_error + int) \<times> world" where
  "main h a w =
     (if \<not> path_exists h (input_file a)
      then (Inr 1, print_err (''Error: file not found: '' @ input_file a) w)
      else (case collect_results h a w of
              (Inl e, w') \<Rightarrow> (Inl e, w')
            | (Inr (md, all_results), w') \<Rightarrow>
                if all_results = [] then (Inr 1, print_err ''No benchmark results collected.'' w')
                else report h a md all_results w'))"

section \<open>Samples are only ever appended\<close>

definition extends :: "cells \<Rightarrow> bool" where
  "extends c = (\<forall>rs w. \<exists>new. snd (fst (c rs w)) = rs @ new)"

lemma extends_cell: "extends (cell enabled driver)"
  unfolding extends_def
proof (intro allI)
  fix rs w
  show "\<exists>new. snd (fst (cell enabled driver rs w)) = rs @ new"
  proof (cases "driver w")
    case (Pair r w')
    then show ?thesis
      by (cases r) (auto simp: cell_def)
  qed
qed

lemma extends_then:
  assumes "extends c1" and "extends c2"
  shows "extends (then_cell c1 c2)"
  unfolding extends_def
proof (intro allI)
  fix rs w
  obtain x rs1 w1 where c1: "c1 rs w = ((x, rs1), w1)"
    by (cases "c1 rs w") auto
  have "\<exists>new. snd (fst (c1 rs w)) = rs @ new"
    using assms(1) [unfolded extends_def] by blast
  then obtain new1 where n1: "rs1 = rs @ new1"
    by (auto simp: c1)
  show "\<exists>new. snd (fst (then_cell c1 c2 rs w)) = rs @ new"
  proof (cases x)
    case None
    obtain new2 where "snd (fst (c2 rs1 w1)) = rs1 @ new2"
      using assms(2) unfolding extends_def by blast
    with None c1 n1 show ?thesis
      by (simp add: then_cell_def)
  next
    case (Some e)
    with c1 n1 show ?thesis
      by (simp add: then_cell_def)
  qed
qed

lemma extends_for:
  assumes "\<And>x. extends (body x)"
  shows "extends (for_cells body xs)"
  unfolding extends_def
proof (induction xs)
  case Nil
  show ?case by simp
next
  case (Cons x xs)
  show ?case
  proof (intro allI)
    fix rs w
    obtain y rs1 w1 where b: "body x rs w = ((y, rs1), w1)"
      by (cases "body x rs w") auto
    have "\<exists>new. snd (fst (body x rs w)) = rs @ new"
      using assms [of x, unfolded extends_def] by blast
    then obtain new1 where n1: "rs1 = rs @ new1"
      by (auto simp: b)
    show "\<exists>new. snd (fst (for_cells body (x # xs) rs w)) = rs @ new"
    proof (cases y)
      case None
      obtain new2 where "snd (fst (for_cells body xs rs1 w1)) = rs1 @ new2"
        using Cons by blast
      with None b n1 show ?thesis by simp
    next
      case (Some e)
      with b n1 show ?thesis by simp
    qed
  qed
qed

lemma guarded_keeps:
  assumes "extends block"
  shows "\<exists>new. fst (guarded label block rs w) = rs @ new"
proof -
  obtain x rs1 w1 where b: "block rs w = ((x, rs1), w1)"
    by (cases "block rs w") auto
  have "\<exists>new. snd (fst (block rs w)) = rs @ new"
    using assms [unfolded extends_def] by blast
  then obtain new where "rs1 = rs @ new"
    by (auto simp: b)
  with b show ?thesis
    by (cases x) (simp_all add: guarded_def)
qed

lemma extends_laspy_cells: "extends (laspy_cells a backend label ns)"
  unfolding laspy_cells_def by (intro extends_for extends_then extends_cell)

lemma laspy_backend_block_keeps:
  "\<exists>new. fst (laspy_backend_block h a thread_counts backend label rs w) = rs @ new"
  using guarded_keeps [OF extends_laspy_cells]
  by (simp add: laspy_backend_block_def)

lemma laspy_block_keeps: "\<exists>new. fst (laspy_block h a tools thread_counts rs w) = rs @ new"
proof -
  obtain rs1 w1 where 1: "laspy_backend_block h a thread_counts LazrsParallel ''laspy (lazrs-parallel)'' rs w = (rs1, w1)"
    by (cases "laspy_backend_block h a thread_counts LazrsParallel ''laspy (lazrs-parallel)'' rs w") auto
  obtain new1 where n1: "rs1 = rs @ new1"
    using laspy_backend_block_keeps [of h a thread_counts LazrsParallel "''laspy (lazrs-parallel)''" rs w] 1
    by auto
  obtain new2 where "fst (laspy_backend_block h a thread_counts Laszip ''laspy (laszip)'' rs1 w1) = rs1 @ new2"
    using laspy_backend_block_keeps by blast
  with 1 n1 show ?thesis
    by (simp add: laspy_block_def)
qed

lemma lazrs_block_keeps: "\<exists>new. fst (lazrs_block h a tools rs w) = rs @ new"
  using guarded_keeps [OF extends_cell]
  by (simp add: lazrs_block_def)

lemma pdal_block_keeps: "\<exists>new. fst (pdal_block h a tools rs w) = rs @ new"
  using guarded_keeps [OF extends_then [OF extends_cell extends_cell]]
  by (simp add: pdal_block_def)

lemma cpp_block_keeps:
  "\<exists>new. snd (fst (cpp_block h a tools thread_counts md rs w)) = rs @ new"
proof (cases "tools \<inter> {''laspp'', ''laszip''} = {}")
  case True
  then show ?thesis by (simp add: cpp_block_def)
next
  case False
  show ?thesis
  proof (cases "find_benchmark_binary h (args_benchmark_binary a)")
    case None
    with False show ?thesis by (simp add: cpp_block_def)
  next
    case (Some binary)
    let ?run = "run_cpp_benchmark h binary (input_file a)
                  (if ''laspp'' \<in> tools then thread_counts else [1])
                  (args_iterations a) (args_warmup a) (args_operation a)
                  (if args_operation a \<in> {''write'', ''both''} then Some (args_chunk_size a) else None)
                  (''laszip'' \<in> tools) True
                  (print_out (''Using C++ benchmark binary: '' @ binary) w)"
    obtain r w' where r: "?run = (r, w')"
      by (cases ?run) auto
    show ?thesis
    proof (cases r)
      case (Inl e)
      with False Some r show ?thesis by (simp add: cpp_block_def Let_def)
    next
      case (Inr p)
      obtain meta res where "p = (meta, res)" by (cases p)
      with Inr False Some r show ?thesis by (simp add: cpp_block_def Let_def)
    qed
  qed
qed

lemma collect_results_total:
  assumes "collect py_int (py_split CHR '','' (args_threads a)) = Inr thread_counts"
  shows "\<exists>md rs w'. collect_results h a w = (Inr (md, rs), w')"
  by (simp add: collect_results_def assms Let_def split_beta)

section \<open>No driver writes the output file\<close>

lemma run_process_frame:
  "\<exists>c. snd (run_process cmd env w) = w\<lparr>spawned := spawned w @ [(cmd, env)], op_calls := c\<rparr>"
proof (cases cmd)
  case (LaspyReadScript nt path warmup iterations)
  show ?thesis
  proof (cases "plain_path path")
    case True
    obtain c where "snd (laspy_read_script warmup iterations (w\<lparr>spawned := spawned w @ [(cmd, env)]\<rparr>)) =
        w\<lparr>spawned := spawned w @ [(cmd, env)], op_calls := c\<rparr>"
      using laspy_read_script_frame by blast
    with True LaspyReadScript show ?thesis
      by (intro exI [of _ c]) (simp add: run_process_def Let_def)
  next
    case False
    with LaspyReadScript show ?thesis
      by (intro exI [of _ "op_calls w"]) (simp add: run_process_def Let_def)
  qed
next
  case (CppBenchmark argv)
  then show ?thesis
    by (intro exI [of _ "op_calls w"]) (simp add: run_process_def Let_def)
qed

lemma run_process_written [simp]: "written (snd (run_process cmd env w)) = written w"
proof -
  obtain c where "snd (run_process cmd env w) = w\<lparr>spawned := spawned w @ [(cmd, env)], op_calls := c\<rparr>"
    using run_process_frame by blast
  then show ?thesis by simp
qed

lemma written_simps [simp]:
  "written (print_out s w) = written w"
  "written (print_err s w) = written w"
  "written (warn label e w) = written w"
  "written (environ_set k v w) = written w"
  "written (environ_pop k w) = written w"
  "written (restore_rayon old w) = written w"
  "written (snd (make_tmp w)) = written w"
  "written (unlink t w) = written w"
  by (simp_all add: print_out_def print_err_def warn_def environ_set_def environ_pop_def
      restore_rayon_def make_tmp_def unlink_def split: option.splits)

lemma run_loops_written [simp]: "written (snd (run_loops mk warmup iterations w)) = written w"
proof -
  obtain c where "snd (run_loops mk warmup iterations w) = w\<lparr>op_calls := c\<rparr>"
    using run_loops_frame by blast
  then show ?thesis by simp
qed

definition keeps_files :: "(world \<Rightarrow> 'a \<times> world) \<Rightarrow> bool" where
  "keeps_files f = (\<forall>w. written (snd (f w)) = written w)"

lemma keeps_laspy_read:
  "keeps_files (benchmark_laspy_read file backend label warmup iterations num_threads)"
proof -
  have sub: "written (snd (laspy_read_subprocess file label warmup iterations nt w)) = written w" for nt w
    by (simp add: laspy_read_subprocess_def Let_def split_beta)
  have inp: "written (snd (laspy_read_inprocess file backend label warmup iterations nt w)) = written w"
    for nt w
    by (simp add: laspy_read_inprocess_def Let_def snd_case_prod split: option.splits)
  show ?thesis
    by (simp add: keeps_files_def benchmark_laspy_read_def sub inp split: option.splits)
qed

lemma keeps_laspy_write:
  "keeps_files (benchmark_laspy_write file backend label warmup iterations chunk_size num_threads)"
  unfolding keeps_files_def
proof (intro allI)
  fix w
  show "written (snd (benchmark_laspy_write file backend label warmup iterations chunk_size num_threads w)) =
      written w"
  proof (cases "op_results w (op_calls w)")
    case (Inl e)
    then show ?thesis
      by (simp add: benchmark_laspy_write_def call_op_def)
  next
    case (Inr t)
    then show ?thesis
      by (simp add: benchmark_laspy_write_def call_op_def Let_def split_beta split: option.splits)
  qed
qed

lemma keeps_lazrs_read: "keeps_files (benchmark_lazrs_read has file warmup iterations)"
  unfolding keeps_files_def
proof (intro allI)
  fix w
  show "written (snd (benchmark_lazrs_read has file warmup iterations w)) = written w"
  proof (cases "op_results w (op_calls w)")
    case (Inl e)
    then show ?thesis
      by (cases "op_results w (Suc (op_calls w))")
         (simp_all add: benchmark_lazrs_read_def call_op_def)
  next
    case (Inr t)
    then show ?thesis
      by (simp add: benchmark_lazrs_read_def call_op_def)
  qed
qed

lemma keeps_pdal: "keeps_files (benchmark_pdal opn has file warmup iterations)"
  by (simp add: keeps_files_def benchmark_pdal_def Let_def split_beta)

definition quiet :: "cells \<Rightarrow> bool" where
  "quiet c = (\<forall>rs w. written (snd (c rs w)) = written w)"

lemma quiet_cell: "keeps_files driver \<Longrightarrow> quiet (cell enabled driver)"
  unfolding quiet_def keeps_files_def
proof (intro allI)
  fix rs w
  assume k: "\<forall>w. written (snd (driver w)) = written w"
  obtain r w' where d: "driver w = (r, w')"
    by (cases "driver w") auto
  from k [rule_format, of w] d show "written (snd (cell enabled driver rs w)) = written w"
    by (cases r) (simp_all add: cell_def)
qed

lemma quiet_then:
  assumes "quiet c1" and "quiet c2"
  shows "quiet (then_cell c1 c2)"
  unfolding quiet_def
proof (intro allI)
  fix rs w
  obtain x rs1 w1 where c1: "c1 rs w = ((x, rs1), w1)"
    by (cases "c1 rs w") auto
  have w1: "written w1 = written w"
    using assms(1) [unfolded quiet_def, rule_format, of rs w] by (simp add: c1)
  show "written (snd (then_cell c1 c2 rs w)) = written w"
  proof (cases x)
    case None
    with c1 w1 assms(2) [unfolded quiet_def, rule_format, of rs1 w1] show ?thesis
      by (simp add: then_cell_def)
  next
    case (Some e)
    with c1 w1 show ?thesis
      by (simp add: then_cell_def)
  qed
qed

lemma quiet_for:
  assumes "\<And>x. quiet (body x)"
  shows "quiet (for_cells body xs)"
  unfolding quiet_def
proof (induction xs)
  case Nil
  show ?case by simp
next
  case (Cons x xs)
  show ?case
  proof (intro allI)
    fix rs w
    obtain y rs1 w1 where b: "body x rs w = ((y, rs1), w1)"
      by (cases "body x rs w") auto
    have w1: "written w1 = written w"
      using assms [of x, unfolded quiet_def, rule_format, of rs w] by (simp add: b)
    show "written (snd (for_cells body (x # xs) rs w)) = written w"
    proof (cases y)
      case None
      with b w1 Cons [rule_format, of rs1 w1] show ?thesis by simp
    next
      case (Some e)
      with b w1 show ?thesis by simp
    qed
  qed
qed

lemma guarded_written:
  assumes "quiet block"
  shows "written (snd (guarded label block rs w)) = written w"
proof -
  obtain x rs1 w1 where b: "block rs w = ((x, rs1), w1)"
    by (cases "block rs w") auto
  have "written w1 = written w"
    using assms [unfolded quiet_def, rule_format, of rs w] by (simp add: b)
  with b show ?thesis
    by (cases x) (simp_all add: guarded_def)
qed

lemma quiet_laspy_cells: "quiet (laspy_cells a backend label ns)"
  unfolding laspy_cells_def
  by (intro quiet_for quiet_then quiet_cell keeps_laspy_read keeps_laspy_write)

lemma laspy_backend_block_written:
  "written (snd (laspy_backend_block h a thread_counts backend label rs w)) = written w"
  by (simp add: laspy_backend_block_def guarded_written [OF quiet_laspy_cells])

lemma laspy_block_written: "written (snd (laspy_block h a tools thread_counts rs w)) = written w"
proof -
  obtain rs1 w1 where 1: "laspy_backend_block h a thread_counts LazrsParallel ''laspy (lazrs-parallel)'' rs w = (rs1, w1)"
    by (cases "laspy_backend_block h a thread_counts LazrsParallel ''laspy (lazrs-parallel)'' rs w") auto
  have "written w1 = written w"
    using laspy_backend_block_written [of h a thread_counts LazrsParallel "''laspy (lazrs-parallel)''" rs w]
    by (simp add: 1)
  then show ?thesis
    by (simp add: laspy_block_def 1 laspy_backend_block_written)
qed

lemma lazrs_block_written: "written (snd (lazrs_block h a tools rs w)) = written w"
  by (simp add: lazrs_block_def guarded_written [OF quiet_cell [OF keeps_lazrs_read]])

lemma pdal_block_written: "written (snd (pdal_block h a tools rs w)) = written w"
  by (simp add: pdal_block_def benchmark_pdal_read_def benchmark_pdal_write_def
      guarded_written [OF quiet_then [OF quiet_cell [OF keeps_pdal] quiet_cell [OF keeps_pdal]]])

lemma cpp_block_written:
  "written (snd (cpp_block h a tools thread_counts md rs w)) = written w"
proof (cases "tools \<inter> {''laspp'', ''laszip''} = {}")
  case True
  then show ?thesis by (simp add: cpp_block_def)
next
  case False
  show ?thesis
  proof (cases "find_benchmark_binary h (args_benchmark_binary a)")
    case None
    with False show ?thesis by (simp add: cpp_block_def)
  next
    case (Some binary)
    let ?run = "run_cpp_benchmark h binary (input_file a)
                  (if ''laspp'' \<in> tools then thread_counts else [1])
                  (args_iterations a) (args_warmup a) (args_operation a)
                  (if args_operation a \<in> {''write'', ''both''} then Some (args_chunk_size a) else None)
                  (''laszip'' \<in> tools) True
                  (print_out (''Using C++ benchmark binary: '' @ binary) w)"
    have k: "written (snd ?run) = written w"
      by (simp add: run_cpp_benchmark_def Let_def split_beta)
    obtain r w' where r: "?run = (r, w')"
      by (cases ?run) auto
    show ?thesis
    proof (cases r)
      case (Inl e)
      with False Some r k show ?thesis by (simp add: cpp_block_def Let_def)
    next
      case (Inr p)
      obtain meta res where "p = (meta, res)" by (cases p)
      with Inr False Some r k show ?thesis by (simp add: cpp_block_def Let_def)
    qed
  qed
qed

lemma collect_results_written: "written (snd (collect_results h a w)) = written w"
proof (cases "collect py_int (py_split CHR '','' (args_threads a))")
  case (Inl e)
  then show ?thesis by (simp add: collect_results_def)
next
  case (Inr thread_counts)
  then show ?thesis
    by (simp add: collect_results_def Let_def split_beta pdal_block_written lazrs_block_written
        laspy_block_written cpp_block_written)
qed

end
